theory Spec2Isabelle
  imports Complex_Main "HOL-Library.List_Lexorder" "HOL-Library.Char_ord"
begin

section \<open>JavaScript values\<close>

text \<open>
  A JavaScript number is \<open>NaN\<close>, one of the two infinities, or a finite double. A finite
  double is represented by the real number it denotes, so \<open>-0\<close> and \<open>+0\<close> are one value.
  The comparisons, \<open>Math.min\<close> and \<open>Math.max\<close> do not round; they follow ECMAScript:
  every comparison with \<open>NaN\<close> is false, and \<open>Math.min\<close>/\<open>Math.max\<close> return \<open>NaN\<close> as soon as
  one argument is.
\<close>

datatype jsnum = NaN | NegInf | Fin real | PosInf

fun js_le :: "jsnum \<Rightarrow> jsnum \<Rightarrow> bool" where
  "js_le NaN _ = False"
| "js_le _ NaN = False"
| "js_le NegInf _ = True"
| "js_le _ PosInf = True"
| "js_le (Fin a) (Fin b) = (a \<le> b)"
| "js_le (Fin _) NegInf = False"
| "js_le PosInf _ = False"

definition js_isNaN :: "jsnum \<Rightarrow> bool" where
  "js_isNaN n = (n = NaN)"

definition Math_min :: "jsnum \<Rightarrow> jsnum \<Rightarrow> jsnum" where
  "Math_min a b = (if a = NaN \<or> b = NaN then NaN else if js_le a b then a else b)"

definition Math_max :: "jsnum \<Rightarrow> jsnum \<Rightarrow> jsnum" where
  "Math_max a b = (if a = NaN \<or> b = NaN then NaN else if js_le a b then b else a)"

text \<open>
  The value \<open>JSON.parse\<close> returns. An object is the list of its own properties in the
  order \<open>Object.entries\<close> enumerates them; \<open>JSON.parse\<close> keeps one value per key.
\<close>

datatype json =
    JNull
  | JBool bool
  | JNum jsnum
  | JStr string
  | JArr "json list"
  | JObj "(string \<times> json) list"

text \<open>\<open>!v\<close> is \<open>\<not> truthy v\<close>.\<close>

fun truthy :: "json \<Rightarrow> bool" where
  "truthy JNull = False"
| "truthy (JBool b) = b"
| "truthy (JNum n) = (n \<noteq> NaN \<and> n \<noteq> Fin 0)"
| "truthy (JStr s) = (s \<noteq> [])"
| "truthy (JArr _) = True"
| "truthy (JObj _) = True"

text \<open>
  \<open>v.k\<close> for a key that no prototype defines (\<open>predictions\<close>, \<open>exit_ids\<close>): \<open>None\<close> is
  \<open>undefined\<close>. The source reads a property only after it has tested the value for
  truthiness, so the read of a property of \<open>null\<close>, which throws, does not occur.
\<close>

fun get_property :: "json \<Rightarrow> string \<Rightarrow> json option" where
  "get_property (JObj kvs) k = map_of kvs k"
| "get_property _ k = None"

definition decimal_digits :: string where
  "decimal_digits = ''0123456789''"

definition digit_char :: "nat \<Rightarrow> char" where
  "digit_char n = decimal_digits ! n"

text \<open>The decimal text of a non-negative integer, as \<open>String(i)\<close> prints an array index.\<close>

fun string_of_nat :: "nat \<Rightarrow> string" where
  "string_of_nat n =
     (if n < 10 then [digit_char n] else string_of_nat (n div 10) @ [digit_char (n mod 10)])"

declare string_of_nat.simps [simp del]

text \<open>\<open>Array.prototype.join\<close> on strings.\<close>

fun join_js :: "string \<Rightarrow> string list \<Rightarrow> string" where
  "join_js sep [] = []"
| "join_js sep [s] = s"
| "join_js sep (s # t # ts) = s @ sep @ join_js sep (t # ts)"

text \<open>
  \<open>String(v)\<close> and \<open>Number(v)\<close>. The platform's conversions between numbers and text
  (\<open>Number::toString\<close> and \<open>StringToNumber\<close>) are the parameters \<open>numToStr\<close> and
  \<open>strToNum\<close>. An array converts through \<open>join\<close>, in which \<open>null\<close> elements print as the
  empty string; a plain object prints as \<open>[object Object]\<close>, which is not a numeral.
\<close>

fun js_String :: "(jsnum \<Rightarrow> string) \<Rightarrow> json \<Rightarrow> string" where
  "js_String numToStr JNull = ''null''"
| "js_String numToStr (JBool b) = (if b then ''true'' else ''false'')"
| "js_String numToStr (JNum n) = numToStr n"
| "js_String numToStr (JStr s) = s"
| "js_String numToStr (JArr vs) =
     join_js '','' (map (\<lambda>v. if v = JNull then [] else js_String numToStr v) vs)"
| "js_String numToStr (JObj _) = ''[object Object]''"

fun js_Number :: "(string \<Rightarrow> jsnum) \<Rightarrow> (jsnum \<Rightarrow> string) \<Rightarrow> json \<Rightarrow> jsnum" where
  "js_Number strToNum numToStr JNull = Fin 0"
| "js_Number strToNum numToStr (JBool b) = (if b then Fin 1 else Fin 0)"
| "js_Number strToNum numToStr (JNum n) = n"
| "js_Number strToNum numToStr (JStr s) = strToNum s"
| "js_Number strToNum numToStr (JArr vs) = strToNum (js_String numToStr (JArr vs))"
| "js_Number strToNum numToStr (JObj _) = NaN"

text \<open>
  \<open>Object.entries\<close> of a truthy value: the properties of an object, the indexed elements
  of an array, the indexed characters of a string, nothing for a number or a boolean.
\<close>

fun Object_entries :: "json \<Rightarrow> (string \<times> json) list" where
  "Object_entries (JObj kvs) = kvs"
| "Object_entries (JArr vs) = zip (map string_of_nat [0..<length vs]) vs"
| "Object_entries (JStr s) = zip (map string_of_nat [0..<length s]) (map (\<lambda>c. JStr [c]) s)"
| "Object_entries _ = []"

text \<open>
  Two instances of the platform's conversions, for evaluating examples: \<open>StringToNumber\<close>
  on the empty text and on unsigned decimal integers (any other text is taken to be no
  numeral), and \<open>Number::toString\<close> on integers of magnitude below \<open>10^21\<close>.
\<close>

definition digit_value :: "char \<Rightarrow> nat option" where
  "digit_value c = map_of (zip decimal_digits [0, 1, 2, 3, 4, 5, 6, 7, 8, 9]) c"

fun decimal_value :: "nat \<Rightarrow> string \<Rightarrow> nat option" where
  "decimal_value acc [] = Some acc"
| "decimal_value acc (c # cs) =
     (case digit_value c of None \<Rightarrow> None | Some d \<Rightarrow> decimal_value (10 * acc + d) cs)"

definition strToNum_decimal :: "string \<Rightarrow> jsnum" where
  "strToNum_decimal s = (case decimal_value 0 s of None \<Rightarrow> NaN | Some n \<Rightarrow> Fin (real n))"

definition string_of_int :: "int \<Rightarrow> string" where
  "string_of_int i = (if i < 0 then CHR ''-'' # string_of_nat (nat (- i)) else string_of_nat (nat i))"

definition numToStr_integer :: "jsnum \<Rightarrow> string" where
  "numToStr_integer n =
     (case n of NaN \<Rightarrow> ''NaN'' | NegInf \<Rightarrow> ''-Infinity'' | PosInf \<Rightarrow> ''Infinity''
      | Fin r \<Rightarrow> string_of_int \<lfloor>r\<rfloor>)"

section \<open>processWebSocketResponse (utils/processResponse.ts)\<close>

text \<open>
  \<open>String(v)\<close> and \<open>Number(v)\<close> of an object or of an array can throw. Both look for a
  method \<open>toString\<close> or \<open>valueOf\<close> that returns a primitive value. No property of an object
  that \<open>JSON.parse\<close> produced is callable, so an object with a property of its own named
  \<open>toString\<close> hides the inherited method, the inherited \<open>valueOf\<close> returns the object, and
  the conversion throws a \<open>TypeError\<close>. An array converts through \<open>Array.prototype.join\<close>,
  which converts every element that is not \<open>null\<close> and so throws where one of them does
  (\<open>unprintable\<close>). \<open>join\<close> calls itself on every nested array: on an array that is nested
  too deeply the platform runs out of stack and throws as well (a \<open>RangeError\<close> or an
  \<open>InternalError\<close>, by the engine). Which arrays exhaust the platform is the parameter
  \<open>throws\<close>. \<open>js_String\<close> and \<open>js_Number\<close> above are the values of the conversions that
  complete. The \<open>catch\<close> of the function takes whatever is thrown, so the model has one value
  for it.
\<close>

datatype js_error = Thrown

fun is_array :: "json \<Rightarrow> bool" where
  "is_array (JArr _) = True"
| "is_array _ = False"

fun unprintable :: "json \<Rightarrow> bool" where
  "unprintable (JObj kvs) = (''toString'' \<in> set (map fst kvs))"
| "unprintable (JArr vs) = (\<exists>v \<in> set vs. unprintable v)"
| "unprintable _ = False"

definition conversion_throws :: "(json \<Rightarrow> bool) \<Rightarrow> json \<Rightarrow> bool" where
  "conversion_throws throws v = (unprintable v \<or> is_array v \<and> throws v)"

definition String_call :: "(json \<Rightarrow> bool) \<Rightarrow> (jsnum \<Rightarrow> string) \<Rightarrow> json \<Rightarrow> js_error + string" where
  "String_call throws numToStr v =
     (if conversion_throws throws v then Inl Thrown else Inr (js_String numToStr v))"

definition Number_call ::
  "(json \<Rightarrow> bool) \<Rightarrow> (string \<Rightarrow> jsnum) \<Rightarrow> (jsnum \<Rightarrow> string) \<Rightarrow> json \<Rightarrow> js_error + jsnum" where
  "Number_call throws strToNum numToStr v =
     (if conversion_throws throws v then Inl Thrown else Inr (js_Number strToNum numToStr v))"

text \<open>
  An instance of the platform's failure, for evaluating examples: the platform runs out of
  stack on a value nested more than 100000 deep. It is used on values nested at most twice,
  which exhaust no platform, and on an array nested a million deep.
\<close>

fun nesting :: "json \<Rightarrow> nat" where
  "nesting (JArr vs) = Suc (foldr max (map nesting vs) 0)"
| "nesting _ = 0"

fun nested :: "nat \<Rightarrow> json \<Rightarrow> json" where
  "nested 0 v = v"
| "nested (Suc n) v = JArr [nested n v]"

definition throws_sample :: "json \<Rightarrow> bool" where
  "throws_sample v = (100000 < nesting v)"

definition deep_array :: json where
  "deep_array = nested 1000000 (JArr [])"

record ProcessedPrediction =
  trackId :: string
  name :: string
  confidence :: jsnum
  x1 :: jsnum
  y1 :: jsnum
  x2 :: jsnum
  y2 :: jsnum

text \<open>
  The callback of \<open>forEach\<close>, applied to one entry \<open>[trackId, prediction]\<close> and the array
  \<open>processedPredictions\<close> built so far. It returns early and leaves the array as it is, or
  pushes one record, or throws (\<open>Inl\<close>) out of one of its conversions. The four coordinates
  are converted before they are tested, and \<open>String(name)\<close> and \<open>Number(confidence)\<close> are
  evaluated, in this order, only when the record is built. \<open>String(trackId)\<close> is applied to
  a property key, which is a string. The console output of the function is not part of
  the model.
\<close>

definition forEach_callback ::
  "(json \<Rightarrow> bool) \<Rightarrow> (string \<Rightarrow> jsnum) \<Rightarrow> (jsnum \<Rightarrow> string) \<Rightarrow> ProcessedPrediction list
     \<Rightarrow> string \<times> json \<Rightarrow> js_error + ProcessedPrediction list" where
  "forEach_callback throws strToNum numToStr processedPredictions entry =
     (case entry of (tid, prediction) \<Rightarrow>
        (case prediction of
           JArr p \<Rightarrow>
             if length p < 6 then Inr processedPredictions
             else
               (case Number_call throws strToNum numToStr (p ! 2) of Inl e \<Rightarrow> Inl e | Inr parsedX1 \<Rightarrow>
                case Number_call throws strToNum numToStr (p ! 3) of Inl e \<Rightarrow> Inl e | Inr parsedY1 \<Rightarrow>
                case Number_call throws strToNum numToStr (p ! 4) of Inl e \<Rightarrow> Inl e | Inr parsedX2 \<Rightarrow>
                case Number_call throws strToNum numToStr (p ! 5) of Inl e \<Rightarrow> Inl e | Inr parsedY2 \<Rightarrow>
                  if js_isNaN parsedX1 \<or> js_isNaN parsedY1 \<or> js_isNaN parsedX2 \<or> js_isNaN parsedY2
                  then Inr processedPredictions
                  else
                    (case String_call throws numToStr (p ! 0) of Inl e \<Rightarrow> Inl e | Inr name' \<Rightarrow>
                     case Number_call throws strToNum numToStr (p ! 1) of Inl e \<Rightarrow> Inl e
                     | Inr confidence' \<Rightarrow>
                         Inr (processedPredictions @
                           [\<lparr> trackId = tid,
                              name = name',
                              confidence = confidence',
                              x1 = Math_min parsedX1 parsedX2,
                              y1 = Math_min parsedY1 parsedY2,
                              x2 = Math_max parsedX1 parsedX2,
                              y2 = Math_max parsedY1 parsedY2 \<rparr>])))
         | _ \<Rightarrow> Inr processedPredictions))"

text \<open>
  \<open>Array.prototype.forEach\<close> with a callback that can throw: the first exception ends the
  loop and leaves \<open>forEach\<close>.
\<close>

fun forEach :: "('acc \<Rightarrow> 'e \<Rightarrow> js_error + 'acc) \<Rightarrow> 'acc \<Rightarrow> 'e list \<Rightarrow> js_error + 'acc" where
  "forEach f acc [] = Inr acc"
| "forEach f acc (e # es) = (case f acc e of Inl err \<Rightarrow> Inl err | Inr acc' \<Rightarrow> forEach f acc' es)"

text \<open>
  The function itself. The whole loop is the body of one \<open>try\<close>, and the \<open>catch\<close> returns a
  new empty array, not the records pushed so far. Nothing outside the \<open>try\<close> can throw on a
  value that \<open>JSON.parse\<close> produced, so the function returns an array on every input.
\<close>

definition processWebSocketResponse ::
  "(json \<Rightarrow> bool) \<Rightarrow> (string \<Rightarrow> jsnum) \<Rightarrow> (jsnum \<Rightarrow> string) \<Rightarrow> json \<Rightarrow> ProcessedPrediction list" where
  "processWebSocketResponse throws strToNum numToStr response =
     (if \<not> truthy response then []
      else case get_property response ''predictions'' of
             None \<Rightarrow> []
           | Some predictions \<Rightarrow>
               if \<not> truthy predictions then []
               else (case forEach (forEach_callback throws strToNum numToStr) []
                            (Object_entries predictions) of
                       Inl err \<Rightarrow> []
                     | Inr processedPredictions \<Rightarrow> processedPredictions))"

section \<open>useWebSocketAlternative (hooks/useWebSocketAlternative.ts)\<close>

text \<open>
  The hook is a state record and one function per callback. The fields up to
  \<open>connectionAttempts\<close> are the hook's own \<open>useState\<close> cells and refs. \<open>wsRef\<close> holds
  the \<open>readyState\<close> of the socket \<open>wsRef.current\<close> refers to (\<open>None\<close> when it is \<open>null\<close>).
  A value given to a state setter is the value of the cell from then on, as the callbacks
  of the next render see it. Two fields record what the code does to its surroundings:
  \<^item> \<open>readers\<close>: the frames handed to a \<open>FileReader\<close> whose \<open>onload\<close>/\<open>onerror\<close> has not run yet;
  \<^item> \<open>effects\<close>: the calls made so far, in order (console, reader, socket, timer).
  Console texts are the constant ASCII part of the source's message. \<open>WsSend\<close> is a call of
  \<open>send\<close> that returns: the bytes are on their way to the server.
\<close>

definition MAX_QUEUE_SIZE :: nat where
  "MAX_QUEUE_SIZE = 5"

record Blob =
  blob_bytes :: "nat list"
  blob_type :: string

datatype readyState = CONNECTING | OPEN | CLOSING | CLOSED

datatype effect =
    ConsoleLog string
  | ConsoleWarn string
  | ConsoleError string
  | ReadAsArrayBuffer Blob
  | WsSend "nat list"
  | WsClose
  | NewWebSocket
  | SetTimeout real

record hook =
  isConnected :: bool
  error :: "string option"
  lastResponse :: json
  queueSize :: nat
  lastLatency :: real
  wsRef :: "readyState option"
  frameQueueRef :: "Blob list"
  processingRef :: bool
  lastSentTimeRef :: "real option"
  connectionAttempts :: nat
  readers :: "Blob list"
  effects :: "effect list"

definition initial_hook :: hook where
  "initial_hook =
     \<lparr> isConnected = False, error = None, lastResponse = JNull, queueSize = 0, lastLatency = 0,
       wsRef = None, frameQueueRef = [], processingRef = False, lastSentTimeRef = None,
       connectionAttempts = 0, readers = [], effects = [] \<rparr>"

definition emit :: "effect \<Rightarrow> hook \<Rightarrow> hook" where
  "emit e s = s\<lparr>effects := effects s @ [e]\<rparr>"

text \<open>\<open>prefix + (message || 'Unknown error')\<close>, the text given to \<open>setError\<close>.\<close>

definition error_text :: "string \<Rightarrow> string option \<Rightarrow> string" where
  "error_text prefix msg =
     prefix @ (case msg of None \<Rightarrow> ''Unknown error'' | Some m \<Rightarrow> if m = [] then ''Unknown error'' else m)"

text \<open>\<open>processingRef.current = false\<close>.\<close>

definition clear_processing :: "hook \<Rightarrow> hook" where
  "clear_processing s = s\<lparr>processingRef := False\<rparr>"

text \<open>
  \<open>processNextFrame\<close>. Its first argument is the value of \<open>isConnected\<close> in the closure of
  the callback (\<open>useCallback\<close> with the dependency list \<open>[isConnected]\<close>), the second the
  reading of \<open>performance.now()\<close>. \<open>new FileReader()\<close> and \<open>readAsArrayBuffer\<close> of a \<open>Blob\<close>
  on a fresh reader do not throw, so the outer \<open>catch\<close> has no branch here.
\<close>

definition processNextFrame :: "bool \<Rightarrow> real \<Rightarrow> hook \<Rightarrow> hook" where
  "processNextFrame ic now s =
     (if \<not> ic \<or> processingRef s \<or> frameQueueRef s = [] \<or> wsRef s = None \<or> wsRef s \<noteq> Some OPEN
      then
        let s1 = (if \<not> ic then emit (ConsoleLog ''Not processing frame: Not connected'') s else s);
            s2 = (if processingRef s
                  then emit (ConsoleLog ''Not processing frame: Already processing'') s1 else s1);
            s3 = (if frameQueueRef s = []
                  then emit (ConsoleLog ''Not processing frame: Queue empty'') s2 else s2)
        in (if wsRef s = None \<or> wsRef s \<noteq> Some OPEN
            then emit (ConsoleLog ''Not processing frame: WebSocket not ready'') s3 else s3)
      else
        (case frameQueueRef s of
           [] \<Rightarrow> clear_processing (s\<lparr>queueSize := 0\<rparr>)
         | nextFrame # rest \<Rightarrow>
             emit (ReadAsArrayBuffer nextFrame)
               (emit (ConsoleLog ''Processing frame:'')
                  (s\<lparr> processingRef := True, frameQueueRef := rest, queueSize := length rest,
                      lastSentTimeRef := Some now, readers := readers s @ [nextFrame] \<rparr>))))"

text \<open>\<open>reader.onload\<close> of the reader at position \<open>i\<close>; \<open>send_throws\<close> says whether \<open>send\<close> throws.\<close>

definition reader_onload :: "nat \<Rightarrow> bool \<Rightarrow> hook \<Rightarrow> hook" where
  "reader_onload i send_throws s =
     (if i < length (readers s) then
        let arrayBuffer = blob_bytes (readers s ! i);
            s0 = s\<lparr>readers := take i (readers s) @ drop (Suc i) (readers s)\<rparr>
        in if wsRef s = None \<or> wsRef s \<noteq> Some OPEN
           then (clear_processing
                   (emit (ConsoleError ''WebSocket not ready when trying to send frame'') s0))
                 \<lparr>lastSentTimeRef := None\<rparr>
           else
             let s1 = (if 2 \<le> length arrayBuffer \<and> arrayBuffer ! 0 = 255 \<and> arrayBuffer ! 1 = 216
                       then emit (ConsoleLog ''Valid JPEG signature detected'') s0
                       else emit (ConsoleLog ''First bytes:'')
                              (emit (ConsoleWarn ''Warning: Data does not appear to have JPEG signature!'') s0));
                 s2 = emit (ConsoleLog ''Sending bytes...'') s1
             in if send_throws
                then (clear_processing (emit (ConsoleError ''Error sending frame:'') s2))
                      \<lparr>lastSentTimeRef := None\<rparr>
                else emit (ConsoleLog ''Frame sent successfully!'') (emit (WsSend arrayBuffer) s2)
      else s)"

definition reader_onerror :: "nat \<Rightarrow> hook \<Rightarrow> hook" where
  "reader_onerror i s =
     (if i < length (readers s) then
        (clear_processing
           (emit (ConsoleError ''Error reading blob'')
              (s\<lparr>readers := take i (readers s) @ drop (Suc i) (readers s)\<rparr>)))
         \<lparr>lastSentTimeRef := None\<rparr>
      else s)"

text \<open>The \<open>while\<close> loop of \<open>queueFrame\<close>.\<close>

function drop_oldest :: "hook \<Rightarrow> hook" where
  "drop_oldest s =
     (if MAX_QUEUE_SIZE \<le> length (frameQueueRef s)
      then drop_oldest
             ((emit (ConsoleLog ''Queue full, dropping oldest frame'') s)
                \<lparr>frameQueueRef := tl (frameQueueRef s)\<rparr>)
      else s)"
  by pat_completeness auto
termination
  by (relation "measure (\<lambda>s. length (frameQueueRef s))") (auto simp: MAX_QUEUE_SIZE_def emit_def)

declare drop_oldest.simps [simp del]

text \<open>
  \<open>queueFrame\<close>. Its dependency list is \<open>[isConnected, processNextFrame]\<close>, so it and the
  \<open>processNextFrame\<close> it calls both see the current \<open>isConnected\<close>. \<open>processedBlob\<close> is the
  frame that is queued: the frame itself, or a new \<open>Blob\<close> of the same bytes typed \<open>image/jpeg\<close>.
\<close>

definition processedBlob :: "Blob \<Rightarrow> Blob" where
  "processedBlob frameBlob =
     (if blob_type frameBlob \<noteq> ''image/jpeg''
      then \<lparr>blob_bytes = blob_bytes frameBlob, blob_type = ''image/jpeg''\<rparr>
      else frameBlob)"

definition queueFrame :: "real \<Rightarrow> Blob \<Rightarrow> hook \<Rightarrow> hook" where
  "queueFrame now frameBlob s =
     (let s1 = drop_oldest (emit (ConsoleLog ''Queueing frame:'') s);
          s2 = (if blob_type frameBlob \<noteq> ''image/jpeg''
                then emit (ConsoleWarn ''Converting blob MIME type to image/jpeg'') s1 else s1);
          s3 = s2\<lparr>frameQueueRef := frameQueueRef s2 @ [processedBlob frameBlob]\<rparr>;
          s4 = emit (ConsoleLog ''Frame queued, queue size:'')
                 (s3\<lparr>queueSize := length (frameQueueRef s3)\<rparr>)
      in if \<not> processingRef s4 \<and> isConnected s4 then processNextFrame (isConnected s4) now s4
         else
           let s5 = (if \<not> isConnected s4
                     then emit (ConsoleLog ''Not processing: Not connected'') s4 else s4)
           in (if processingRef s4
               then emit (ConsoleLog ''Not processing: Already processing'') s5 else s5))"

text \<open>
  The delay computed in \<open>onclose\<close>:
  \<open>Math.min(2000 * Math.pow(1.5, Math.min(connectionAttempts.current, 10)), 30000)\<close>.
  Every value of the expression is a double that the arithmetic produces without rounding.
\<close>

definition reconnect_delay :: "nat \<Rightarrow> real" where
  "reconnect_delay attempts = min (2000 * (3 / 2) ^ (min attempts 10)) 30000"

text \<open>
  \<open>connect\<close>; \<open>ctor_throws\<close> says whether \<open>new WebSocket\<close> throws, \<open>msg\<close> is the message of
  what it throws. The handlers it installs are the next four functions.
\<close>

definition connect :: "bool \<Rightarrow> string option \<Rightarrow> hook \<Rightarrow> hook" where
  "connect ctor_throws msg s =
     (let s1 = emit (ConsoleLog ''WebSocket URL:'')
                 (emit (ConsoleLog ''Attempting to connect to WebSocket'')
                    (s\<lparr>error := None, connectionAttempts := connectionAttempts s + 1\<rparr>));
          s2 = (if wsRef s1 \<noteq> None
                then (emit WsClose (emit (ConsoleLog ''Closing existing WebSocket connection...'') s1))
                       \<lparr>wsRef := None\<rparr>
                else s1)
      in if ctor_throws
         then (emit (ConsoleError ''Failed to connect to WebSocket:'') s2)
                \<lparr>error := Some (error_text ''Failed to connect to server: '' msg)\<rparr>
         else emit (ConsoleLog ''Setting binaryType to arraybuffer'')
                ((emit NewWebSocket s2)\<lparr>wsRef := Some CONNECTING\<rparr>))"

text \<open>
  \<open>connect\<close> is memoised with an empty dependency list, so its handlers keep calling the
  \<open>processNextFrame\<close> of the render in which \<open>connect\<close> was created. The argument \<open>hc\<close> is the
  value of \<open>isConnected\<close> which that \<open>processNextFrame\<close> sees. In the program it is \<open>False\<close>:
  \<open>connect\<close> is created in the first render, whose state is \<open>useState(false)\<close>. The general
  statements below are proved for both values of \<open>hc\<close>; every example is evaluated at
  \<open>False\<close>.
\<close>

definition onopen :: "bool \<Rightarrow> real \<Rightarrow> hook \<Rightarrow> hook" where
  "onopen hc now s =
     processNextFrame hc now
       ((emit (ConsoleLog ''WebSocket connected successfully'') s)
          \<lparr>isConnected := True, error := None, connectionAttempts := 0\<rparr>)"

definition onclose :: "hook \<Rightarrow> hook" where
  "onclose s =
     (let s1 = clear_processing ((emit (ConsoleLog ''WebSocket disconnected'') s)\<lparr>isConnected := False\<rparr>);
          delay = reconnect_delay (connectionAttempts s1)
      in emit (SetTimeout delay) (emit (ConsoleLog ''Will attempt to reconnect'') s1))"

definition onerror :: "string option \<Rightarrow> hook \<Rightarrow> hook" where
  "onerror msg s =
     clear_processing
       ((emit (ConsoleError ''WebSocket error:'') s)
          \<lparr>error := Some (error_text ''Failed to connect to server: '' msg)\<rparr>)"

text \<open>
  \<open>onmessage\<close>. \<open>JSON_parse\<close> is the platform's \<open>JSON.parse\<close> on the text of the message
  (\<open>None\<close>: it throws). Nothing else in the \<open>try\<close> block throws. Two parts of the handler
  are functions of their own here: \<open>measure_latency\<close> is the block guarded by
  \<open>lastSentTimeRef.current !== null\<close>, and \<open>log_parsed_response\<close> is the console output
  between \<open>JSON.parse\<close> and \<open>setLastResponse\<close>.
\<close>

definition measure_latency :: "real \<Rightarrow> hook \<Rightarrow> hook" where
  "measure_latency now s =
     (case lastSentTimeRef s of
        None \<Rightarrow> s
      | Some t \<Rightarrow> (emit (ConsoleLog ''Round-trip latency:'') (s\<lparr>lastLatency := now - t\<rparr>))
                    \<lparr>lastSentTimeRef := None\<rparr>)"

definition log_parsed_response :: "json \<Rightarrow> hook \<Rightarrow> hook" where
  "log_parsed_response data s =
     (let s3 = emit (ConsoleLog ''Parsed response data:'') s
      in case get_property data ''predictions'' of
           None \<Rightarrow> emit (ConsoleWarn ''Response missing predictions property'') s3
         | Some predictions \<Rightarrow>
             if truthy data \<and> truthy predictions then
               let s5 = emit (ConsoleLog ''Keys in predictions:'')
                          (emit (ConsoleLog ''Response contains predictions:'') s3)
               in (case Object_entries predictions of
                     [] \<Rightarrow> s5
                   | (firstPredKey, _) # _ \<Rightarrow>
                       if firstPredKey \<noteq> [] then emit (ConsoleLog ''First prediction'') s5 else s5)
             else emit (ConsoleWarn ''Response missing predictions property'') s3)"

definition onmessage :: "(string \<Rightarrow> json option) \<Rightarrow> bool \<Rightarrow> real \<Rightarrow> string \<Rightarrow> hook \<Rightarrow> hook" where
  "onmessage JSON_parse hc now event_data s =
     (let s1 = clear_processing (emit (ConsoleLog ''Received message:'') s);
          s2 = measure_latency now s1
      in case JSON_parse event_data of
           None \<Rightarrow> emit (ConsoleError ''Error parsing WebSocket message:'') s2
         | Some data \<Rightarrow>
             processNextFrame hc now ((log_parsed_response data s2)\<lparr>lastResponse := data\<rparr>))"

text \<open>The callback of \<open>setTimeout\<close> in \<open>onclose\<close>, the manual \<open>reconnect\<close> and the effect cleanup.\<close>

definition reconnect_timer :: "bool \<Rightarrow> string option \<Rightarrow> hook \<Rightarrow> hook" where
  "reconnect_timer ctor_throws msg s =
     (if wsRef s = None \<or> wsRef s = Some CLOSED then connect ctor_throws msg s else s)"

definition reconnect :: "bool \<Rightarrow> string option \<Rightarrow> hook \<Rightarrow> hook" where
  "reconnect ctor_throws msg s =
     (let s1 = emit (ConsoleLog ''Manual reconnection requested'') s;
          s2 = (if wsRef s1 \<noteq> None then (emit WsClose s1)\<lparr>wsRef := None\<rparr> else s1)
      in connect ctor_throws msg s2)"

definition cleanup :: "hook \<Rightarrow> hook" where
  "cleanup s =
     (let s1 = emit (ConsoleLog ''Cleaning up WebSocket connection'') s
      in if wsRef s1 \<noteq> None then (emit WsClose s1)\<lparr>wsRef := None\<rparr> else s1)"

text \<open>
  Everything that can happen to the hook. The browser changes the \<open>readyState\<close> of the
  socket and dispatches its events; the handlers of a socket that \<open>connect\<close> has replaced
  still run. The model therefore lets a change of \<open>readyState\<close> (\<open>SocketState\<close>) and the
  handlers occur in any order, which includes every order a browser produces.
\<close>

datatype event =
    Connect bool "string option"
  | SocketState readyState
  | Onopen real
  | Onclose
  | Onerror "string option"
  | Onmessage real string
  | QueueFrame real Blob
  | ReaderOnload nat bool
  | ReaderOnerror nat
  | ReconnectTimer bool "string option"
  | Reconnect bool "string option"
  | Cleanup

fun step :: "(string \<Rightarrow> json option) \<Rightarrow> bool \<Rightarrow> hook \<Rightarrow> event \<Rightarrow> hook" where
  "step JSON_parse hc s (Connect t m) = connect t m s"
| "step JSON_parse hc s (SocketState r) = (if wsRef s = None then s else s\<lparr>wsRef := Some r\<rparr>)"
| "step JSON_parse hc s (Onopen now) = onopen hc now s"
| "step JSON_parse hc s Onclose = onclose s"
| "step JSON_parse hc s (Onerror m) = onerror m s"
| "step JSON_parse hc s (Onmessage now d) = onmessage JSON_parse hc now d s"
| "step JSON_parse hc s (QueueFrame now b) = queueFrame now b s"
| "step JSON_parse hc s (ReaderOnload i t) = reader_onload i t s"
| "step JSON_parse hc s (ReaderOnerror i) = reader_onerror i s"
| "step JSON_parse hc s (ReconnectTimer t m) = reconnect_timer t m s"
| "step JSON_parse hc s (Reconnect t m) = reconnect t m s"
| "step JSON_parse hc s Cleanup = cleanup s"

definition run :: "(string \<Rightarrow> json option) \<Rightarrow> bool \<Rightarrow> event list \<Rightarrow> hook \<Rightarrow> hook" where
  "run JSON_parse hc evs s = foldl (step JSON_parse hc) s evs"

section \<open>useWebSocket (the second hook, in the same file as processWebSocketResponse)\<close>

text \<open>
  The second hook has the same state, and its \<open>connect\<close>, \<open>onclose\<close>, \<open>onerror\<close>, reconnect
  timer, \<open>reconnect\<close> and cleanup are the same text as in the first one. It differs in
  \<open>onopen\<close> (a test message is sent first), in \<open>onmessage\<close> (three shapes of \<open>event.data\<close>,
  and the next frame is processed from a zero-delay timer), in \<open>processNextFrame\<close> and its
  reader handlers (their messages and \<open>setError\<close>), and in \<open>queueFrame\<close> (the frame is queued as
  it is). The names of its functions carry the suffix \<open>_ws\<close>.
\<close>

definition processNextFrame_ws :: "bool \<Rightarrow> real \<Rightarrow> hook \<Rightarrow> hook" where
  "processNextFrame_ws ic now s =
     (if \<not> ic \<or> processingRef s \<or> frameQueueRef s = [] \<or> wsRef s = None \<or> wsRef s \<noteq> Some OPEN
      then
        let s1 = (if \<not> ic then emit (ConsoleLog ''Not processing frame: Not connected'') s else s);
            s2 = (if processingRef s
                  then emit (ConsoleLog ''Not processing frame: Already processing'') s1 else s1);
            s3 = (if frameQueueRef s = []
                  then emit (ConsoleLog ''Not processing frame: Queue empty'') s2 else s2)
        in (if wsRef s = None \<or> wsRef s \<noteq> Some OPEN
            then emit (ConsoleLog ''Not processing frame: WebSocket not ready'') s3 else s3)
      else
        (case frameQueueRef s of
           [] \<Rightarrow> clear_processing (s\<lparr>queueSize := 0\<rparr>)
         | nextFrame # rest \<Rightarrow>
             emit (ReadAsArrayBuffer nextFrame)
               (emit (ConsoleLog ''Reading blob as ArrayBuffer...'')
                  (s\<lparr> processingRef := True, frameQueueRef := rest, queueSize := length rest,
                      lastSentTimeRef := Some now, readers := readers s @ [nextFrame] \<rparr>))))"

definition reader_onload_ws :: "nat \<Rightarrow> bool \<Rightarrow> string option \<Rightarrow> hook \<Rightarrow> hook" where
  "reader_onload_ws i send_throws msg s =
     (if i < length (readers s) then
        let arrayBuffer = blob_bytes (readers s ! i);
            s0 = s\<lparr>readers := take i (readers s) @ drop (Suc i) (readers s)\<rparr>
        in if wsRef s = Some OPEN
           then
             let s1 = emit (ConsoleLog ''Sending frame:'') s0
             in if send_throws
                then (clear_processing
                        ((emit (ConsoleError ''Error sending frame:'') s1)
                           \<lparr>error := Some (error_text ''Error sending frame: '' msg)\<rparr>))
                      \<lparr>lastSentTimeRef := None\<rparr>
                else emit (ConsoleLog ''Frame sent successfully'') (emit (WsSend arrayBuffer) s1)
           else (clear_processing
                   (emit (ConsoleLog ''WebSocket not ready when trying to send frame'') s0))
                 \<lparr>lastSentTimeRef := None\<rparr>
      else s)"

definition reader_onerror_ws :: "nat \<Rightarrow> string option \<Rightarrow> hook \<Rightarrow> hook" where
  "reader_onerror_ws i msg s =
     (if i < length (readers s) then
        (clear_processing
           ((emit (ConsoleError ''Error reading blob:'')
               (s\<lparr>readers := take i (readers s) @ drop (Suc i) (readers s)\<rparr>))
              \<lparr>error := Some (error_text ''Error reading blob: '' msg)\<rparr>))
         \<lparr>lastSentTimeRef := None\<rparr>
      else s)"

definition queueFrame_ws :: "real \<Rightarrow> Blob \<Rightarrow> hook \<Rightarrow> hook" where
  "queueFrame_ws now frameBlob s =
     (let s1 = drop_oldest (emit (ConsoleLog ''Queueing frame:'') s);
          s3 = s1\<lparr>frameQueueRef := frameQueueRef s1 @ [frameBlob]\<rparr>;
          s4 = emit (ConsoleLog ''Frame queued, queue size:'')
                 (s3\<lparr>queueSize := length (frameQueueRef s3)\<rparr>)
      in if \<not> processingRef s4 \<and> isConnected s4 then processNextFrame_ws (isConnected s4) now s4
         else
           let s5 = (if \<not> isConnected s4
                     then emit (ConsoleLog ''Not processing: Not connected'') s4 else s4)
           in (if processingRef s4
               then emit (ConsoleLog ''Not processing: Already processing'') s5 else s5))"

text \<open>
  \<open>onopen\<close>: \<open>wsRef.current?.send\<close> does nothing without a socket, throws on a socket that
  is still connecting, reaches the wire on an open one and is dropped on a closing or
  closed one.
\<close>

definition onopen_ws :: "bool \<Rightarrow> real \<Rightarrow> hook \<Rightarrow> hook" where
  "onopen_ws hc now s =
     (let s1 = (emit (ConsoleLog ''WebSocket connected successfully'') s)
                 \<lparr>isConnected := True, error := None, connectionAttempts := 0\<rparr>;
          s2 = emit (ConsoleLog ''Sending test data to verify connection...'') s1;
          s3 = (case wsRef s2 of
                  None \<Rightarrow> s2
                | Some CONNECTING \<Rightarrow> emit (ConsoleError ''Error sending test data:'') s2
                | Some OPEN \<Rightarrow> emit (WsSend [0, 1, 2, 3, 4]) s2
                | Some _ \<Rightarrow> s2)
      in processNextFrame_ws hc now s3)"

text \<open>
  \<open>event.data\<close> is a string, a \<open>Blob\<close> (given by the text \<open>readAsText\<close> will deliver) or
  another buffer (given by the text \<open>TextDecoder.decode\<close> returns).
\<close>

datatype message_data = TextData string | BlobData string | BufferData string

definition onmessage_ws :: "(string \<Rightarrow> json option) \<Rightarrow> real \<Rightarrow> message_data \<Rightarrow> hook \<Rightarrow> hook" where
  "onmessage_ws JSON_parse now event_data s =
     (let s1 = clear_processing (emit (ConsoleLog ''Received message:'') s);
          s2 = measure_latency now s1;
          finish = (\<lambda>s' parsed.
                      case parsed of
                        None \<Rightarrow> emit (ConsoleError ''Error parsing WebSocket message:'') s'
                      | Some data \<Rightarrow>
                          emit (SetTimeout 0)
                            ((emit (ConsoleLog ''Parsed response:'') s')\<lparr>lastResponse := data\<rparr>))
      in case event_data of
           TextData text \<Rightarrow> finish s2 (JSON_parse text)
         | BlobData text \<Rightarrow> emit (ConsoleLog ''Received blob data, converting to text'') s2
         | BufferData text \<Rightarrow>
             finish (emit (ConsoleLog ''Received non-string data:'') s2) (JSON_parse text))"

text \<open>\<open>reader.onload\<close> of the reader that \<open>onmessage\<close> starts for a \<open>Blob\<close>.\<close>

definition blob_reader_onload_ws :: "(string \<Rightarrow> json option) \<Rightarrow> string \<Rightarrow> hook \<Rightarrow> hook" where
  "blob_reader_onload_ws JSON_parse text s =
     (case JSON_parse text of
        None \<Rightarrow> emit (ConsoleError ''Error parsing blob data:'') s
      | Some jsonData \<Rightarrow> s\<lparr>lastResponse := jsonData\<rparr>)"

text \<open>
  The events of the second hook. \<open>ZeroTimer\<close> is the callback of
  \<open>setTimeout(() => processNextFrame(), 0)\<close>; like the socket events it may occur at any
  point of a run.
\<close>

datatype event_ws =
    Connect_ws bool "string option"
  | SocketState_ws readyState
  | Onopen_ws real
  | Onclose_ws
  | Onerror_ws "string option"
  | Onmessage_ws real message_data
  | BlobReaderOnload_ws string
  | ZeroTimer_ws real
  | QueueFrame_ws real Blob
  | ReaderOnload_ws nat bool "string option"
  | ReaderOnerror_ws nat "string option"
  | ReconnectTimer_ws bool "string option"
  | Reconnect_ws bool "string option"
  | Cleanup_ws

fun step_ws :: "(string \<Rightarrow> json option) \<Rightarrow> bool \<Rightarrow> hook \<Rightarrow> event_ws \<Rightarrow> hook" where
  "step_ws JSON_parse hc s (Connect_ws t m) = connect t m s"
| "step_ws JSON_parse hc s (SocketState_ws r) = (if wsRef s = None then s else s\<lparr>wsRef := Some r\<rparr>)"
| "step_ws JSON_parse hc s (Onopen_ws now) = onopen_ws hc now s"
| "step_ws JSON_parse hc s Onclose_ws = onclose s"
| "step_ws JSON_parse hc s (Onerror_ws m) = onerror m s"
| "step_ws JSON_parse hc s (Onmessage_ws now d) = onmessage_ws JSON_parse now d s"
| "step_ws JSON_parse hc s (BlobReaderOnload_ws text) = blob_reader_onload_ws JSON_parse text s"
| "step_ws JSON_parse hc s (ZeroTimer_ws now) = processNextFrame_ws hc now s"
| "step_ws JSON_parse hc s (QueueFrame_ws now b) = queueFrame_ws now b s"
| "step_ws JSON_parse hc s (ReaderOnload_ws i t m) = reader_onload_ws i t m s"
| "step_ws JSON_parse hc s (ReaderOnerror_ws i m) = reader_onerror_ws i m s"
| "step_ws JSON_parse hc s (ReconnectTimer_ws t m) = reconnect_timer t m s"
| "step_ws JSON_parse hc s (Reconnect_ws t m) = reconnect t m s"
| "step_ws JSON_parse hc s Cleanup_ws = cleanup s"

definition run_ws :: "(string \<Rightarrow> json option) \<Rightarrow> bool \<Rightarrow> event_ws list \<Rightarrow> hook \<Rightarrow> hook" where
  "run_ws JSON_parse hc evs s = foldl (step_ws JSON_parse hc) s evs"

section \<open>The exit log (App.tsx)\<close>

text \<open>
  \<open>sortTime\<close> is what \<open>Date.prototype.getTime\<close> returns: an integer number of milliseconds,
  or \<open>NaN\<close> (\<open>None\<close>) for an invalid date. The platform's \<open>new Date(text).getTime()\<close> and
  \<open>toLocaleTimeString\<close> are the parameters \<open>Date_getTime\<close> and \<open>toLocaleTimeString\<close>. The
  pushed response and the response of \<open>/get_all_exits\<close> are taken at their declared types:
  names are strings, which the default \<open>sort\<close> orders by their code units.
\<close>

record ExitLogEntry =
  names :: "string list"
  timestamp :: string
  sortTime :: "int option"

text \<open>The text of \<open>sortTime\<close> in a string concatenation.\<close>

definition number_text :: "int option \<Rightarrow> string" where
  "number_text t = (case t of None \<Rightarrow> ''NaN'' | Some i \<Rightarrow> string_of_int i)"

text \<open>
  \<open>entry.names.sort().join(',') + '-' + entry.sortTime\<close>. \<open>sort\<close> works in place:
  \<open>sort_names\<close> is the entry afterwards.
\<close>

definition entry_id :: "ExitLogEntry \<Rightarrow> string" where
  "entry_id entry = join_js '','' (sort (names entry)) @ ''-'' @ number_text (sortTime entry)"

definition sort_names :: "ExitLogEntry \<Rightarrow> ExitLogEntry" where
  "sort_names entry = entry\<lparr>names := sort (names entry)\<rparr>"

text \<open>
  The part of the \<open>lastResponse\<close> effect that maintains the log. \<open>exit_ids\<close> is
  \<open>lastResponse.exit_ids\<close> (\<open>None\<close> when it is missing or \<open>null\<close>), \<open>now\<close> is
  \<open>new Date().getTime()\<close>. The result is the new log together with the array \<open>exit_ids\<close> as the
  effect leaves it; the \<open>names\<close> of a new entry is that same array.
\<close>

definition lastResponse_effect ::
  "(int option \<Rightarrow> string) \<Rightarrow> int \<Rightarrow> string list option \<Rightarrow> ExitLogEntry list
     \<Rightarrow> ExitLogEntry list \<times> string list option" where
  "lastResponse_effect toLocaleTimeString now exit_ids prevLog =
     (case exit_ids of
        None \<Rightarrow> (prevLog, None)
      | Some ids \<Rightarrow>
          if \<not> 0 < length ids then (prevLog, Some ids)
          else
            let existingEntries = map entry_id prevLog;
                prevLog' = map sort_names prevLog;
                sorted_ids = sort ids;
                newEntryId = join_js '','' sorted_ids @ ''-'' @ number_text (Some now)
            in if newEntryId \<notin> set existingEntries
               then (take 20 (\<lparr> names = sorted_ids, timestamp = toLocaleTimeString (Some now),
                                 sortTime = Some now \<rparr> # prevLog'),
                     Some sorted_ids)
               else (prevLog', Some sorted_ids))"

text \<open>
  \<open>handleVideoStop\<close>, which runs when the video is stopped: the state update it makes with
  the response of \<open>/get_exits\<close>. \<open>exits\<close> is \<open>data.exits\<close> when it is an array (\<open>None\<close>
  otherwise), \<open>now\<close> is \<open>new Date().getTime()\<close>. The array itself becomes the \<open>names\<close> of the
  one entry that is added. An element of it is a name, or a pair \<open>[name, timestamp]\<close> as
  \<open>/get_all_exits\<close> lists them. \<open>sort\<close>, \<open>join\<close> and the display of the log use an element of
  \<open>names\<close> only through the text it converts to, which for a pair is its two strings joined
  by a comma; the model keeps that text as the element.
\<close>

datatype exit_item = ExitName string | ExitPair string string

fun item_text :: "exit_item \<Rightarrow> string" where
  "item_text (ExitName nm) = nm"
| "item_text (ExitPair nm ts) = join_js '','' [nm, ts]"

definition handleVideoStop ::
  "(int option \<Rightarrow> string) \<Rightarrow> int \<Rightarrow> exit_item list option \<Rightarrow> ExitLogEntry list
     \<Rightarrow> ExitLogEntry list" where
  "handleVideoStop toLocaleTimeString now exits prevLog =
     (case exits of
        None \<Rightarrow> prevLog
      | Some items \<Rightarrow>
          if \<not> 0 < length items then prevLog
          else
            let existingEntries = map entry_id prevLog;
                prevLog' = map sort_names prevLog;
                sorted_exits = sort (map item_text items);
                newEntryId = join_js '','' sorted_exits @ ''-'' @ number_text (Some now)
            in if newEntryId \<notin> set existingEntries
               then take 20 (\<lparr> names = sorted_exits, timestamp = toLocaleTimeString (Some now),
                                sortTime = Some now \<rparr> # prevLog')
               else prevLog')"

text \<open>The callback of \<open>data.exits.forEach\<close> in \<open>fetchAllExits\<close>, on the pair of the set
  \<open>existingEntries\<close> and the array \<open>newEntries\<close>.\<close>

definition exits_callback ::
  "(string \<Rightarrow> int option) \<Rightarrow> (int option \<Rightarrow> string) \<Rightarrow> string list \<times> ExitLogEntry list
     \<Rightarrow> string \<times> string \<Rightarrow> string list \<times> ExitLogEntry list" where
  "exits_callback Date_getTime toLocaleTimeString acc exit =
     (case acc of (existingEntries, newEntries) \<Rightarrow>
      case exit of (nm, ts) \<Rightarrow>
        let sortTime' = Date_getTime ts;
            displayTime = toLocaleTimeString sortTime';
            exitId = join_js '','' (sort [nm]) @ ''-'' @ number_text sortTime'
        in if exitId \<notin> set existingEntries
           then (existingEntries @ [exitId],
                 newEntries @ [\<lparr> names = [nm], timestamp = displayTime, sortTime = sortTime' \<rparr>])
           else (existingEntries, newEntries))"

text \<open>The state update of \<open>fetchAllExits\<close> for a response whose \<open>exits\<close> is an array.\<close>

definition fetchAllExits ::
  "(string \<Rightarrow> int option) \<Rightarrow> (int option \<Rightarrow> string) \<Rightarrow> (string \<times> string) list
     \<Rightarrow> ExitLogEntry list \<Rightarrow> ExitLogEntry list" where
  "fetchAllExits Date_getTime toLocaleTimeString exits prevLog =
     (let existingEntries = map entry_id prevLog;
          prevLog' = map sort_names prevLog;
          newEntries = snd (foldl (exits_callback Date_getTime toLocaleTimeString)
                              (existingEntries, []) exits)
      in take 50 (newEntries @ prevLog'))"

text \<open>
  For the examples: an instance of \<open>new Date(text).getTime()\<close> that is right on the instants
  of the first second of 1970 written \<open>1970-01-01T00:00:00.mmmZ\<close> and on texts that are no date
  (it is applied to no other text), and \<open>toLocaleTimeString\<close> for a 24-hour locale in the
  time zone UTC.
\<close>

definition Date_getTime_sample :: "string \<Rightarrow> int option" where
  "Date_getTime_sample ts =
     (if length ts = 24 \<and> take 20 ts = ''1970-01-01T00:00:00.'' \<and> drop 23 ts = ''Z''
      then map_option int (decimal_value 0 (take 3 (drop 20 ts)))
      else None)"

definition two_digits :: "nat \<Rightarrow> string" where
  "two_digits n = [digit_char (n div 10), digit_char (n mod 10)]"

definition toLocaleTimeString_UTC :: "int option \<Rightarrow> string" where
  "toLocaleTimeString_UTC t =
     (case t of
        None \<Rightarrow> ''Invalid Date''
      | Some ms \<Rightarrow>
          let secs = nat ((ms div 1000) mod 86400)
          in two_digits (secs div 3600) @ '':'' @ two_digits ((secs div 60) mod 60) @ '':'' @
             two_digits (secs mod 60))"

text \<open>
  The exits of the examples: nineteen departures of the first second of 1970, as
  \<open>/get_all_exits\<close> would list them.
\<close>

definition early_exits :: "(string \<times> string) list" where
  "early_exits =
     map (\<lambda>n. (''p'' @ string_of_nat n, ''1970-01-01T00:00:00.0'' @ two_digits n @ ''Z''))
       [1 ..< 20]"

text \<open>
  The identifier that \<open>fetchAllExits\<close> computes for one exit \<open>[name, timestamp]\<close>, and three
  logs: after a push at time 1000, after the pull of \<open>early_exits\<close> that follows it, and
  after a second push at time 2000.
\<close>

definition exit_id :: "(string \<Rightarrow> int option) \<Rightarrow> string \<times> string \<Rightarrow> string" where
  "exit_id Date_getTime exit =
     join_js '','' (sort [fst exit]) @ ''-'' @ number_text (Date_getTime (snd exit))"

definition log_after_push :: "ExitLogEntry list" where
  "log_after_push = fst (lastResponse_effect toLocaleTimeString_UTC 1000 (Some [''bob'']) [])"

definition log_after_pull :: "ExitLogEntry list" where
  "log_after_pull =
     fetchAllExits Date_getTime_sample toLocaleTimeString_UTC early_exits log_after_push"

definition log_after_second_push :: "ExitLogEntry list" where
  "log_after_second_push =
     fst (lastResponse_effect toLocaleTimeString_UTC 2000 (Some [''eve'', ''dan'']) log_after_pull)"

text \<open>
  Two more logs: after the video is stopped at time 3000, with one exit in the response of
  \<open>/get_exits\<close>, on the log of 20 entries that the pull has left; and after a second push
  at time 1000, with the same name twice, on the log of the first push.
\<close>

definition log_after_stop :: "ExitLogEntry list" where
  "log_after_stop =
     handleVideoStop toLocaleTimeString_UTC 3000
       (Some [ExitPair ''zed'' ''1970-01-01T00:00:02.500Z'']) log_after_pull"

definition log_after_repeated_name :: "ExitLogEntry list" where
  "log_after_repeated_name =
     fst (lastResponse_effect toLocaleTimeString_UTC 1000 (Some [''bob'', ''bob'']) log_after_push)"

section \<open>The overlay (components/CanvasOverlay.tsx)\<close>

text \<open>
  Arithmetic on JavaScript numbers: \<open>a * b\<close> and \<open>a - b\<close>. An operation on two finite doubles
  gives the exact result rounded to a double. The rounding is the parameter \<open>fl\<close>: it takes
  the exact result, a real number, to the double the platform returns, which is finite or,
  when the result is too large, an infinity.
\<close>

fun js_mul :: "(real \<Rightarrow> jsnum) \<Rightarrow> jsnum \<Rightarrow> jsnum \<Rightarrow> jsnum" where
  "js_mul fl NaN _ = NaN"
| "js_mul fl _ NaN = NaN"
| "js_mul fl (Fin a) (Fin b) = fl (a * b)"
| "js_mul fl (Fin a) PosInf = (if a = 0 then NaN else if 0 < a then PosInf else NegInf)"
| "js_mul fl (Fin a) NegInf = (if a = 0 then NaN else if 0 < a then NegInf else PosInf)"
| "js_mul fl PosInf (Fin b) = (if b = 0 then NaN else if 0 < b then PosInf else NegInf)"
| "js_mul fl NegInf (Fin b) = (if b = 0 then NaN else if 0 < b then NegInf else PosInf)"
| "js_mul fl PosInf PosInf = PosInf"
| "js_mul fl PosInf NegInf = NegInf"
| "js_mul fl NegInf PosInf = NegInf"
| "js_mul fl NegInf NegInf = PosInf"

fun js_sub :: "(real \<Rightarrow> jsnum) \<Rightarrow> jsnum \<Rightarrow> jsnum \<Rightarrow> jsnum" where
  "js_sub fl NaN _ = NaN"
| "js_sub fl _ NaN = NaN"
| "js_sub fl (Fin a) (Fin b) = fl (a - b)"
| "js_sub fl (Fin a) PosInf = NegInf"
| "js_sub fl (Fin a) NegInf = PosInf"
| "js_sub fl PosInf PosInf = NaN"
| "js_sub fl PosInf _ = PosInf"
| "js_sub fl NegInf NegInf = NaN"
| "js_sub fl NegInf _ = NegInf"

text \<open>
  The canvas and the two state cells of the component. \<open>canvas.width\<close> and \<open>canvas.height\<close>
  are unsigned integers: an assignment keeps the integer part of the number. A
  \<open>DOMRect\<close> that \<open>getBoundingClientRect\<close> returns has finite coordinates and a width and a
  height that are not negative; \<open>videoWidth\<close> and \<open>videoHeight\<close> are unsigned integers.
  \<open>canvas_left\<close> and \<open>canvas_top\<close> are the numbers printed into \<open>style.left\<close> and \<open>style.top\<close>.
\<close>

record DOMRect =
  rect_left :: real
  rect_top :: real
  rect_width :: real
  rect_height :: real

record ScaleFactor =
  sf_x :: jsnum
  sf_y :: jsnum

record overlay =
  canvas_width :: nat
  canvas_height :: nat
  canvas_left :: jsnum
  canvas_top :: jsnum
  scaleFactor :: ScaleFactor
  videoRect :: "DOMRect option"

definition initial_overlay :: overlay where
  "initial_overlay =
     \<lparr> canvas_width = 640, canvas_height = 480, canvas_left = Fin 0, canvas_top = Fin 0,
       scaleFactor = \<lparr>sf_x = Fin 1, sf_y = Fin 1\<rparr>, videoRect = None \<rparr>"

text \<open>
  \<open>updateCanvasDimensions\<close>. \<open>video\<close> is \<open>videoElement\<close> (\<open>None\<close> when it is \<open>null\<close>) as its
  \<open>videoWidth\<close>, \<open>videoHeight\<close> and bounding rectangle, \<open>container\<close> the bounding rectangle of
  \<open>containerRef.current\<close>. The two quotients are of a finite number by a positive one.
\<close>

definition updateCanvasDimensions ::
  "(real \<Rightarrow> jsnum) \<Rightarrow> (nat \<times> nat \<times> DOMRect) option \<Rightarrow> DOMRect option \<Rightarrow> overlay \<Rightarrow> overlay" where
  "updateCanvasDimensions fl video container s =
     (case video of
        None \<Rightarrow> s
      | Some (videoWidth, videoHeight, rect) \<Rightarrow>
          if 0 < videoWidth \<and> 0 < videoHeight then
            (case container of
               None \<Rightarrow> s\<lparr>videoRect := Some rect\<rparr>
             | Some containerRect \<Rightarrow>
                 s\<lparr> videoRect := Some rect,
                    canvas_left := fl (rect_left rect - rect_left containerRect),
                    canvas_top := fl (rect_top rect - rect_top containerRect),
                    canvas_width := nat \<lfloor>rect_width rect\<rfloor>,
                    canvas_height := nat \<lfloor>rect_height rect\<rfloor>,
                    scaleFactor := \<lparr> sf_x = fl (rect_width rect / real videoWidth),
                                      sf_y = fl (rect_height rect / real videoHeight) \<rparr> \<rparr>)
          else s)"

datatype canvas_call =
    ClearRect jsnum jsnum jsnum jsnum
  | StrokeRect jsnum jsnum jsnum jsnum

text \<open>\<open>scaledCoords\<close>, as the tuple \<open>(x1, y1, x2, y2)\<close>.\<close>

definition scaledCoords ::
  "(real \<Rightarrow> jsnum) \<Rightarrow> ScaleFactor \<Rightarrow> ProcessedPrediction \<Rightarrow> jsnum \<times> jsnum \<times> jsnum \<times> jsnum" where
  "scaledCoords fl sf pred =
     (js_mul fl (x1 pred) (sf_x sf), js_mul fl (y1 pred) (sf_y sf),
      js_mul fl (x2 pred) (sf_x sf), js_mul fl (y2 pred) (sf_y sf))"

text \<open>The rectangle that the callback of \<open>predictions.forEach\<close> strokes (the label it
  paints afterwards is not part of the model).\<close>

definition draw_box :: "(real \<Rightarrow> jsnum) \<Rightarrow> overlay \<Rightarrow> ProcessedPrediction \<Rightarrow> canvas_call" where
  "draw_box fl s pred =
     (case scaledCoords fl (scaleFactor s) pred of (sx1, sy1, sx2, sy2) \<Rightarrow>
        let bx1 = Math_max (Fin 0) (Math_min (Fin (real (canvas_width s))) sx1);
            by1 = Math_max (Fin 0) (Math_min (Fin (real (canvas_height s))) sy1);
            bx2 = Math_max (Fin 0) (Math_min (Fin (real (canvas_width s))) sx2);
            by2 = Math_max (Fin 0) (Math_min (Fin (real (canvas_height s))) sy2);
            boxWidth = Math_max (Fin 5) (js_sub fl bx2 bx1);
            boxHeight = Math_max (Fin 5) (js_sub fl by2 by1)
        in StrokeRect bx1 by1 boxWidth boxHeight)"

text \<open>The drawing effect: the canvas calls it makes for the given predictions.\<close>

definition draw :: "(real \<Rightarrow> jsnum) \<Rightarrow> overlay \<Rightarrow> ProcessedPrediction list \<Rightarrow> canvas_call list" where
  "draw fl s predictions =
     (if videoRect s = None then []
      else ClearRect (Fin 0) (Fin 0) (Fin (real (canvas_width s))) (Fin (real (canvas_height s))) #
        (if length predictions = 0 then []
         else if canvas_width s = 0 \<or> canvas_height s = 0 then []
         else if js_le (sf_x (scaleFactor s)) (Fin 0) \<or> js_le (sf_y (scaleFactor s)) (Fin 0) then []
         else map (draw_box fl s) predictions))"

text \<open>
  The overlay after a sequence of calls of \<open>updateCanvasDimensions\<close>, each with the video
  and the container as they are at that moment.
\<close>

definition overlay_after ::
  "(real \<Rightarrow> jsnum) \<Rightarrow> ((nat \<times> nat \<times> DOMRect) option \<times> DOMRect option) list \<Rightarrow> overlay" where
  "overlay_after fl updates =
     foldl (\<lambda>s (video, container). updateCanvasDimensions fl video container s) initial_overlay updates"

text \<open>
  For the examples: a video of 1280 by 720 pixels displayed at 640 by 360 at the top left
  corner of its container, a prediction with the box (100, 100, 200, 200), one with a box
  that reaches beyond the video, (100, 100, 3000, 2000), and an instance
  of the rounding: to the nearest multiple of \<open>1/1024\<close>. It is used on operations whose
  exact results are such multiples, which are doubles as well, so that it returns what the
  platform returns.
\<close>

definition displayed_640_360 :: DOMRect where
  "displayed_640_360 = \<lparr>rect_left = 0, rect_top = 0, rect_width = 640, rect_height = 360\<rparr>"

definition box_100_200 :: ProcessedPrediction where
  "box_100_200 =
     \<lparr> trackId = ''7'', name = ''Alice'', confidence = Fin (92 / 100),
       x1 = Fin 100, y1 = Fin 100, x2 = Fin 200, y2 = Fin 200 \<rparr>"

definition box_100_3000 :: ProcessedPrediction where
  "box_100_3000 =
     \<lparr> trackId = ''8'', name = ''Bob'', confidence = Fin (1 / 2),
       x1 = Fin 100, y1 = Fin 100, x2 = Fin 3000, y2 = Fin 2000 \<rparr>"

definition round_1024 :: "real \<Rightarrow> jsnum" where
  "round_1024 r = Fin (real_of_int \<lfloor>r * 1024 + 1 / 2\<rfloor> / 1024)"

section \<open>Notions used in the statements\<close>

text \<open>
  For one prediction array \<open>p\<close> with key \<open>k\<close>: whether the conversion of a coordinate throws,
  whether a coordinate converts to \<open>NaN\<close>, and the record the callback pushes. For one entry:
  whether the callback throws on it, and the records it adds to an empty array.
\<close>

definition coordinate_throws :: "(json \<Rightarrow> bool) \<Rightarrow> json list \<Rightarrow> bool" where
  "coordinate_throws throws p =
     (conversion_throws throws (p ! 2) \<or> conversion_throws throws (p ! 3) \<or>
      conversion_throws throws (p ! 4) \<or> conversion_throws throws (p ! 5))"

definition coordinate_NaN :: "(string \<Rightarrow> jsnum) \<Rightarrow> (jsnum \<Rightarrow> string) \<Rightarrow> json list \<Rightarrow> bool" where
  "coordinate_NaN strToNum numToStr p =
     (js_Number strToNum numToStr (p ! 2) = NaN \<or> js_Number strToNum numToStr (p ! 3) = NaN \<or>
      js_Number strToNum numToStr (p ! 4) = NaN \<or> js_Number strToNum numToStr (p ! 5) = NaN)"

definition prediction_record ::
  "(string \<Rightarrow> jsnum) \<Rightarrow> (jsnum \<Rightarrow> string) \<Rightarrow> string \<Rightarrow> json list \<Rightarrow> ProcessedPrediction" where
  "prediction_record strToNum numToStr k p =
     \<lparr> trackId = k,
       name = js_String numToStr (p ! 0),
       confidence = js_Number strToNum numToStr (p ! 1),
       x1 = Math_min (js_Number strToNum numToStr (p ! 2)) (js_Number strToNum numToStr (p ! 4)),
       y1 = Math_min (js_Number strToNum numToStr (p ! 3)) (js_Number strToNum numToStr (p ! 5)),
       x2 = Math_max (js_Number strToNum numToStr (p ! 2)) (js_Number strToNum numToStr (p ! 4)),
       y2 = Math_max (js_Number strToNum numToStr (p ! 3)) (js_Number strToNum numToStr (p ! 5)) \<rparr>"

definition entry_throws ::
  "(json \<Rightarrow> bool) \<Rightarrow> (string \<Rightarrow> jsnum) \<Rightarrow> (jsnum \<Rightarrow> string) \<Rightarrow> string \<times> json \<Rightarrow> bool" where
  "entry_throws throws strToNum numToStr e =
     (case forEach_callback throws strToNum numToStr [] e of Inl _ \<Rightarrow> True | Inr _ \<Rightarrow> False)"

definition entry_records ::
  "(json \<Rightarrow> bool) \<Rightarrow> (string \<Rightarrow> jsnum) \<Rightarrow> (jsnum \<Rightarrow> string) \<Rightarrow> string \<times> json
     \<Rightarrow> ProcessedPrediction list" where
  "entry_records throws strToNum numToStr e =
     (case forEach_callback throws strToNum numToStr [] e of Inl _ \<Rightarrow> [] | Inr rs \<Rightarrow> rs)"

text \<open>
  Two measures of the calls a hook has made. Both hooks print a line of their own wherever
  they set \<open>processingRef.current = false\<close> (\<open>clearing_lines\<close>), and they hand a frame to a
  reader (\<open>ReadAsArrayBuffer\<close>) where they take it from the queue. \<open>frames_taken\<close> is the number
  of frames taken since the last of these lines. \<open>sends_awaiting\<close> is the number of sends
  since the last message arrived (\<open>Received message:\<close> is the first thing \<open>onmessage\<close>
  prints): the sends that no message has answered. The invariant of the hook, stated
  below, is that \<open>frames_taken\<close> is 1 while \<open>processingRef.current\<close> is set and 0 otherwise,
  and that the queue holds at most \<open>MAX_QUEUE_SIZE\<close> frames.
\<close>

definition clearing_lines :: "effect list" where
  "clearing_lines =
     [ConsoleLog ''Received message:'', ConsoleLog ''WebSocket disconnected'',
      ConsoleError ''WebSocket error:'', ConsoleError ''WebSocket not ready when trying to send frame'',
      ConsoleLog ''WebSocket not ready when trying to send frame'', ConsoleError ''Error sending frame:'',
      ConsoleError ''Error reading blob'', ConsoleError ''Error reading blob:'']"

definition taken_step :: "nat \<Rightarrow> effect \<Rightarrow> nat" where
  "taken_step n e =
     (if e \<in> set clearing_lines then 0
      else case e of ReadAsArrayBuffer _ \<Rightarrow> Suc n | _ \<Rightarrow> n)"

definition frames_taken :: "effect list \<Rightarrow> nat" where
  "frames_taken es = foldl taken_step 0 es"

definition awaiting_step :: "nat \<Rightarrow> effect \<Rightarrow> nat" where
  "awaiting_step n e =
     (if e = ConsoleLog ''Received message:'' then 0
      else case e of WsSend _ \<Rightarrow> Suc n | _ \<Rightarrow> n)"

definition sends_awaiting :: "effect list \<Rightarrow> nat" where
  "sends_awaiting es = foldl awaiting_step 0 es"

text \<open>The sends and the arrivals of messages among the calls, in their order.\<close>

definition wire :: "effect list \<Rightarrow> effect list" where
  "wire es =
     filter (\<lambda>e. e = ConsoleLog ''Received message:'' \<or> (case e of WsSend _ \<Rightarrow> True | _ \<Rightarrow> False)) es"

text \<open>
  For the examples: an instance of \<open>JSON.parse\<close> that is right on the text \<open>{}\<close> and on
  texts that are not JSON (it is applied to no other text), two frames, and the state of the
  first hook after it has connected, sent \<open>frame_A\<close> and queued \<open>frame_B\<close> behind it.
\<close>

definition JSON_parse_sample :: "string \<Rightarrow> json option" where
  "JSON_parse_sample text = (if text = ''{}'' then Some (JObj []) else None)"

definition frame_A :: Blob where
  "frame_A = \<lparr>blob_bytes = [255, 216, 1], blob_type = ''image/jpeg''\<rparr>"

definition frame_B :: Blob where
  "frame_B = \<lparr>blob_bytes = [255, 216, 2], blob_type = ''image/jpeg''\<rparr>"

definition awaiting_response :: hook where
  "awaiting_response =
     run JSON_parse_sample False
       [Connect False None, SocketState OPEN, Onopen 0, QueueFrame 1 frame_A,
        ReaderOnload 0 False, QueueFrame 2 frame_B]
       initial_hook"

text \<open>
  A sequence of \<open>queueFrame\<close> calls, each with its reading of the clock; the queue after one
  push when nothing is sent (\<open>push_frame\<close>); the condition under which \<open>processNextFrame\<close>
  takes a frame (\<open>initiates\<close>) and under which \<open>queueFrame\<close> does (\<open>idle_ready\<close>); and the
  invariant of the hook.
\<close>

definition queueFrames :: "(real \<times> Blob) list \<Rightarrow> hook \<Rightarrow> hook" where
  "queueFrames calls s = foldl (\<lambda>s' (now, frameBlob). queueFrame now frameBlob s') s calls"

definition queueFrames_ws :: "(real \<times> Blob) list \<Rightarrow> hook \<Rightarrow> hook" where
  "queueFrames_ws calls s = foldl (\<lambda>s' (now, frameBlob). queueFrame_ws now frameBlob s') s calls"

definition push_frame :: "Blob list \<Rightarrow> Blob \<Rightarrow> Blob list" where
  "push_frame q b = drop (length q - 4) q @ [b]"

definition initiates :: "bool \<Rightarrow> hook \<Rightarrow> bool" where
  "initiates ic s = (ic \<and> \<not> processingRef s \<and> frameQueueRef s \<noteq> [] \<and> wsRef s = Some OPEN)"

definition idle_ready :: "hook \<Rightarrow> bool" where
  "idle_ready s = (\<not> processingRef s \<and> isConnected s \<and> wsRef s = Some OPEN)"

definition flag_agrees :: "hook \<Rightarrow> bool" where
  "flag_agrees s = (frames_taken (effects s) = (if processingRef s then 1 else 0))"

definition inv :: "hook \<Rightarrow> bool" where
  "inv s = (flag_agrees s \<and> length (frameQueueRef s) \<le> MAX_QUEUE_SIZE)"

text \<open>
  For the overlay: a number clamped into \<open>[0, n]\<close> as the effect does it; what is used of
  the rounding (it never gives \<open>NaN\<close>, and a number that is not larger in magnitude than some
  double rounds to a finite double); and the condition that the widths and heights of the
  bounding rectangles of the video, which the browser delivers as doubles, are doubles.
\<close>

definition clamped :: "nat \<Rightarrow> jsnum \<Rightarrow> jsnum" where
  "clamped n v = Math_max (Fin 0) (Math_min (Fin (real n)) v)"

definition rounding :: "(real \<Rightarrow> jsnum) \<Rightarrow> bool" where
  "rounding fl =
     ((\<forall>r. fl r \<noteq> NaN) \<and> (\<forall>r d. fl d = Fin d \<and> \<bar>r\<bar> \<le> \<bar>d\<bar> \<longrightarrow> (\<exists>q. fl r = Fin q)))"

definition doubles ::
  "(real \<Rightarrow> jsnum) \<Rightarrow> ((nat \<times> nat \<times> DOMRect) option \<times> DOMRect option) list \<Rightarrow> bool" where
  "doubles fl updates =
     (\<forall>u \<in> set updates.
        case fst u of
          None \<Rightarrow> True
        | Some (videoWidth, videoHeight, rect) \<Rightarrow>
            fl (rect_width rect) = Fin (rect_width rect) \<and>
            fl (rect_height rect) = Fin (rect_height rect))"

section \<open>Properties of processWebSocketResponse\<close>

lemma only_Thrown: "(err :: js_error) = Thrown"
  by (cases err) simp

lemma nesting_nested: "nesting (nested n v) = n + nesting v"
  by (induction n) simp_all

lemma is_array_nested: "is_array (nested n v) = (0 < n \<or> is_array v)"
  by (cases n) simp_all

lemma deep_array_throws: "conversion_throws throws_sample deep_array"
  by (simp add: conversion_throws_def throws_sample_def deep_array_def nesting_nested is_array_nested)

lemma number_completes: "\<not> conversion_throws throws (JNum n)"
  by (simp add: conversion_throws_def)

lemma string_completes: "\<not> conversion_throws throws (JStr s)"
  by (simp add: conversion_throws_def)

lemma callback_array:
  "6 \<le> length p \<Longrightarrow>
   forEach_callback throws sn ns acc (k, JArr p) =
     (if coordinate_throws throws p then Inl Thrown
      else if coordinate_NaN sn ns p then Inr acc
      else if conversion_throws throws (p ! 0) \<or> conversion_throws throws (p ! 1) then Inl Thrown
      else Inr (acc @ [prediction_record sn ns k p]))"
  by (simp add: forEach_callback_def Number_call_def String_call_def coordinate_throws_def
        coordinate_NaN_def js_isNaN_def prediction_record_def)

lemma callback_rejects_shape:
  "\<not> is_array v \<or> (\<exists>p. v = JArr p \<and> length p < 6) \<Longrightarrow>
   forEach_callback throws sn ns acc (k, v) = Inr acc"
  by (cases v) (auto simp: forEach_callback_def)

lemma entry_throws_array:
  "6 \<le> length p \<Longrightarrow>
   entry_throws throws sn ns (k, JArr p) =
     (coordinate_throws throws p \<or>
      \<not> coordinate_NaN sn ns p \<and> (conversion_throws throws (p ! 0) \<or> conversion_throws throws (p ! 1)))"
  by (simp add: entry_throws_def callback_array)

lemma entry_records_array:
  "6 \<le> length p \<Longrightarrow>
   entry_records throws sn ns (k, JArr p) =
     (if entry_throws throws sn ns (k, JArr p) \<or> coordinate_NaN sn ns p then []
      else [prediction_record sn ns k p])"
  by (simp add: entry_records_def entry_throws_def callback_array)

lemma entry_shape:
  "\<not> is_array v \<or> (\<exists>p. v = JArr p \<and> length p < 6) \<Longrightarrow>
   \<not> entry_throws throws sn ns (k, v) \<and> entry_records throws sn ns (k, v) = []"
  by (simp add: entry_throws_def entry_records_def callback_rejects_shape)

lemma callback_entry:
  "forEach_callback throws sn ns acc e =
     (if entry_throws throws sn ns e then Inl Thrown
      else Inr (acc @ entry_records throws sn ns e))"
proof (cases e)
  case (Pair k v)
  show ?thesis
  proof (cases "\<exists>p. v = JArr p \<and> 6 \<le> length p")
    case True
    then obtain p where "v = JArr p" "6 \<le> length p" by blast
    with Pair show ?thesis
      by (simp add: entry_throws_def entry_records_def callback_array)
  next
    case False
    then have "\<not> is_array v \<or> (\<exists>p. v = JArr p \<and> length p < 6)"
      by (cases v) auto
    with Pair show ?thesis
      using callback_rejects_shape [of v throws sn ns acc k] entry_shape [of v throws sn ns k]
      by simp
  qed
qed

lemma forEach_entries:
  "forEach (forEach_callback throws sn ns) acc es =
     (if \<exists>e \<in> set es. entry_throws throws sn ns e then Inl Thrown
      else Inr (acc @ concat (map (entry_records throws sn ns) es)))"
proof (induction es arbitrary: acc)
  case Nil
  then show ?case by simp
next
  case (Cons e es)
  show ?case
    by (simp add: callback_entry [of throws sn ns acc e] Cons.IH)
qed

lemma processWebSocketResponse_entries:
  "processWebSocketResponse throws sn ns response =
     (if truthy response then
        (case get_property response ''predictions'' of
           None \<Rightarrow> []
         | Some p \<Rightarrow>
             if truthy p \<and> \<not> (\<exists>e \<in> set (Object_entries p). entry_throws throws sn ns e)
             then concat (map (entry_records throws sn ns) (Object_entries p)) else [])
      else [])"
  by (simp add: processWebSocketResponse_def forEach_entries split: option.splits)

lemma response_object:
  "truthy response \<Longrightarrow> get_property response ''predictions'' = Some (JObj es) \<Longrightarrow>
   processWebSocketResponse throws sn ns response =
     (if \<exists>e \<in> set es. entry_throws throws sn ns e then []
      else concat (map (entry_records throws sn ns) es))"
  by (simp add: processWebSocketResponse_entries)

lemma response_cases:
  "processWebSocketResponse throws sn ns response = [] \<or>
   (\<exists>p. processWebSocketResponse throws sn ns response =
          concat (map (entry_records throws sn ns) (Object_entries p)))"
  by (simp add: processWebSocketResponse_entries split: option.splits) blast

lemma response_from_entry:
  assumes "r \<in> set (processWebSocketResponse throws sn ns response)"
  shows "\<exists>p e. e \<in> set (Object_entries p) \<and> r \<in> set (entry_records throws sn ns e)"
proof -
  from assms have "processWebSocketResponse throws sn ns response \<noteq> []" by auto
  with response_cases [of throws sn ns response] obtain p where
    "processWebSocketResponse throws sn ns response =
       concat (map (entry_records throws sn ns) (Object_entries p))" by blast
  with assms have "r \<in> (\<Union>e \<in> set (Object_entries p). set (entry_records throws sn ns e))"
    by (simp only: set_concat set_map image_image)
  then show ?thesis by blast
qed

lemma Math_min_le_max: "a \<noteq> NaN \<Longrightarrow> b \<noteq> NaN \<Longrightarrow> js_le (Math_min a b) (Math_max a b)"
  by (cases a; cases b) (auto simp: Math_min_def Math_max_def)

lemma Math_min_not_NaN: "a \<noteq> NaN \<Longrightarrow> b \<noteq> NaN \<Longrightarrow> Math_min a b \<noteq> NaN"
  by (simp add: Math_min_def)

lemma Math_max_not_NaN: "a \<noteq> NaN \<Longrightarrow> b \<noteq> NaN \<Longrightarrow> Math_max a b \<noteq> NaN"
  by (simp add: Math_max_def)

lemma entry_record_cases:
  assumes "r \<in> set (entry_records throws sn ns e)"
  shows "\<exists>k p. r = prediction_record sn ns k p \<and> \<not> coordinate_NaN sn ns p"
proof (cases e)
  case (Pair k v)
  show ?thesis
  proof (cases "\<exists>p. v = JArr p \<and> 6 \<le> length p")
    case True
    then obtain p where "v = JArr p" "6 \<le> length p" by blast
    with Pair assms show ?thesis
      by (auto simp: entry_records_array split: if_splits)
  next
    case False
    then have "\<not> is_array v \<or> (\<exists>p. v = JArr p \<and> length p < 6)"
      by (cases v) auto
    with Pair assms show ?thesis
      using entry_shape [of v throws sn ns k] by simp
  qed
qed

lemma record_normalized:
  "\<not> coordinate_NaN sn ns p \<Longrightarrow>
   js_le (x1 (prediction_record sn ns k p)) (x2 (prediction_record sn ns k p)) \<and>
   js_le (y1 (prediction_record sn ns k p)) (y2 (prediction_record sn ns k p))"
  by (simp add: coordinate_NaN_def prediction_record_def Math_min_le_max)

lemma record_coordinates_not_NaN:
  "\<not> coordinate_NaN sn ns p \<Longrightarrow>
   x1 (prediction_record sn ns k p) \<noteq> NaN \<and> y1 (prediction_record sn ns k p) \<noteq> NaN \<and>
   x2 (prediction_record sn ns k p) \<noteq> NaN \<and> y2 (prediction_record sn ns k p) \<noteq> NaN"
  by (simp add: coordinate_NaN_def prediction_record_def Math_min_def Math_max_def)

lemma response_normalized:
  "r \<in> set (processWebSocketResponse throws sn ns response) \<Longrightarrow>
      js_le (x1 r) (x2 r) \<and> js_le (y1 r) (y2 r)"
  using response_from_entry entry_record_cases record_normalized by blast

lemma response_coordinates_not_NaN:
  "r \<in> set (processWebSocketResponse throws sn ns response) \<Longrightarrow>
   x1 r \<noteq> NaN \<and> y1 r \<noteq> NaN \<and> x2 r \<noteq> NaN \<and> y2 r \<noteq> NaN"
  using response_from_entry entry_record_cases record_coordinates_not_NaN by blast

lemmas evaluate_response =
  processWebSocketResponse_def forEach_callback_def Number_call_def String_call_def
  conversion_throws_def js_isNaN_def Math_min_def Math_max_def

lemma response_example:
  "processWebSocketResponse throws sn ns
     (JObj [(''predictions'',
             JObj [(''7'', JArr [JStr ''Alice'', JNum (Fin (92 / 100)), JNum (Fin 50), JNum (Fin 80),
                                 JNum (Fin 10), JNum (Fin 200)])])]) =
     [\<lparr> trackId = ''7'', name = ''Alice'', confidence = Fin (92 / 100),
        x1 = Fin 10, y1 = Fin 80, x2 = Fin 50, y2 = Fin 200 \<rparr>]"
  by (simp add: evaluate_response)

lemma callback_rejects_only:
  assumes "forEach_callback throws sn ns acc (k, v) = Inr acc"
  shows "\<not> is_array v \<or> (\<exists>p. v = JArr p \<and> (length p < 6 \<or> coordinate_NaN sn ns p))"
proof (cases "\<exists>p. v = JArr p \<and> 6 \<le> length p")
  case True
  then obtain p where p: "v = JArr p" "6 \<le> length p" by blast
  with assms have "coordinate_NaN sn ns p"
    by (simp add: callback_array split: if_splits)
  with p show ?thesis by simp
next
  case False
  then show ?thesis by (cases v) auto
qed

lemma callback_throws_only:
  assumes "forEach_callback throws sn ns acc (k, v) = Inl err"
  shows "\<exists>p. v = JArr p \<and> 6 \<le> length p \<and> (\<exists>i<6. conversion_throws throws (p ! i))"
proof (cases "\<exists>p. v = JArr p \<and> 6 \<le> length p")
  case True
  then obtain p where p: "v = JArr p" "6 \<le> length p" by blast
  with assms have "coordinate_throws throws p \<or> conversion_throws throws (p ! 0) \<or>
      conversion_throws throws (p ! 1)"
    by (simp add: callback_array split: if_splits)
  moreover have "(0::nat) < 6" "(1::nat) < 6" "(2::nat) < 6" "(3::nat) < 6" "(4::nat) < 6"
    "(5::nat) < 6" by simp_all
  ultimately have "\<exists>i<6. conversion_throws throws (p ! i)"
    unfolding coordinate_throws_def by blast
  with p show ?thesis by simp
next
  case False
  then have "\<not> is_array v \<or> (\<exists>p. v = JArr p \<and> length p < 6)"
    by (cases v) auto
  with assms show ?thesis
    using callback_rejects_shape [of v throws sn ns acc k] by simp
qed

lemma callback_accepts:
  assumes "6 \<le> length p" "\<not> coordinate_NaN sn ns p" "\<forall>i<6. \<not> conversion_throws throws (p ! i)"
  shows "forEach_callback throws sn ns acc (k, JArr p) = Inr (acc @ [prediction_record sn ns k p])"
proof -
  from assms(3) have "\<not> conversion_throws throws (p ! 0)" "\<not> conversion_throws throws (p ! 1)"
    "\<not> conversion_throws throws (p ! 2)" "\<not> conversion_throws throws (p ! 3)"
    "\<not> conversion_throws throws (p ! 4)" "\<not> conversion_throws throws (p ! 5)"
    by simp_all
  with assms(1,2) show ?thesis
    by (simp add: callback_array coordinate_throws_def)
qed

text \<open>
  Claim C5. Every record that \<open>processWebSocketResponse\<close> returns has \<open>x1 \<le> x2\<close> and
  \<open>y1 \<le> y2\<close>, the coordinates being swapped where needed; for the response
  \<open>{"predictions": {"7": ["Alice", 0.92, 50, 80, 10, 200]}}\<close> it returns exactly one record,
  with \<open>trackId\<close> \<open>"7"\<close>, \<open>x1 = 10\<close>, \<open>x2 = 50\<close>, \<open>y1 = 80\<close> and \<open>y2 = 200\<close>.
\<close>

theorem processWebSocketResponse_normalizes_boxes:
  "(\<forall>r \<in> set (processWebSocketResponse throws strToNum numToStr response).
      js_le (x1 r) (x2 r) \<and> js_le (y1 r) (y2 r)) \<and>
   processWebSocketResponse throws strToNum numToStr
     (JObj [(''predictions'',
             JObj [(''7'', JArr [JStr ''Alice'', JNum (Fin (92 / 100)), JNum (Fin 50), JNum (Fin 80),
                                 JNum (Fin 10), JNum (Fin 200)])])]) =
     [\<lparr> trackId = ''7'', name = ''Alice'', confidence = Fin (92 / 100),
        x1 = Fin 10, y1 = Fin 80, x2 = Fin 50, y2 = Fin 200 \<rparr>]"
  using response_normalized [of _ throws strToNum numToStr response]
    response_example [of throws strToNum numToStr]
  by blast

theorem processWebSocketResponse_normalizes_boxes_witness:
  "\<lparr> trackId = ''4'', name = ''Bob'', confidence = Fin 1,
     x1 = Fin 3, y1 = Fin 2, x2 = Fin 9, y2 = Fin 8 \<rparr>
     \<in> set (processWebSocketResponse throws_sample strToNum_decimal numToStr_integer
              (JObj [(''predictions'',
                      JObj [(''4'', JArr [JStr ''Bob'', JNum (Fin 1), JStr ''9'', JNum (Fin 8),
                                          JNum (Fin 3), JNum (Fin 2)])])])) \<and>
   js_le (Fin 3) (Fin 9) \<and> js_le (Fin 2) (Fin 8)"
proof -
  have m: "\<lparr> trackId = ''4'', name = ''Bob'', confidence = Fin 1,
              x1 = Fin 3, y1 = Fin 2, x2 = Fin 9, y2 = Fin 8 \<rparr>
     \<in> set (processWebSocketResponse throws_sample strToNum_decimal numToStr_integer
              (JObj [(''predictions'',
                      JObj [(''4'', JArr [JStr ''Bob'', JNum (Fin 1), JStr ''9'', JNum (Fin 8),
                                          JNum (Fin 3), JNum (Fin 2)])])]))"
    by (simp add: evaluate_response strToNum_decimal_def digit_value_def decimal_digits_def)
  from processWebSocketResponse_normalizes_boxes [THEN conjunct1, rule_format, OF m] m
  show ?thesis by simp
qed

text \<open>
  Claim C6. \<open>processWebSocketResponse\<close> never throws: an exception that leaves the loop is
  caught, and the function then returns the empty array. A response that is falsy, or whose
  \<open>predictions\<close> is missing or \<open>null\<close>, gives the empty array. An entry that is not an array,
  or is an array of fewer than 6 elements, leaves the array as it is, and the response
  gives the same records with and without that entry. The other entries are produced as
  long as no conversion throws: the result is then the records of all entries in their
  order, one record for each array of at least 6 elements whose coordinates are numbers.
  They are not produced in every payload, as the claim has it: when the callback throws on
  one entry (\<open>String\<close> or \<open>Number\<close> of an object that has a property \<open>toString\<close>, or of an
  array nested too deeply), the result is empty and the records of the valid entries are
  lost with it.
\<close>

theorem processWebSocketResponse_skips_malformed:
  "(\<not> truthy response \<or> get_property response ''predictions'' = None \<or>
      get_property response ''predictions'' = Some JNull
      \<longrightarrow> processWebSocketResponse throws strToNum numToStr response = []) \<and>
   (truthy response \<and> get_property response ''predictions'' = Some predictions \<and>
    truthy predictions \<and>
    forEach (forEach_callback throws strToNum numToStr) [] (Object_entries predictions) = Inl err
      \<longrightarrow> processWebSocketResponse throws strToNum numToStr response = []) \<and>
   (\<not> is_array v \<or> (\<exists>p. v = JArr p \<and> length p < 6)
      \<longrightarrow> forEach_callback throws strToNum numToStr acc (k, v) = Inr acc) \<and>
   ((\<not> is_array v \<or> (\<exists>p. v = JArr p \<and> length p < 6)) \<and>
    truthy response \<and> get_property response ''predictions'' = Some (JObj (es1 @ (k, v) # es2)) \<and>
    truthy response' \<and> get_property response' ''predictions'' = Some (JObj (es1 @ es2))
      \<longrightarrow> processWebSocketResponse throws strToNum numToStr response =
          processWebSocketResponse throws strToNum numToStr response') \<and>
   (truthy response \<and> get_property response ''predictions'' = Some (JObj es) \<and>
    (\<forall>e \<in> set es. \<not> entry_throws throws strToNum numToStr e)
      \<longrightarrow> processWebSocketResponse throws strToNum numToStr response =
          concat (map (entry_records throws strToNum numToStr) es)) \<and>
   (6 \<le> length q \<and> \<not> coordinate_NaN strToNum numToStr q \<and>
    \<not> entry_throws throws strToNum numToStr (k', JArr q)
      \<longrightarrow> forEach_callback throws strToNum numToStr acc (k', JArr q) =
            Inr (acc @ [prediction_record strToNum numToStr k' q]) \<and>
          entry_records throws strToNum numToStr (k', JArr q) =
            [prediction_record strToNum numToStr k' q]) \<and>
   (truthy response \<and> get_property response ''predictions'' = Some (JObj es) \<and>
    (\<exists>e \<in> set es. entry_throws throws strToNum numToStr e)
      \<longrightarrow> processWebSocketResponse throws strToNum numToStr response = []) \<and>
   processWebSocketResponse throws strToNum numToStr
     (JObj [(''predictions'',
             JObj [(''1'', JArr [JStr ''Bob'', JNum (Fin (1 / 2)), JNum (Fin 1), JNum (Fin 2)]),
                   (''2'', JArr [JStr ''Alice'', JNum (Fin (9 / 10)), JNum (Fin 10), JNum (Fin 20),
                                 JNum (Fin 30), JNum (Fin 40)])])]) =
     [\<lparr> trackId = ''2'', name = ''Alice'', confidence = Fin (9 / 10),
        x1 = Fin 10, y1 = Fin 20, x2 = Fin 30, y2 = Fin 40 \<rparr>]"
proof (intro conjI impI)
  assume "\<not> truthy response \<or> get_property response ''predictions'' = None \<or>
      get_property response ''predictions'' = Some JNull"
  then show "processWebSocketResponse throws strToNum numToStr response = []"
    by (auto simp: processWebSocketResponse_def)
next
  assume "truthy response \<and> get_property response ''predictions'' = Some predictions \<and>
    truthy predictions \<and>
    forEach (forEach_callback throws strToNum numToStr) [] (Object_entries predictions) = Inl err"
  then show "processWebSocketResponse throws strToNum numToStr response = []"
    by (simp add: processWebSocketResponse_def)
next
  assume "\<not> is_array v \<or> (\<exists>p. v = JArr p \<and> length p < 6)"
  then show "forEach_callback throws strToNum numToStr acc (k, v) = Inr acc"
    by (rule callback_rejects_shape)
next
  assume a: "(\<not> is_array v \<or> (\<exists>p. v = JArr p \<and> length p < 6)) \<and>
    truthy response \<and> get_property response ''predictions'' = Some (JObj (es1 @ (k, v) # es2)) \<and>
    truthy response' \<and> get_property response' ''predictions'' = Some (JObj (es1 @ es2))"
  then have "\<not> entry_throws throws strToNum numToStr (k, v) \<and>
      entry_records throws strToNum numToStr (k, v) = []"
    using entry_shape [of v throws strToNum numToStr k] by blast
  with a show "processWebSocketResponse throws strToNum numToStr response =
          processWebSocketResponse throws strToNum numToStr response'"
    by (simp add: response_object)
next
  assume "truthy response \<and> get_property response ''predictions'' = Some (JObj es) \<and>
    (\<forall>e \<in> set es. \<not> entry_throws throws strToNum numToStr e)"
  then show "processWebSocketResponse throws strToNum numToStr response =
          concat (map (entry_records throws strToNum numToStr) es)"
    by (simp add: response_object)
next
  assume a: "6 \<le> length q \<and> \<not> coordinate_NaN strToNum numToStr q \<and>
    \<not> entry_throws throws strToNum numToStr (k', JArr q)"
  then show "forEach_callback throws strToNum numToStr acc (k', JArr q) =
            Inr (acc @ [prediction_record strToNum numToStr k' q])"
    using callback_entry [of throws strToNum numToStr acc "(k', JArr q)"]
    by (simp add: entry_records_array)
  from a show "entry_records throws strToNum numToStr (k', JArr q) =
            [prediction_record strToNum numToStr k' q]"
    by (simp add: entry_records_array)
next
  assume "truthy response \<and> get_property response ''predictions'' = Some (JObj es) \<and>
    (\<exists>e \<in> set es. entry_throws throws strToNum numToStr e)"
  then show "processWebSocketResponse throws strToNum numToStr response = []"
    by (simp add: response_object)
next
  show "processWebSocketResponse throws strToNum numToStr
     (JObj [(''predictions'',
             JObj [(''1'', JArr [JStr ''Bob'', JNum (Fin (1 / 2)), JNum (Fin 1), JNum (Fin 2)]),
                   (''2'', JArr [JStr ''Alice'', JNum (Fin (9 / 10)), JNum (Fin 10), JNum (Fin 20),
                                 JNum (Fin 30), JNum (Fin 40)])])]) =
     [\<lparr> trackId = ''2'', name = ''Alice'', confidence = Fin (9 / 10),
        x1 = Fin 10, y1 = Fin 20, x2 = Fin 30, y2 = Fin 40 \<rparr>]"
    by (simp add: evaluate_response)
qed

theorem processWebSocketResponse_loses_valid_entries_counterexample:
  "processWebSocketResponse throws_sample strToNum_decimal numToStr_integer
     (JObj [(''predictions'',
             JObj [(''1'', JArr [JStr ''Bob'', JNum (Fin (1 / 2)), JNum (Fin 1), JNum (Fin 2)]),
                   (''2'', JArr [JStr ''Alice'', JNum (Fin (9 / 10)), JNum (Fin 10), JNum (Fin 20),
                                 JNum (Fin 30), JNum (Fin 40)]),
                   (''3'', JArr [JObj [(''toString'', JNum (Fin 1))], JNum (Fin 1), JNum (Fin 1),
                                 JNum (Fin 2), JNum (Fin 3), JNum (Fin 4)])])]) = [] \<and>
   processWebSocketResponse throws_sample strToNum_decimal numToStr_integer
     (JObj [(''predictions'',
             JObj [(''1'', JArr [JStr ''Bob'', JNum (Fin (1 / 2)), JNum (Fin 1), JNum (Fin 2)]),
                   (''2'', JArr [JStr ''Alice'', JNum (Fin (9 / 10)), JNum (Fin 10), JNum (Fin 20),
                                 JNum (Fin 30), JNum (Fin 40)])])]) =
     [\<lparr> trackId = ''2'', name = ''Alice'', confidence = Fin (9 / 10),
        x1 = Fin 10, y1 = Fin 20, x2 = Fin 30, y2 = Fin 40 \<rparr>]"
  by (simp add: evaluate_response)

theorem processWebSocketResponse_skips_malformed_witness:
  "processWebSocketResponse throws_sample strToNum_decimal numToStr_integer
     (JObj [(''exit_ids'', JArr [])]) = [] \<and>
   forEach_callback throws_sample strToNum_decimal numToStr_integer [] (''5'', JStr ''Carol'') = Inr [] \<and>
   processWebSocketResponse throws_sample strToNum_decimal numToStr_integer
     (JObj [(''predictions'',
             JObj [(''5'', JStr ''Carol''),
                   (''6'', JArr [JStr ''Dan'', JNum (Fin 1), JNum (Fin 1), JNum (Fin 2),
                                 JNum (Fin 3), JNum (Fin 4)]),
                   (''7'', JArr [JStr ''Eve'', JNum (Fin 1), JNum (Fin 8), JNum (Fin 7),
                                 JNum (Fin 6), JNum (Fin 5)])])]) =
     [\<lparr> trackId = ''6'', name = ''Dan'', confidence = Fin 1,
        x1 = Fin 1, y1 = Fin 2, x2 = Fin 3, y2 = Fin 4 \<rparr>,
      \<lparr> trackId = ''7'', name = ''Eve'', confidence = Fin 1,
        x1 = Fin 6, y1 = Fin 5, x2 = Fin 8, y2 = Fin 7 \<rparr>] \<and>
   processWebSocketResponse throws_sample strToNum_decimal numToStr_integer
     (JObj [(''predictions'',
             JObj [(''6'', JArr [JStr ''Dan'', JNum (Fin 1), JNum (Fin 1), JNum (Fin 2),
                                 JNum (Fin 3), JNum (Fin 4)]),
                   (''8'', JArr [JStr ''Fay'', deep_array, JNum (Fin 1), JNum (Fin 2),
                                 JNum (Fin 3), JNum (Fin 4)])])]) = []"
proof -
  let ?carol = "(''5'', JStr ''Carol'')"
  let ?dan = "(''6'', JArr [JStr ''Dan'', JNum (Fin 1), JNum (Fin 1), JNum (Fin 2),
                            JNum (Fin 3), JNum (Fin 4)])"
  let ?eve = "(''7'', JArr [JStr ''Eve'', JNum (Fin 1), JNum (Fin 8), JNum (Fin 7),
                            JNum (Fin 6), JNum (Fin 5)])"
  let ?fay = "(''8'', JArr [JStr ''Fay'', deep_array, JNum (Fin 1), JNum (Fin 2),
                            JNum (Fin 3), JNum (Fin 4)])"
  note ev = entry_throws_def entry_records_def forEach_callback_def Number_call_def String_call_def
    js_isNaN_def Math_min_def Math_max_def number_completes string_completes
  have h1: "\<not> truthy (JObj [(''exit_ids'', JArr [])]) \<or>
      get_property (JObj [(''exit_ids'', JArr [])]) ''predictions'' = None \<or>
      get_property (JObj [(''exit_ids'', JArr [])]) ''predictions'' = Some JNull"
    by simp
  have h3: "\<not> is_array (JStr ''Carol'') \<or> (\<exists>p. JStr ''Carol'' = JArr p \<and> length p < 6)"
    by simp
  have h5: "truthy (JObj [(''predictions'', JObj [?carol, ?dan, ?eve])]) \<and>
      get_property (JObj [(''predictions'', JObj [?carol, ?dan, ?eve])]) ''predictions'' =
        Some (JObj [?carol, ?dan, ?eve]) \<and>
      (\<forall>e \<in> set [?carol, ?dan, ?eve].
         \<not> entry_throws throws_sample strToNum_decimal numToStr_integer e)"
    by (simp add: ev)
  have h7: "truthy (JObj [(''predictions'', JObj [?dan, ?fay])]) \<and>
      get_property (JObj [(''predictions'', JObj [?dan, ?fay])]) ''predictions'' =
        Some (JObj [?dan, ?fay]) \<and>
      (\<exists>e \<in> set [?dan, ?fay]. entry_throws throws_sample strToNum_decimal numToStr_integer e)"
    using deep_array_throws by (simp add: ev)
  note t = processWebSocketResponse_skips_malformed
    [where throws = throws_sample and strToNum = strToNum_decimal and numToStr = numToStr_integer]
  have c1: "processWebSocketResponse throws_sample strToNum_decimal numToStr_integer
     (JObj [(''exit_ids'', JArr [])]) = []"
    by (rule t [THEN conjunct1, rule_format, OF h1])
  have c3: "forEach_callback throws_sample strToNum_decimal numToStr_integer [] ?carol = Inr []"
    by (rule t [THEN conjunct2, THEN conjunct2, THEN conjunct1, rule_format, OF h3])
  have c5: "processWebSocketResponse throws_sample strToNum_decimal numToStr_integer
     (JObj [(''predictions'', JObj [?carol, ?dan, ?eve])]) =
     [\<lparr> trackId = ''6'', name = ''Dan'', confidence = Fin 1,
        x1 = Fin 1, y1 = Fin 2, x2 = Fin 3, y2 = Fin 4 \<rparr>,
      \<lparr> trackId = ''7'', name = ''Eve'', confidence = Fin 1,
        x1 = Fin 6, y1 = Fin 5, x2 = Fin 8, y2 = Fin 7 \<rparr>]"
    using t [THEN conjunct2, THEN conjunct2, THEN conjunct2, THEN conjunct2, THEN conjunct1,
             rule_format, OF h5]
    by (simp add: ev)
  have c7: "processWebSocketResponse throws_sample strToNum_decimal numToStr_integer
     (JObj [(''predictions'', JObj [?dan, ?fay])]) = []"
    by (rule t [THEN conjunct2, THEN conjunct2, THEN conjunct2, THEN conjunct2, THEN conjunct2,
                THEN conjunct2, THEN conjunct1, rule_format, OF h7])
  show ?thesis
    by (intro conjI) (rule c1, rule c3, rule c5, rule c7)
qed

text \<open>
  Claim C9. Only the four coordinates are tested. An entry that is an array of at least 6
  elements whose coordinates convert to numbers gives one record, whose \<open>name\<close> is \<open>String\<close>
  of the first element and whose \<open>confidence\<close> is \<open>Number\<close> of the second (\<open>NaN\<close> for a
  \<open>confidence\<close> that is an object), provided that the six conversions complete. The callback
  leaves the array as it is only if the entry is not an array, is shorter than 6, or has a
  coordinate that converts to \<open>NaN\<close>. There is a further way to get no record, which the claim
  leaves out: a conversion throws, also that of the name or of the confidence (on an
  object that has a property \<open>toString\<close>, or on an array nested too deeply), and the
  function then returns the empty array for the whole response.
\<close>

theorem processWebSocketResponse_validates_coordinates_only:
  "(6 \<le> length p \<and> \<not> coordinate_NaN strToNum numToStr p \<and>
    (\<forall>i<6. \<not> conversion_throws throws (p ! i))
      \<longrightarrow> forEach_callback throws strToNum numToStr acc (k, JArr p) =
            Inr (acc @ [\<lparr> trackId = k, name = js_String numToStr (p ! 0),
                     confidence = js_Number strToNum numToStr (p ! 1),
                     x1 = Math_min (js_Number strToNum numToStr (p ! 2)) (js_Number strToNum numToStr (p ! 4)),
                     y1 = Math_min (js_Number strToNum numToStr (p ! 3)) (js_Number strToNum numToStr (p ! 5)),
                     x2 = Math_max (js_Number strToNum numToStr (p ! 2)) (js_Number strToNum numToStr (p ! 4)),
                     y2 = Math_max (js_Number strToNum numToStr (p ! 3)) (js_Number strToNum numToStr (p ! 5)) \<rparr>])) \<and>
   (forEach_callback throws strToNum numToStr acc (k, v) = Inr acc
      \<longrightarrow> \<not> is_array v \<or>
          (\<exists>q. v = JArr q \<and> (length q < 6 \<or> coordinate_NaN strToNum numToStr q))) \<and>
   (forEach_callback throws strToNum numToStr acc (k, v) = Inl err
      \<longrightarrow> (\<exists>q. v = JArr q \<and> 6 \<le> length q \<and> (\<exists>i<6. conversion_throws throws (q ! i)))) \<and>
   (6 \<le> length p
      \<longrightarrow> (forEach_callback throws strToNum numToStr acc (k, JArr p) = Inl Thrown) =
          (coordinate_throws throws p \<or>
           \<not> coordinate_NaN strToNum numToStr p \<and>
           (conversion_throws throws (p ! 0) \<or> conversion_throws throws (p ! 1)))) \<and>
   (truthy response \<and> get_property response ''predictions'' = Some (JObj es)
      \<longrightarrow> processWebSocketResponse throws strToNum numToStr response =
          (if \<exists>e \<in> set es. entry_throws throws strToNum numToStr e then []
           else concat (map (entry_records throws strToNum numToStr) es))) \<and>
   js_Number strToNum numToStr (JObj kvs) = NaN \<and>
   processWebSocketResponse throws strToNum numToStr
     (JObj [(''predictions'',
             JObj [(''3'', JArr [JBool True, JObj [], JNum (Fin 4), JNum (Fin 3), JNum (Fin 2),
                                 JNum (Fin 1)])])]) =
     [\<lparr> trackId = ''3'', name = ''true'', confidence = NaN,
        x1 = Fin 2, y1 = Fin 1, x2 = Fin 4, y2 = Fin 3 \<rparr>]"
proof (intro conjI impI)
  assume "6 \<le> length p \<and> \<not> coordinate_NaN strToNum numToStr p \<and>
    (\<forall>i<6. \<not> conversion_throws throws (p ! i))"
  then show "forEach_callback throws strToNum numToStr acc (k, JArr p) =
            Inr (acc @ [\<lparr> trackId = k, name = js_String numToStr (p ! 0),
                     confidence = js_Number strToNum numToStr (p ! 1),
                     x1 = Math_min (js_Number strToNum numToStr (p ! 2)) (js_Number strToNum numToStr (p ! 4)),
                     y1 = Math_min (js_Number strToNum numToStr (p ! 3)) (js_Number strToNum numToStr (p ! 5)),
                     x2 = Math_max (js_Number strToNum numToStr (p ! 2)) (js_Number strToNum numToStr (p ! 4)),
                     y2 = Math_max (js_Number strToNum numToStr (p ! 3)) (js_Number strToNum numToStr (p ! 5)) \<rparr>])"
    using callback_accepts [of p strToNum numToStr throws acc k]
    by (simp add: prediction_record_def)
next
  assume "forEach_callback throws strToNum numToStr acc (k, v) = Inr acc"
  then show "\<not> is_array v \<or>
          (\<exists>q. v = JArr q \<and> (length q < 6 \<or> coordinate_NaN strToNum numToStr q))"
    by (rule callback_rejects_only)
next
  assume "forEach_callback throws strToNum numToStr acc (k, v) = Inl err"
  then show "\<exists>q. v = JArr q \<and> 6 \<le> length q \<and> (\<exists>i<6. conversion_throws throws (q ! i))"
    by (rule callback_throws_only)
next
  assume "6 \<le> length p"
  then show "(forEach_callback throws strToNum numToStr acc (k, JArr p) = Inl Thrown) =
          (coordinate_throws throws p \<or>
           \<not> coordinate_NaN strToNum numToStr p \<and>
           (conversion_throws throws (p ! 0) \<or> conversion_throws throws (p ! 1)))"
    by (simp add: callback_array)
next
  assume "truthy response \<and> get_property response ''predictions'' = Some (JObj es)"
  then show "processWebSocketResponse throws strToNum numToStr response =
          (if \<exists>e \<in> set es. entry_throws throws strToNum numToStr e then []
           else concat (map (entry_records throws strToNum numToStr) es))"
    by (simp add: response_object)
next
  show "js_Number strToNum numToStr (JObj kvs) = NaN" by simp
next
  show "processWebSocketResponse throws strToNum numToStr
     (JObj [(''predictions'',
             JObj [(''3'', JArr [JBool True, JObj [], JNum (Fin 4), JNum (Fin 3), JNum (Fin 2),
                                 JNum (Fin 1)])])]) =
     [\<lparr> trackId = ''3'', name = ''true'', confidence = NaN,
        x1 = Fin 2, y1 = Fin 1, x2 = Fin 4, y2 = Fin 3 \<rparr>]"
    by (simp add: evaluate_response)
qed

theorem processWebSocketResponse_name_throws_counterexample:
  "length [JObj [(''toString'', JNum (Fin 1))], JNum (Fin (9 / 10)), JNum (Fin 1), JNum (Fin 2),
           JNum (Fin 3), JNum (Fin 4)] = 6 \<and>
   \<not> coordinate_NaN strToNum_decimal numToStr_integer
       [JObj [(''toString'', JNum (Fin 1))], JNum (Fin (9 / 10)), JNum (Fin 1), JNum (Fin 2),
        JNum (Fin 3), JNum (Fin 4)] \<and>
   forEach_callback throws_sample strToNum_decimal numToStr_integer []
     (''3'', JArr [JObj [(''toString'', JNum (Fin 1))], JNum (Fin (9 / 10)), JNum (Fin 1),
                   JNum (Fin 2), JNum (Fin 3), JNum (Fin 4)]) = Inl Thrown \<and>
   processWebSocketResponse throws_sample strToNum_decimal numToStr_integer
     (JObj [(''predictions'',
             JObj [(''3'', JArr [JObj [(''toString'', JNum (Fin 1))], JNum (Fin (9 / 10)),
                                 JNum (Fin 1), JNum (Fin 2), JNum (Fin 3), JNum (Fin 4)])])]) = [] \<and>
   forEach_callback throws_sample strToNum_decimal numToStr_integer []
     (''4'', JArr [JStr ''Dan'', JObj [(''toString'', JNull)], JNum (Fin 1), JNum (Fin 2),
                   JNum (Fin 3), JNum (Fin 4)]) = Inl Thrown \<and>
   processWebSocketResponse throws_sample strToNum_decimal numToStr_integer
     (JObj [(''predictions'',
             JObj [(''4'', JArr [JStr ''Dan'', JObj [(''toString'', JNull)], JNum (Fin 1),
                                 JNum (Fin 2), JNum (Fin 3), JNum (Fin 4)])])]) = []"
  by (simp add: evaluate_response coordinate_NaN_def)

theorem processWebSocketResponse_validates_coordinates_only_witness:
  "forEach_callback throws_sample strToNum_decimal numToStr_integer []
     (''8'', JArr [JNum (Fin 42), JStr ''high'', JStr ''7'', JNum (Fin 1), JNum (Fin 5), JNull]) =
     Inr [\<lparr> trackId = ''8'', name = ''42'', confidence = NaN,
            x1 = Fin 5, y1 = Fin 0, x2 = Fin 7, y2 = Fin 1 \<rparr>] \<and>
   forEach_callback throws_sample strToNum_decimal numToStr_integer []
     (''9'', JArr [JStr ''Eve'', JNum (Fin 1), JStr ''left'', JNum (Fin 1), JNum (Fin 5), JNum (Fin 6)]) =
     Inr [] \<and>
   coordinate_NaN strToNum_decimal numToStr_integer
     [JStr ''Eve'', JNum (Fin 1), JStr ''left'', JNum (Fin 1), JNum (Fin 5), JNum (Fin 6)] \<and>
   conversion_throws throws_sample
     ([JStr ''Fay'', deep_array, JNum (Fin 1), JNum (Fin 2), JNum (Fin 3), JNum (Fin 4)] ! 1) \<and>
   processWebSocketResponse throws_sample strToNum_decimal numToStr_integer
     (JObj [(''predictions'', JObj [(''9'', JNum (Fin 1))])]) = []"
proof -
  let ?p = "[JNum (Fin 42), JStr ''high'', JStr ''7'', JNum (Fin 1), JNum (Fin 5), JNull]"
  let ?q = "[JStr ''Eve'', JNum (Fin 1), JStr ''left'', JNum (Fin 1), JNum (Fin 5), JNum (Fin 6)]"
  let ?f = "[JStr ''Fay'', deep_array, JNum (Fin 1), JNum (Fin 2), JNum (Fin 3), JNum (Fin 4)]"
  note dec = strToNum_decimal_def digit_value_def decimal_digits_def
  have h1: "6 \<le> length ?p \<and> \<not> coordinate_NaN strToNum_decimal numToStr_integer ?p \<and>
    (\<forall>i<6. \<not> conversion_throws throws_sample (?p ! i))"
  proof -
    have "\<forall>i<6. \<not> conversion_throws throws_sample (?p ! i)"
    proof (intro allI impI)
      fix i :: nat
      assume "i < 6"
      then have "i = 0 \<or> i = 1 \<or> i = 2 \<or> i = 3 \<or> i = 4 \<or> i = 5" by arith
      then show "\<not> conversion_throws throws_sample (?p ! i)"
        by (auto simp: conversion_throws_def)
    qed
    then show ?thesis by (simp add: coordinate_NaN_def dec)
  qed
  have h2: "forEach_callback throws_sample strToNum_decimal numToStr_integer [] (''9'', JArr ?q) = Inr []"
    by (simp add: forEach_callback_def Number_call_def conversion_throws_def js_isNaN_def dec)
  have h3: "forEach_callback throws_sample strToNum_decimal numToStr_integer [] (''8'', JArr ?f) =
      Inl Thrown"
    using deep_array_throws
    by (simp add: forEach_callback_def Number_call_def String_call_def js_isNaN_def
          number_completes string_completes)
  have h5: "truthy (JObj [(''predictions'', JObj [(''9'', JNum (Fin 1))])]) \<and>
    get_property (JObj [(''predictions'', JObj [(''9'', JNum (Fin 1))])]) ''predictions'' =
      Some (JObj [(''9'', JNum (Fin 1))])"
    by simp
  note t = processWebSocketResponse_validates_coordinates_only
    [where throws = throws_sample and strToNum = strToNum_decimal and numToStr = numToStr_integer]
  have c1: "forEach_callback throws_sample strToNum_decimal numToStr_integer [] (''8'', JArr ?p) =
     Inr [\<lparr> trackId = ''8'', name = ''42'', confidence = NaN,
            x1 = Fin 5, y1 = Fin 0, x2 = Fin 7, y2 = Fin 1 \<rparr>]"
    using t [where p = ?p and acc = "[]" and k = "''8''", THEN conjunct1, rule_format, OF h1]
    by (simp add: dec numToStr_integer_def string_of_int_def string_of_nat.simps digit_char_def
          Math_min_def Math_max_def)
  have c2: "coordinate_NaN strToNum_decimal numToStr_integer ?q"
    using t [where v = "JArr ?q" and acc = "[]" and k = "''9''",
             THEN conjunct2, THEN conjunct1, rule_format, OF h2]
    by simp
  have c3: "\<exists>i<6. conversion_throws throws_sample (?f ! i)"
    using t [where v = "JArr ?f" and acc = "[]" and k = "''8''" and err = Thrown,
             THEN conjunct2, THEN conjunct2, THEN conjunct1, rule_format, OF h3]
    by simp
  have c4: "conversion_throws throws_sample (?f ! 1)"
    using deep_array_throws by simp
  have c5: "processWebSocketResponse throws_sample strToNum_decimal numToStr_integer
     (JObj [(''predictions'', JObj [(''9'', JNum (Fin 1))])]) = []"
    using t [where response = "JObj [(''predictions'', JObj [(''9'', JNum (Fin 1))])]"
               and es = "[(''9'', JNum (Fin 1))]",
             THEN conjunct2, THEN conjunct2, THEN conjunct2, THEN conjunct2, THEN conjunct1,
             rule_format, OF h5]
    by (simp add: entry_throws_def entry_records_def forEach_callback_def)
  show ?thesis
    by (intro conjI) (rule c1, rule h2, rule c2, rule c4, rule c5)
qed

section \<open>Properties of the two hooks\<close>

lemma emit_fields [simp]:
  "frameQueueRef (emit e s) = frameQueueRef s"
  "processingRef (emit e s) = processingRef s"
  "isConnected (emit e s) = isConnected s"
  "wsRef (emit e s) = wsRef s"
  "readers (emit e s) = readers s"
  "lastResponse (emit e s) = lastResponse s"
  "connectionAttempts (emit e s) = connectionAttempts s"
  "lastSentTimeRef (emit e s) = lastSentTimeRef s"
  "effects (emit e s) = effects s @ [e]"
  by (simp_all add: emit_def)

lemma frames_taken_append [simp]:
  "frames_taken (xs @ ys) = foldl taken_step (frames_taken xs) ys"
  by (simp add: frames_taken_def)

lemma taken_step_calls [simp]:
  "taken_step n (ReadAsArrayBuffer b) = Suc n"
  "taken_step n (WsSend bytes) = n"
  "taken_step n WsClose = n"
  "taken_step n NewWebSocket = n"
  "taken_step n (SetTimeout d) = n"
  "taken_step n (ConsoleWarn t) = n"
  by (simp_all add: taken_step_def clearing_lines_def)

lemma taken_step_console [simp]:
  "taken_step n (ConsoleLog t) =
     (if t = ''Received message:'' \<or> t = ''WebSocket disconnected'' \<or>
         t = ''WebSocket not ready when trying to send frame'' then 0 else n)"
  "taken_step n (ConsoleError t) =
     (if t = ''WebSocket error:'' \<or> t = ''WebSocket not ready when trying to send frame'' \<or>
         t = ''Error sending frame:'' \<or> t = ''Error reading blob'' \<or> t = ''Error reading blob:''
      then 0 else n)"
  by (auto simp: taken_step_def clearing_lines_def)

lemma clear_processing_fields [simp]:
  "frameQueueRef (clear_processing s) = frameQueueRef s"
  "processingRef (clear_processing s) = False"
  "isConnected (clear_processing s) = isConnected s"
  "wsRef (clear_processing s) = wsRef s"
  "readers (clear_processing s) = readers s"
  "lastResponse (clear_processing s) = lastResponse s"
  "connectionAttempts (clear_processing s) = connectionAttempts s"
  "lastSentTimeRef (clear_processing s) = lastSentTimeRef s"
  "effects (clear_processing s) = effects s"
  by (simp_all add: clear_processing_def)

lemma processNextFrame_blocked:
  "\<not> initiates ic s \<Longrightarrow>
   frameQueueRef (processNextFrame ic now s) = frameQueueRef s \<and>
   processingRef (processNextFrame ic now s) = processingRef s \<and>
   readers (processNextFrame ic now s) = readers s \<and>
   frames_taken (effects (processNextFrame ic now s)) = frames_taken (effects s) \<and>
   lastSentTimeRef (processNextFrame ic now s) = lastSentTimeRef s"
  by (auto simp: processNextFrame_def initiates_def Let_def)

lemma processNextFrame_initiates:
  "initiates ic s \<Longrightarrow>
   frameQueueRef (processNextFrame ic now s) = tl (frameQueueRef s) \<and>
   processingRef (processNextFrame ic now s) \<and>
   readers (processNextFrame ic now s) = readers s @ [hd (frameQueueRef s)] \<and>
   frames_taken (effects (processNextFrame ic now s)) = Suc (frames_taken (effects s)) \<and>
   lastSentTimeRef (processNextFrame ic now s) = Some now"
  by (cases "frameQueueRef s") (simp_all add: processNextFrame_def initiates_def)

lemma processNextFrame_same:
  "isConnected (processNextFrame ic now s) = isConnected s \<and>
   wsRef (processNextFrame ic now s) = wsRef s \<and>
   lastResponse (processNextFrame ic now s) = lastResponse s \<and>
   connectionAttempts (processNextFrame ic now s) = connectionAttempts s"
  by (cases "frameQueueRef s") (simp_all add: processNextFrame_def Let_def clear_processing_def)


lemma processNextFrame_fields:
  "frameQueueRef (processNextFrame ic now s) =
     (if initiates ic s then tl (frameQueueRef s) else frameQueueRef s)"
  "processingRef (processNextFrame ic now s) = (initiates ic s \<or> processingRef s)"
  "readers (processNextFrame ic now s) =
     (if initiates ic s then readers s @ [hd (frameQueueRef s)] else readers s)"
  "frames_taken (effects (processNextFrame ic now s)) =
     (if initiates ic s then Suc (frames_taken (effects s)) else frames_taken (effects s))"
  "lastSentTimeRef (processNextFrame ic now s) =
     (if initiates ic s then Some now else lastSentTimeRef s)"
  using processNextFrame_blocked [of ic s now] processNextFrame_initiates [of ic s now]
  by auto

lemma drop_oldest_fields:
  "processingRef (drop_oldest s) = processingRef s \<and>
   isConnected (drop_oldest s) = isConnected s \<and>
   wsRef (drop_oldest s) = wsRef s \<and>
   readers (drop_oldest s) = readers s \<and>
   frames_taken (effects (drop_oldest s)) = frames_taken (effects s) \<and>
   lastResponse (drop_oldest s) = lastResponse s \<and>
   connectionAttempts (drop_oldest s) = connectionAttempts s \<and>
   lastSentTimeRef (drop_oldest s) = lastSentTimeRef s"
proof (induction s rule: drop_oldest.induct)
  case (1 s)
  show ?case
  proof (cases "MAX_QUEUE_SIZE \<le> length (frameQueueRef s)")
    case True
    with 1 show ?thesis by (simp add: drop_oldest.simps [of s])
  next
    case False
    then show ?thesis by (simp add: drop_oldest.simps [of s])
  qed
qed

lemma drop_oldest_queue:
  "frameQueueRef (drop_oldest s) = drop (length (frameQueueRef s) - 4) (frameQueueRef s)"
proof (induction s rule: drop_oldest.induct)
  case (1 s)
  show ?case
  proof (cases "MAX_QUEUE_SIZE \<le> length (frameQueueRef s)")
    case True
    then have "frameQueueRef s \<noteq> []" by (auto simp: MAX_QUEUE_SIZE_def)
    then obtain b q where bq: "frameQueueRef s = b # q" by (cases "frameQueueRef s") auto
    with True have "length q - 3 = Suc (length q - 4)" by (simp add: MAX_QUEUE_SIZE_def)
    with bq True 1 show ?thesis
      by (simp add: drop_oldest.simps [of s] MAX_QUEUE_SIZE_def)
  next
    case False
    then show ?thesis by (simp add: drop_oldest.simps [of s] MAX_QUEUE_SIZE_def)
  qed
qed

lemma queueFrame_busy:
  "\<not> idle_ready s \<Longrightarrow>
   frameQueueRef (queueFrame now b s) = push_frame (frameQueueRef s) (processedBlob b) \<and>
   processingRef (queueFrame now b s) = processingRef s \<and>
   readers (queueFrame now b s) = readers s \<and>
   frames_taken (effects (queueFrame now b s)) = frames_taken (effects s)"
  by (auto simp: queueFrame_def Let_def drop_oldest_fields drop_oldest_queue processNextFrame_fields
        initiates_def idle_ready_def push_frame_def)

lemma queueFrame_idle:
  "idle_ready s \<Longrightarrow>
   frameQueueRef (queueFrame now b s) = tl (push_frame (frameQueueRef s) (processedBlob b)) \<and>
   processingRef (queueFrame now b s) \<and>
   readers (queueFrame now b s) = readers s @ [hd (push_frame (frameQueueRef s) (processedBlob b))] \<and>
   frames_taken (effects (queueFrame now b s)) = Suc (frames_taken (effects s))"
  by (auto simp: queueFrame_def Let_def drop_oldest_fields drop_oldest_queue processNextFrame_fields
        initiates_def idle_ready_def push_frame_def)

lemma queueFrame_same:
  "isConnected (queueFrame now b s) = isConnected s \<and>
   wsRef (queueFrame now b s) = wsRef s \<and>
   lastResponse (queueFrame now b s) = lastResponse s \<and>
   connectionAttempts (queueFrame now b s) = connectionAttempts s"
  by (simp add: queueFrame_def Let_def drop_oldest_fields processNextFrame_same)


lemma foldl_push_frame:
  "bs \<noteq> [] \<Longrightarrow> foldl push_frame q bs = drop (length q + length bs - 5) (q @ bs)"
proof (induction bs arbitrary: q)
  case Nil
  then show ?case by simp
next
  case (Cons b bs)
  show ?case
  proof (cases bs)
    case Nil
    then show ?thesis by (simp add: push_frame_def)
  next
    case (Cons c cs)
    then have "foldl push_frame (push_frame q b) bs =
      drop (length (push_frame q b) + length bs - 5) (push_frame q b @ bs)"
      using Cons.IH [of "push_frame q b"] by simp
    moreover have "push_frame q b @ bs = drop (length q - 4) (q @ b # bs)"
      by (simp add: push_frame_def)
    moreover have "length (push_frame q b) + length bs - 5 + (length q - 4) = length q + length (b # bs) - 5"
      using Cons by (simp add: push_frame_def)
    ultimately show ?thesis by (simp add: add.commute)
  qed
qed

lemma queueFrame_not_idle: "\<not> idle_ready (queueFrame now b s)"
proof (cases "idle_ready s")
  case True
  then show ?thesis using queueFrame_idle [of s now b] by (simp add: idle_ready_def)
next
  case False
  then show ?thesis using queueFrame_busy [of s now b] queueFrame_same [of now b s]
    by (simp add: idle_ready_def)
qed

lemma queueFrames_busy:
  "\<not> idle_ready s \<Longrightarrow>
   frameQueueRef (queueFrames calls s) =
     foldl push_frame (frameQueueRef s) (map (\<lambda>c. processedBlob (snd c)) calls)"
proof (induction calls arbitrary: s)
  case Nil
  then show ?case by (simp add: queueFrames_def)
next
  case (Cons c calls)
  obtain now b where c: "c = (now, b)" by (cases c)
  have "queueFrames (c # calls) s = queueFrames calls (queueFrame now b s)"
    by (simp add: queueFrames_def c)
  then show ?case
    using Cons.IH [OF queueFrame_not_idle [of now b s]] queueFrame_busy [OF Cons.prems, of now b]
    by (simp add: c)
qed

lemma queueFrames_keeps_last:
  assumes "5 < length calls"
  shows "frameQueueRef (queueFrames calls s) =
           map (\<lambda>c. processedBlob (snd c)) (drop (length calls - 5) calls)"
proof -
  obtain now b rest where calls: "calls = (now, b) # rest"
    using assms by (cases calls) auto
  let ?s1 = "queueFrame now b s"
  let ?bs = "map (\<lambda>c. processedBlob (snd c)) rest"
  have rest: "5 \<le> length rest" using assms calls by simp
  then have ne: "?bs \<noteq> []" by auto
  have "frameQueueRef (queueFrames calls s) = frameQueueRef (queueFrames rest ?s1)"
    by (simp add: queueFrames_def calls)
  also have "\<dots> = foldl push_frame (frameQueueRef ?s1) ?bs"
    by (rule queueFrames_busy [OF queueFrame_not_idle])
  also have "\<dots> = drop (length (frameQueueRef ?s1) + length ?bs - 5) (frameQueueRef ?s1 @ ?bs)"
    by (rule foldl_push_frame [OF ne])
  also have "\<dots> = drop (length rest - 5) ?bs"
    using rest by simp
  also have "\<dots> = map (\<lambda>c. processedBlob (snd c)) (drop (length calls - 5) calls)"
  proof -
    from rest have "length rest - 4 = Suc (length rest - 5)" by simp
    then show ?thesis by (simp add: calls drop_map)
  qed
  finally show ?thesis .
qed

lemma queueFrame_length: "length (frameQueueRef (queueFrame now b s)) \<le> 5"
proof (cases "idle_ready s")
  case True
  then show ?thesis using queueFrame_idle [of s now b] by (simp add: push_frame_def)
next
  case False
  then show ?thesis using queueFrame_busy [of s now b] by (simp add: push_frame_def)
qed


lemma processNextFrame_inv: "inv s \<Longrightarrow> inv (processNextFrame ic now s)"
  by (auto simp: inv_def flag_agrees_def processNextFrame_fields initiates_def)

lemma connect_inv: "inv s \<Longrightarrow> inv (connect t m s)"
  by (simp add: inv_def flag_agrees_def connect_def Let_def)

lemma onopen_inv: "inv s \<Longrightarrow> inv (onopen hc now s)"
  unfolding onopen_def by (rule processNextFrame_inv) (simp add: inv_def flag_agrees_def)

lemma onclose_inv: "inv s \<Longrightarrow> inv (onclose s)"
  by (simp add: inv_def flag_agrees_def onclose_def Let_def)

lemma onerror_inv: "inv s \<Longrightarrow> inv (onerror m s)"
  by (simp add: inv_def flag_agrees_def onerror_def)

lemma measure_latency_fields [simp]:
  "frameQueueRef (measure_latency now s) = frameQueueRef s"
  "processingRef (measure_latency now s) = processingRef s"
  "isConnected (measure_latency now s) = isConnected s"
  "wsRef (measure_latency now s) = wsRef s"
  "readers (measure_latency now s) = readers s"
  "frames_taken (effects (measure_latency now s)) = frames_taken (effects s)"
  "lastResponse (measure_latency now s) = lastResponse s"
  "connectionAttempts (measure_latency now s) = connectionAttempts s"
  "lastSentTimeRef (measure_latency now s) = None"
  by (simp_all add: measure_latency_def split: option.splits)

lemma log_parsed_response_fields [simp]:
  "frameQueueRef (log_parsed_response d s) = frameQueueRef s"
  "processingRef (log_parsed_response d s) = processingRef s"
  "isConnected (log_parsed_response d s) = isConnected s"
  "wsRef (log_parsed_response d s) = wsRef s"
  "readers (log_parsed_response d s) = readers s"
  "frames_taken (effects (log_parsed_response d s)) = frames_taken (effects s)"
  "lastResponse (log_parsed_response d s) = lastResponse s"
  "connectionAttempts (log_parsed_response d s) = connectionAttempts s"
  "lastSentTimeRef (log_parsed_response d s) = lastSentTimeRef s"
  by (simp_all add: log_parsed_response_def Let_def split: option.splits list.splits prod.splits)

lemma onmessage_inv: "inv s \<Longrightarrow> inv (onmessage P hc now d s)"
proof (cases "P d")
  case None
  assume "inv s"
  with None show ?thesis by (simp add: onmessage_def Let_def inv_def flag_agrees_def)
next
  case (Some data)
  assume "inv s"
  then have "inv ((log_parsed_response data
      (measure_latency now (clear_processing (emit (ConsoleLog ''Received message:'') s))))
        \<lparr>lastResponse := data\<rparr>)"
    by (simp add: inv_def flag_agrees_def)
  then show ?thesis
    by (simp add: onmessage_def Let_def Some processNextFrame_inv)
qed

lemma queueFrame_inv: "inv s \<Longrightarrow> inv (queueFrame now b s)"
proof (cases "idle_ready s")
  case True
  assume "inv s"
  with True show ?thesis
    using queueFrame_idle [of s now b] queueFrame_length [of now b s]
    by (simp add: inv_def flag_agrees_def idle_ready_def MAX_QUEUE_SIZE_def)
next
  case False
  assume "inv s"
  with False show ?thesis
    using queueFrame_busy [of s now b] queueFrame_length [of now b s]
    by (simp add: inv_def flag_agrees_def MAX_QUEUE_SIZE_def)
qed

lemma reader_onload_inv: "inv s \<Longrightarrow> inv (reader_onload i t s)"
  by (simp add: inv_def flag_agrees_def reader_onload_def Let_def)

lemma reader_onerror_inv: "inv s \<Longrightarrow> inv (reader_onerror i s)"
  by (simp add: inv_def flag_agrees_def reader_onerror_def)

lemma reconnect_timer_inv: "inv s \<Longrightarrow> inv (reconnect_timer t m s)"
  by (simp add: reconnect_timer_def connect_inv)

lemma reconnect_inv: "inv s \<Longrightarrow> inv (reconnect t m s)"
  unfolding reconnect_def Let_def by (rule connect_inv) (simp add: inv_def flag_agrees_def)

lemma cleanup_inv: "inv s \<Longrightarrow> inv (cleanup s)"
  by (simp add: inv_def flag_agrees_def cleanup_def Let_def)

lemma step_inv: "inv s \<Longrightarrow> inv (step P hc s e)"
proof (cases e)
  case (SocketState r)
  assume "inv s"
  then show ?thesis by (simp add: SocketState inv_def flag_agrees_def)
qed (simp_all add: connect_inv onopen_inv onclose_inv onerror_inv onmessage_inv queueFrame_inv
       reader_onload_inv reader_onerror_inv reconnect_timer_inv reconnect_inv cleanup_inv)

lemma run_inv: "inv s \<Longrightarrow> inv (run P hc evs s)"
  unfolding run_def by (induction evs arbitrary: s) (simp_all add: step_inv)

lemma initial_inv: "inv initial_hook"
  by (simp add: inv_def flag_agrees_def initial_hook_def frames_taken_def)

lemma processNextFrame_ws_blocked:
  "\<not> initiates ic s \<Longrightarrow>
   frameQueueRef (processNextFrame_ws ic now s) = frameQueueRef s \<and>
   processingRef (processNextFrame_ws ic now s) = processingRef s \<and>
   readers (processNextFrame_ws ic now s) = readers s \<and>
   frames_taken (effects (processNextFrame_ws ic now s)) = frames_taken (effects s) \<and>
   lastSentTimeRef (processNextFrame_ws ic now s) = lastSentTimeRef s"
  by (auto simp: processNextFrame_ws_def initiates_def Let_def)

lemma processNextFrame_ws_initiates:
  "initiates ic s \<Longrightarrow>
   frameQueueRef (processNextFrame_ws ic now s) = tl (frameQueueRef s) \<and>
   processingRef (processNextFrame_ws ic now s) \<and>
   readers (processNextFrame_ws ic now s) = readers s @ [hd (frameQueueRef s)] \<and>
   frames_taken (effects (processNextFrame_ws ic now s)) = Suc (frames_taken (effects s)) \<and>
   lastSentTimeRef (processNextFrame_ws ic now s) = Some now"
  by (cases "frameQueueRef s") (simp_all add: processNextFrame_ws_def initiates_def)

lemma processNextFrame_ws_same:
  "isConnected (processNextFrame_ws ic now s) = isConnected s \<and>
   wsRef (processNextFrame_ws ic now s) = wsRef s \<and>
   lastResponse (processNextFrame_ws ic now s) = lastResponse s \<and>
   connectionAttempts (processNextFrame_ws ic now s) = connectionAttempts s"
  by (cases "frameQueueRef s") (simp_all add: processNextFrame_ws_def Let_def clear_processing_def)

lemma processNextFrame_ws_fields:
  "frameQueueRef (processNextFrame_ws ic now s) =
     (if initiates ic s then tl (frameQueueRef s) else frameQueueRef s)"
  "processingRef (processNextFrame_ws ic now s) = (initiates ic s \<or> processingRef s)"
  "readers (processNextFrame_ws ic now s) =
     (if initiates ic s then readers s @ [hd (frameQueueRef s)] else readers s)"
  "frames_taken (effects (processNextFrame_ws ic now s)) =
     (if initiates ic s then Suc (frames_taken (effects s)) else frames_taken (effects s))"
  "lastSentTimeRef (processNextFrame_ws ic now s) =
     (if initiates ic s then Some now else lastSentTimeRef s)"
  using processNextFrame_ws_blocked [of ic s now] processNextFrame_ws_initiates [of ic s now]
  by auto

lemma queueFrame_ws_busy:
  "\<not> idle_ready s \<Longrightarrow>
   frameQueueRef (queueFrame_ws now b s) = push_frame (frameQueueRef s) b \<and>
   processingRef (queueFrame_ws now b s) = processingRef s \<and>
   readers (queueFrame_ws now b s) = readers s \<and>
   frames_taken (effects (queueFrame_ws now b s)) = frames_taken (effects s)"
  by (auto simp: queueFrame_ws_def Let_def drop_oldest_fields drop_oldest_queue
        processNextFrame_ws_fields initiates_def idle_ready_def push_frame_def)

lemma queueFrame_ws_idle:
  "idle_ready s \<Longrightarrow>
   frameQueueRef (queueFrame_ws now b s) = tl (push_frame (frameQueueRef s) b) \<and>
   processingRef (queueFrame_ws now b s) \<and>
   readers (queueFrame_ws now b s) = readers s @ [hd (push_frame (frameQueueRef s) b)] \<and>
   frames_taken (effects (queueFrame_ws now b s)) = Suc (frames_taken (effects s))"
  by (auto simp: queueFrame_ws_def Let_def drop_oldest_fields drop_oldest_queue
        processNextFrame_ws_fields initiates_def idle_ready_def push_frame_def)

lemma queueFrame_ws_same:
  "isConnected (queueFrame_ws now b s) = isConnected s \<and>
   wsRef (queueFrame_ws now b s) = wsRef s \<and>
   lastResponse (queueFrame_ws now b s) = lastResponse s \<and>
   connectionAttempts (queueFrame_ws now b s) = connectionAttempts s"
  by (simp add: queueFrame_ws_def Let_def drop_oldest_fields processNextFrame_ws_same)

lemma queueFrame_ws_not_idle: "\<not> idle_ready (queueFrame_ws now b s)"
proof (cases "idle_ready s")
  case True
  then show ?thesis using queueFrame_ws_idle [of s now b] by (simp add: idle_ready_def)
next
  case False
  then show ?thesis using queueFrame_ws_busy [of s now b] queueFrame_ws_same [of now b s]
    by (simp add: idle_ready_def)
qed

lemma queueFrames_ws_busy:
  "\<not> idle_ready s \<Longrightarrow>
   frameQueueRef (queueFrames_ws calls s) = foldl push_frame (frameQueueRef s) (map snd calls)"
proof (induction calls arbitrary: s)
  case Nil
  then show ?case by (simp add: queueFrames_ws_def)
next
  case (Cons c calls)
  obtain now b where c: "c = (now, b)" by (cases c)
  have "queueFrames_ws (c # calls) s = queueFrames_ws calls (queueFrame_ws now b s)"
    by (simp add: queueFrames_ws_def c)
  then show ?case
    using Cons.IH [OF queueFrame_ws_not_idle [of now b s]] queueFrame_ws_busy [OF Cons.prems, of now b]
    by (simp add: c)
qed

lemma queueFrames_ws_keeps_last:
  assumes "5 < length calls"
  shows "frameQueueRef (queueFrames_ws calls s) = map snd (drop (length calls - 5) calls)"
proof -
  obtain now b rest where calls: "calls = (now, b) # rest"
    using assms by (cases calls) auto
  let ?s1 = "queueFrame_ws now b s"
  let ?bs = "map snd rest"
  have rest: "5 \<le> length rest" using assms calls by simp
  then have ne: "?bs \<noteq> []" by auto
  have "frameQueueRef (queueFrames_ws calls s) = frameQueueRef (queueFrames_ws rest ?s1)"
    by (simp add: queueFrames_ws_def calls)
  also have "\<dots> = foldl push_frame (frameQueueRef ?s1) ?bs"
    by (rule queueFrames_ws_busy [OF queueFrame_ws_not_idle])
  also have "\<dots> = drop (length (frameQueueRef ?s1) + length ?bs - 5) (frameQueueRef ?s1 @ ?bs)"
    by (rule foldl_push_frame [OF ne])
  also have "\<dots> = drop (length rest - 5) ?bs"
    using rest by simp
  also have "\<dots> = map snd (drop (length calls - 5) calls)"
  proof -
    from rest have "length rest - 4 = Suc (length rest - 5)" by simp
    then show ?thesis by (simp add: calls drop_map)
  qed
  finally show ?thesis .
qed

lemma queueFrame_ws_length: "length (frameQueueRef (queueFrame_ws now b s)) \<le> 5"
proof (cases "idle_ready s")
  case True
  then show ?thesis using queueFrame_ws_idle [of s now b] by (simp add: push_frame_def)
next
  case False
  then show ?thesis using queueFrame_ws_busy [of s now b] by (simp add: push_frame_def)
qed

lemma processNextFrame_ws_inv: "inv s \<Longrightarrow> inv (processNextFrame_ws ic now s)"
  by (auto simp: inv_def flag_agrees_def processNextFrame_ws_fields initiates_def)

lemma onopen_ws_inv: "inv s \<Longrightarrow> inv (onopen_ws hc now s)"
  unfolding onopen_ws_def Let_def
  by (rule processNextFrame_ws_inv) (simp add: inv_def flag_agrees_def split: option.splits readyState.splits)

lemma onmessage_ws_inv: "inv s \<Longrightarrow> inv (onmessage_ws P now d s)"
  by (cases d) (simp_all add: onmessage_ws_def Let_def inv_def flag_agrees_def split: option.splits)

lemma blob_reader_onload_ws_inv: "inv s \<Longrightarrow> inv (blob_reader_onload_ws P text s)"
  by (simp add: blob_reader_onload_ws_def inv_def flag_agrees_def split: option.splits)

lemma queueFrame_ws_inv: "inv s \<Longrightarrow> inv (queueFrame_ws now b s)"
proof (cases "idle_ready s")
  case True
  assume "inv s"
  with True show ?thesis
    using queueFrame_ws_idle [of s now b] queueFrame_ws_length [of now b s]
    by (simp add: inv_def flag_agrees_def idle_ready_def MAX_QUEUE_SIZE_def)
next
  case False
  assume "inv s"
  with False show ?thesis
    using queueFrame_ws_busy [of s now b] queueFrame_ws_length [of now b s]
    by (simp add: inv_def flag_agrees_def MAX_QUEUE_SIZE_def)
qed

lemma reader_onload_ws_inv: "inv s \<Longrightarrow> inv (reader_onload_ws i t m s)"
  by (simp add: inv_def flag_agrees_def reader_onload_ws_def Let_def)

lemma reader_onerror_ws_inv: "inv s \<Longrightarrow> inv (reader_onerror_ws i m s)"
  by (simp add: inv_def flag_agrees_def reader_onerror_ws_def)

lemma step_ws_inv: "inv s \<Longrightarrow> inv (step_ws P hc s e)"
proof (cases e)
  case (SocketState_ws r)
  assume "inv s"
  then show ?thesis by (simp add: SocketState_ws inv_def flag_agrees_def)
qed (simp_all add: connect_inv onopen_ws_inv onclose_inv onerror_inv onmessage_ws_inv
       blob_reader_onload_ws_inv processNextFrame_ws_inv queueFrame_ws_inv
       reader_onload_ws_inv reader_onerror_ws_inv reconnect_timer_inv reconnect_inv cleanup_inv)

lemma run_ws_inv: "inv s \<Longrightarrow> inv (run_ws P hc evs s)"
  unfolding run_ws_def by (induction evs arbitrary: s) (simp_all add: step_ws_inv)

lemma connect_fields:
  "processingRef (connect t m s) = processingRef s \<and> frameQueueRef (connect t m s) = frameQueueRef s \<and>
   readers (connect t m s) = readers s"
  by (simp add: connect_def Let_def)

lemma step_keeps_flag:
  assumes "processingRef s" "\<not> processingRef (step P hc s e)"
  shows "(\<exists>t d. e = Onmessage t d) \<or> e = Onclose \<or> (\<exists>m. e = Onerror m) \<or>
         (\<exists>i t. e = ReaderOnload i t) \<or> (\<exists>i. e = ReaderOnerror i)"
proof (cases e)
  case (Connect t m)
  with assms show ?thesis by (simp add: connect_fields)
next
  case (SocketState r)
  with assms show ?thesis by (simp split: if_splits)
next
  case (Onopen now)
  with assms show ?thesis by (simp add: onopen_def processNextFrame_fields)
next
  case (QueueFrame now b)
  from assms(1) have "\<not> idle_ready s" by (simp add: idle_ready_def)
  with assms QueueFrame show ?thesis using queueFrame_busy [of s now b] by simp
next
  case (ReconnectTimer t m)
  with assms show ?thesis by (simp add: reconnect_timer_def connect_fields split: if_splits)
next
  case (Reconnect t m)
  with assms show ?thesis by (simp add: reconnect_def Let_def connect_fields split: if_splits)
next
  case Cleanup
  with assms show ?thesis by (simp add: cleanup_def Let_def split: if_splits)
qed simp_all

lemma step_ws_keeps_flag:
  assumes "processingRef s" "\<not> processingRef (step_ws P hc s e)"
  shows "(\<exists>t d. e = Onmessage_ws t d) \<or> e = Onclose_ws \<or> (\<exists>m. e = Onerror_ws m) \<or>
         (\<exists>i t m. e = ReaderOnload_ws i t m) \<or> (\<exists>i m. e = ReaderOnerror_ws i m)"
proof (cases e)
  case (Connect_ws t m)
  with assms show ?thesis by (simp add: connect_fields)
next
  case (SocketState_ws r)
  with assms show ?thesis by (simp split: if_splits)
next
  case (Onopen_ws now)
  with assms show ?thesis
    by (simp add: onopen_ws_def Let_def processNextFrame_ws_fields split: option.splits readyState.splits)
next
  case (BlobReaderOnload_ws body)
  with assms show ?thesis by (simp add: blob_reader_onload_ws_def split: option.splits)
next
  case (ZeroTimer_ws now)
  with assms show ?thesis by (simp add: processNextFrame_ws_fields)
next
  case (QueueFrame_ws now b)
  from assms(1) have "\<not> idle_ready s" by (simp add: idle_ready_def)
  with assms QueueFrame_ws show ?thesis using queueFrame_ws_busy [of s now b] by simp
next
  case (ReconnectTimer_ws t m)
  with assms show ?thesis by (simp add: reconnect_timer_def connect_fields split: if_splits)
next
  case (Reconnect_ws t m)
  with assms show ?thesis by (simp add: reconnect_def Let_def connect_fields split: if_splits)
next
  case Cleanup_ws
  with assms show ?thesis by (simp add: cleanup_def Let_def split: if_splits)
qed simp_all

lemma run_queue_length: "length (frameQueueRef (run P hc evs initial_hook)) \<le> MAX_QUEUE_SIZE"
  using run_inv [OF initial_inv, of P hc evs] by (simp add: inv_def)

lemma run_ws_queue_length: "length (frameQueueRef (run_ws P hc evs initial_hook)) \<le> MAX_QUEUE_SIZE"
  using run_ws_inv [OF initial_inv, of P hc evs] by (simp add: inv_def)

lemma processedBlob_jpeg: "\<forall>c \<in> set calls. blob_type (snd c) = ''image/jpeg'' \<Longrightarrow>
  map (\<lambda>c. processedBlob (snd c)) (drop n calls) = map snd (drop n calls)"
  by (rule map_cong) (auto simp: processedBlob_def dest: in_set_dropD)

lemma run_flag: "flag_agrees (run P hc evs initial_hook)"
  using run_inv [OF initial_inv, of P hc evs] by (simp add: inv_def)

lemma run_ws_flag: "flag_agrees (run_ws P hc evs initial_hook)"
  using run_ws_inv [OF initial_inv, of P hc evs] by (simp add: inv_def)

lemma wire_append [simp]: "wire (xs @ ys) = wire xs @ wire ys"
  by (simp add: wire_def)

lemma sends_awaiting_append [simp]:
  "sends_awaiting (xs @ ys) = foldl awaiting_step (sends_awaiting xs) ys"
  by (simp add: sends_awaiting_def)

lemma onopen_ws_test_data:
  "wsRef s = Some OPEN \<Longrightarrow> WsSend [0, 1, 2, 3, 4] \<in> set (effects (onopen_ws hc now s))"
  by (cases "frameQueueRef s")
     (auto simp: onopen_ws_def Let_def processNextFrame_ws_def clear_processing_def)

lemma awaiting_response_fields:
  "processingRef awaiting_response \<and>
   frameQueueRef awaiting_response = [frame_B] \<and>
   readers awaiting_response = [] \<and>
   isConnected awaiting_response \<and>
   wsRef awaiting_response = Some OPEN \<and>
   lastSentTimeRef awaiting_response = Some 1 \<and>
   lastResponse awaiting_response = JNull"
  by (simp add: awaiting_response_def run_def initial_hook_def connect_def onopen_def Let_def
        queueFrame_def processNextFrame_def emit_def clear_processing_def reader_onload_def
        drop_oldest.simps MAX_QUEUE_SIZE_def processedBlob_def frame_A_def frame_B_def)

text \<open>
  Claim C1. After more than \<open>MAX_QUEUE_SIZE\<close> (5) calls of \<open>queueFrame\<close> in a row, from any
  state of the hook, the queue holds exactly the frames of the last 5 calls, in the order
  of the calls. The first hook queues \<open>processedBlob\<close> of a frame, which is the frame itself
  when its type is \<open>image/jpeg\<close>; the second hook queues the frame as it is. The queue
  never holds more than 5 frames: not after a call of \<open>queueFrame\<close> from any state, and not
  after any sequence of events from the initial state.
\<close>

theorem frameQueue_keeps_last_frames:
  "(MAX_QUEUE_SIZE < length calls \<longrightarrow>
      frameQueueRef (queueFrames calls s) =
        map (\<lambda>c. processedBlob (snd c)) (drop (length calls - MAX_QUEUE_SIZE) calls)) \<and>
   (MAX_QUEUE_SIZE < length calls \<and> (\<forall>c \<in> set calls. blob_type (snd c) = ''image/jpeg'') \<longrightarrow>
      frameQueueRef (queueFrames calls s) = map snd (drop (length calls - MAX_QUEUE_SIZE) calls)) \<and>
   (MAX_QUEUE_SIZE < length calls \<longrightarrow>
      frameQueueRef (queueFrames_ws calls s) = map snd (drop (length calls - MAX_QUEUE_SIZE) calls)) \<and>
   length (frameQueueRef (queueFrame now b s)) \<le> MAX_QUEUE_SIZE \<and>
   length (frameQueueRef (queueFrame_ws now b s)) \<le> MAX_QUEUE_SIZE \<and>
   length (frameQueueRef (run JSON_parse hc evs initial_hook)) \<le> MAX_QUEUE_SIZE \<and>
   length (frameQueueRef (run_ws JSON_parse hc evs' initial_hook)) \<le> MAX_QUEUE_SIZE"
  using queueFrames_keeps_last [of calls s] queueFrames_ws_keeps_last [of calls s]
    processedBlob_jpeg [of calls "length calls - 5"]
    queueFrame_length [of now b s] queueFrame_ws_length [of now b s]
    run_queue_length [of JSON_parse hc evs] run_ws_queue_length [of JSON_parse hc evs']
  by (simp add: MAX_QUEUE_SIZE_def)

theorem frameQueue_keeps_last_frames_witness:
  "frameQueueRef
     (queueFrames [(1, frame_A), (2, frame_B), (3, frame_B), (4, frame_A), (5, frame_A), (6, frame_B),
                   (7, frame_A)] awaiting_response) =
     [frame_B, frame_A, frame_A, frame_B, frame_A] \<and>
   frameQueueRef
     (queueFrames_ws [(1, frame_A), (2, frame_B), (3, frame_B), (4, frame_A), (5, frame_A), (6, frame_B),
                      (7, frame_A)] initial_hook) =
     [frame_B, frame_A, frame_A, frame_B, frame_A]"
proof -
  let ?calls = "[(1, frame_A), (2, frame_B), (3, frame_B), (4, frame_A), (5, frame_A), (6, frame_B),
                 (7::real, frame_A)]"
  have h: "MAX_QUEUE_SIZE < length ?calls \<and> (\<forall>c \<in> set ?calls. blob_type (snd c) = ''image/jpeg'')"
    by (simp add: MAX_QUEUE_SIZE_def frame_A_def frame_B_def)
  have a: "frameQueueRef (queueFrames ?calls awaiting_response) =
             map snd (drop (length ?calls - MAX_QUEUE_SIZE) ?calls)"
    using frameQueue_keeps_last_frames
      [of ?calls awaiting_response, THEN conjunct2, THEN conjunct1, rule_format, OF h] .
  have b: "frameQueueRef (queueFrames_ws ?calls initial_hook) =
             map snd (drop (length ?calls - MAX_QUEUE_SIZE) ?calls)"
    using frameQueue_keeps_last_frames
      [of ?calls initial_hook, THEN conjunct2, THEN conjunct2, THEN conjunct1, rule_format]
      h by blast
  from a b show ?thesis by (simp add: MAX_QUEUE_SIZE_def)
qed

text \<open>
  Claim C2. What the flag guarantees is about frames taken from the queue, not about sends
  that no message has answered. In every run of either hook from its initial state,
  whatever the order of \<open>queueFrame\<close> calls, socket events, reader events and messages, at
  most one frame has been taken from the queue and handed to a reader since
  \<open>processingRef.current\<close> was last cleared, and the flag is set exactly while there is one.
  While the flag is set, neither \<open>processNextFrame\<close> nor \<open>queueFrame\<close> takes a frame or starts
  a reader. The flag, once set, is cleared only by a message, by \<open>onclose\<close> or \<open>onerror\<close>, or by
  the \<open>onload\<close>/\<open>onerror\<close> of a reader. The sends themselves are not bounded by it: a message
  clears the flag whether or not the frame taken last has been sent, and \<open>onopen\<close> of the
  second hook sends its test message whatever the flag is.
\<close>

theorem one_frame_taken_while_flag_pending:
  "frames_taken (effects (run JSON_parse hc evs initial_hook)) \<le> 1 \<and>
   frames_taken (effects (run_ws JSON_parse hc evs' initial_hook)) \<le> 1 \<and>
   processingRef (run JSON_parse hc evs initial_hook) =
     (frames_taken (effects (run JSON_parse hc evs initial_hook)) = 1) \<and>
   processingRef (run_ws JSON_parse hc evs' initial_hook) =
     (frames_taken (effects (run_ws JSON_parse hc evs' initial_hook)) = 1) \<and>
   (processingRef s \<longrightarrow>
      frameQueueRef (processNextFrame ic now s) = frameQueueRef s \<and>
      readers (processNextFrame ic now s) = readers s \<and>
      processingRef (processNextFrame ic now s) \<and>
      frames_taken (effects (processNextFrame ic now s)) = frames_taken (effects s)) \<and>
   (processingRef s \<longrightarrow>
      frameQueueRef (processNextFrame_ws ic now s) = frameQueueRef s \<and>
      readers (processNextFrame_ws ic now s) = readers s \<and>
      processingRef (processNextFrame_ws ic now s) \<and>
      frames_taken (effects (processNextFrame_ws ic now s)) = frames_taken (effects s)) \<and>
   (processingRef s \<longrightarrow>
      readers (queueFrame now b s) = readers s \<and>
      processingRef (queueFrame now b s) \<and>
      frames_taken (effects (queueFrame now b s)) = frames_taken (effects s) \<and>
      readers (queueFrame_ws now b s) = readers s \<and>
      processingRef (queueFrame_ws now b s) \<and>
      frames_taken (effects (queueFrame_ws now b s)) = frames_taken (effects s)) \<and>
   (processingRef s \<and> \<not> processingRef (step JSON_parse hc s e) \<longrightarrow>
      (\<exists>t d. e = Onmessage t d) \<or> e = Onclose \<or> (\<exists>m. e = Onerror m) \<or>
      (\<exists>i t. e = ReaderOnload i t) \<or> (\<exists>i. e = ReaderOnerror i)) \<and>
   (processingRef s \<and> \<not> processingRef (step_ws JSON_parse hc s e') \<longrightarrow>
      (\<exists>t d. e' = Onmessage_ws t d) \<or> e' = Onclose_ws \<or> (\<exists>m. e' = Onerror_ws m) \<or>
      (\<exists>i t m. e' = ReaderOnload_ws i t m) \<or> (\<exists>i m. e' = ReaderOnerror_ws i m)) \<and>
   (wsRef s = Some OPEN \<longrightarrow> WsSend [0, 1, 2, 3, 4] \<in> set (effects (onopen_ws hc now s)))"
proof (intro conjI impI)
  show "frames_taken (effects (run JSON_parse hc evs initial_hook)) \<le> 1"
    using run_flag [of JSON_parse hc evs] by (simp add: flag_agrees_def)
  show "frames_taken (effects (run_ws JSON_parse hc evs' initial_hook)) \<le> 1"
    using run_ws_flag [of JSON_parse hc evs'] by (simp add: flag_agrees_def)
  show "processingRef (run JSON_parse hc evs initial_hook) =
     (frames_taken (effects (run JSON_parse hc evs initial_hook)) = 1)"
    using run_flag [of JSON_parse hc evs] by (simp add: flag_agrees_def)
  show "processingRef (run_ws JSON_parse hc evs' initial_hook) =
     (frames_taken (effects (run_ws JSON_parse hc evs' initial_hook)) = 1)"
    using run_ws_flag [of JSON_parse hc evs'] by (simp add: flag_agrees_def)
next
  assume p: "processingRef s"
  then have n: "\<not> initiates ic s" by (simp add: initiates_def)
  from p n show "frameQueueRef (processNextFrame ic now s) = frameQueueRef s"
    "readers (processNextFrame ic now s) = readers s" "processingRef (processNextFrame ic now s)"
    "frames_taken (effects (processNextFrame ic now s)) = frames_taken (effects s)"
    by (simp_all add: processNextFrame_fields)
  from p n show "frameQueueRef (processNextFrame_ws ic now s) = frameQueueRef s"
    "readers (processNextFrame_ws ic now s) = readers s" "processingRef (processNextFrame_ws ic now s)"
    "frames_taken (effects (processNextFrame_ws ic now s)) = frames_taken (effects s)"
    by (simp_all add: processNextFrame_ws_fields)
  from p have i: "\<not> idle_ready s" by (simp add: idle_ready_def)
  from p queueFrame_busy [OF i, of now b]
  show "readers (queueFrame now b s) = readers s" "processingRef (queueFrame now b s)"
    "frames_taken (effects (queueFrame now b s)) = frames_taken (effects s)"
    by simp_all
  from p queueFrame_ws_busy [OF i, of now b]
  show "readers (queueFrame_ws now b s) = readers s" "processingRef (queueFrame_ws now b s)"
    "frames_taken (effects (queueFrame_ws now b s)) = frames_taken (effects s)"
    by simp_all
next
  assume "processingRef s \<and> \<not> processingRef (step JSON_parse hc s e)"
  then show "(\<exists>t d. e = Onmessage t d) \<or> e = Onclose \<or> (\<exists>m. e = Onerror m) \<or>
      (\<exists>i t. e = ReaderOnload i t) \<or> (\<exists>i. e = ReaderOnerror i)"
    using step_keeps_flag by blast
next
  assume "processingRef s \<and> \<not> processingRef (step_ws JSON_parse hc s e')"
  then show "(\<exists>t d. e' = Onmessage_ws t d) \<or> e' = Onclose_ws \<or> (\<exists>m. e' = Onerror_ws m) \<or>
      (\<exists>i t m. e' = ReaderOnload_ws i t m) \<or> (\<exists>i m. e' = ReaderOnerror_ws i m)"
    using step_ws_keeps_flag by blast
next
  assume "wsRef s = Some OPEN"
  then show "WsSend [0, 1, 2, 3, 4] \<in> set (effects (onopen_ws hc now s))"
    by (rule onopen_ws_test_data)
qed

lemmas evaluate_hook =
  run_def run_ws_def initial_hook_def connect_def onopen_def onopen_ws_def Let_def
  queueFrame_def queueFrame_ws_def processNextFrame_def processNextFrame_ws_def emit_def
  clear_processing_def reader_onload_def reader_onload_ws_def onmessage_def measure_latency_def
  log_parsed_response_def JSON_parse_sample_def drop_oldest.simps MAX_QUEUE_SIZE_def
  processedBlob_def frame_A_def frame_B_def

lemma early_message_effects:
  "wire (effects (run JSON_parse_sample False
       [Connect False None, SocketState OPEN, Onopen 0, QueueFrame 1 frame_A, Onmessage 2 ''{}'',
        QueueFrame 3 frame_B, ReaderOnload 0 False, ReaderOnload 0 False] initial_hook)) =
     [ConsoleLog ''Received message:'', WsSend [255, 216, 1], WsSend [255, 216, 2]]"
  by (simp add: evaluate_hook wire_def)

lemma test_data_effects:
  "wire (effects (run_ws JSON_parse_sample False
       [Connect_ws False None, SocketState_ws OPEN, Onopen_ws 0, QueueFrame_ws 1 frame_A,
        ReaderOnload_ws 0 False None] initial_hook)) =
     [WsSend [0, 1, 2, 3, 4], WsSend [255, 216, 1]]"
  by (simp add: evaluate_hook wire_def)

lemma sends_awaiting_wire: "sends_awaiting (wire es) = sends_awaiting es"
proof (induction es rule: rev_induct)
  case Nil
  then show ?case by (simp add: wire_def)
next
  case (snoc e es)
  then show ?case
    by (cases e) (simp_all add: wire_def awaiting_step_def)
qed

theorem two_sends_awaiting_counterexample:
  "wire (effects (run_ws JSON_parse_sample False
       [Connect_ws False None, SocketState_ws OPEN, Onopen_ws 0, QueueFrame_ws 1 frame_A,
        ReaderOnload_ws 0 False None] initial_hook)) =
     [WsSend [0, 1, 2, 3, 4], WsSend [255, 216, 1]] \<and>
   sends_awaiting (effects (run_ws JSON_parse_sample False
       [Connect_ws False None, SocketState_ws OPEN, Onopen_ws 0, QueueFrame_ws 1 frame_A,
        ReaderOnload_ws 0 False None] initial_hook)) = 2 \<and>
   wire (effects (run JSON_parse_sample False
       [Connect False None, SocketState OPEN, Onopen 0, QueueFrame 1 frame_A, Onmessage 2 ''{}'',
        QueueFrame 3 frame_B, ReaderOnload 0 False, ReaderOnload 0 False] initial_hook)) =
     [ConsoleLog ''Received message:'', WsSend [255, 216, 1], WsSend [255, 216, 2]] \<and>
   sends_awaiting (effects (run JSON_parse_sample False
       [Connect False None, SocketState OPEN, Onopen 0, QueueFrame 1 frame_A, Onmessage 2 ''{}'',
        QueueFrame 3 frame_B, ReaderOnload 0 False, ReaderOnload 0 False] initial_hook)) = 2"
proof -
  have a: "sends_awaiting (effects (run_ws JSON_parse_sample False
       [Connect_ws False None, SocketState_ws OPEN, Onopen_ws 0, QueueFrame_ws 1 frame_A,
        ReaderOnload_ws 0 False None] initial_hook)) = 2"
    using sends_awaiting_wire [of "effects (run_ws JSON_parse_sample False
       [Connect_ws False None, SocketState_ws OPEN, Onopen_ws 0, QueueFrame_ws 1 frame_A,
        ReaderOnload_ws 0 False None] initial_hook)"]
    by (simp add: test_data_effects sends_awaiting_def awaiting_step_def)
  have b: "sends_awaiting (effects (run JSON_parse_sample False
       [Connect False None, SocketState OPEN, Onopen 0, QueueFrame 1 frame_A, Onmessage 2 ''{}'',
        QueueFrame 3 frame_B, ReaderOnload 0 False, ReaderOnload 0 False] initial_hook)) = 2"
    using sends_awaiting_wire [of "effects (run JSON_parse_sample False
       [Connect False None, SocketState OPEN, Onopen 0, QueueFrame 1 frame_A, Onmessage 2 ''{}'',
        QueueFrame 3 frame_B, ReaderOnload 0 False, ReaderOnload 0 False] initial_hook)"]
    by (simp add: early_message_effects sends_awaiting_def awaiting_step_def)
  show ?thesis
    by (intro conjI) (rule test_data_effects, rule a, rule early_message_effects, rule b)
qed

text \<open>
  In the state \<open>awaiting_response\<close> the flag is set. \<open>processNextFrame\<close> is called there as
  \<open>queueFrame\<close> calls it in the connected hook, with \<open>isConnected = true\<close>, and as the second
  hook's does.
\<close>

theorem one_frame_taken_while_flag_pending_witness:
  "frames_taken (effects awaiting_response) = 1 \<and>
   frameQueueRef (processNextFrame True 3 awaiting_response) = [frame_B] \<and>
   readers (processNextFrame True 3 awaiting_response) = [] \<and>
   frameQueueRef (processNextFrame_ws True 3 awaiting_response) = [frame_B] \<and>
   readers (queueFrame 3 frame_A awaiting_response) = [] \<and>
   readers (queueFrame_ws 3 frame_A awaiting_response) = [] \<and>
   \<not> processingRef (step JSON_parse_sample False awaiting_response Onclose) \<and>
   \<not> processingRef (step_ws JSON_parse_sample False awaiting_response Onclose_ws) \<and>
   WsSend [0, 1, 2, 3, 4] \<in> set (effects (onopen_ws False 3 awaiting_response)) \<and>
   frames_taken (effects (run_ws JSON_parse_sample False
       [Connect_ws False None, SocketState_ws OPEN, Onopen_ws 0, QueueFrame_ws 1 frame_A,
        QueueFrame_ws 2 frame_B] initial_hook)) = 1"
proof -
  note f = awaiting_response_fields
  from f have p: "processingRef awaiting_response" by simp
  from f have w: "wsRef awaiting_response = Some OPEN" by simp
  note t = one_frame_taken_while_flag_pending
    [where JSON_parse = JSON_parse_sample and hc = False and s = awaiting_response and ic = True
       and now = 3 and b = frame_A and e = Onclose and e' = Onclose_ws
       and evs = "[Connect False None, SocketState OPEN, Onopen 0, QueueFrame 1 frame_A,
                   ReaderOnload 0 False, QueueFrame 2 frame_B]"
       and evs' = "[Connect_ws False None, SocketState_ws OPEN, Onopen_ws 0, QueueFrame_ws 1 frame_A,
                    QueueFrame_ws 2 frame_B]"]
  have pw: "processingRef (run_ws JSON_parse_sample False
       [Connect_ws False None, SocketState_ws OPEN, Onopen_ws 0, QueueFrame_ws 1 frame_A,
        QueueFrame_ws 2 frame_B] initial_hook)"
    by (simp add: evaluate_hook)
  have c4: "frames_taken (effects (run_ws JSON_parse_sample False
       [Connect_ws False None, SocketState_ws OPEN, Onopen_ws 0, QueueFrame_ws 1 frame_A,
        QueueFrame_ws 2 frame_B] initial_hook)) = 1"
    using t [THEN conjunct2, THEN conjunct2, THEN conjunct2, THEN conjunct1] pw by simp
  have c3: "frames_taken (effects awaiting_response) = 1"
    using t [THEN conjunct2, THEN conjunct2, THEN conjunct1] p
    by (simp add: awaiting_response_def)
  note c5 = t [THEN conjunct2, THEN conjunct2, THEN conjunct2, THEN conjunct2, THEN conjunct1,
               rule_format, OF p]
  note c6 = t [THEN conjunct2, THEN conjunct2, THEN conjunct2, THEN conjunct2, THEN conjunct2,
               THEN conjunct1, rule_format, OF p]
  note c7 = t [THEN conjunct2, THEN conjunct2, THEN conjunct2, THEN conjunct2, THEN conjunct2,
               THEN conjunct2, THEN conjunct1, rule_format, OF p]
  note c10 = t [THEN conjunct2, THEN conjunct2, THEN conjunct2, THEN conjunct2, THEN conjunct2,
                THEN conjunct2, THEN conjunct2, THEN conjunct2, THEN conjunct2, rule_format, OF w]
  have c: "\<not> processingRef (step JSON_parse_sample False awaiting_response Onclose) \<and>
           \<not> processingRef (step_ws JSON_parse_sample False awaiting_response Onclose_ws)"
    by (simp add: onclose_def Let_def)
  from c3 c5 c6 c7 c10 c f have
    "frames_taken (effects awaiting_response) = 1 \<and>
     frameQueueRef (processNextFrame True 3 awaiting_response) = [frame_B] \<and>
     readers (processNextFrame True 3 awaiting_response) = [] \<and>
     frameQueueRef (processNextFrame_ws True 3 awaiting_response) = [frame_B] \<and>
     readers (queueFrame 3 frame_A awaiting_response) = [] \<and>
     readers (queueFrame_ws 3 frame_A awaiting_response) = [] \<and>
     \<not> processingRef (step JSON_parse_sample False awaiting_response Onclose) \<and>
     \<not> processingRef (step_ws JSON_parse_sample False awaiting_response Onclose_ws) \<and>
     WsSend [0, 1, 2, 3, 4] \<in> set (effects (onopen_ws False 3 awaiting_response))"
    by simp
  with c4 show ?thesis by blast
qed


section \<open>Messages that do not decode, and the reconnect delay\<close>

lemma onmessage_failure:
  assumes "JSON_parse d = None"
  shows "lastResponse (onmessage JSON_parse hc now d s) = lastResponse s"
    "\<not> processingRef (onmessage JSON_parse hc now d s)"
    "frameQueueRef (onmessage JSON_parse hc now d s) = frameQueueRef s"
    "readers (onmessage JSON_parse hc now d s) = readers s"
    "isConnected (onmessage JSON_parse hc now d s) = isConnected s"
    "wsRef (onmessage JSON_parse hc now d s) = wsRef s"
    "effects (onmessage JSON_parse hc now d s) =
       effects s @ [ConsoleLog ''Received message:''] @
       (if lastSentTimeRef s = None then [] else [ConsoleLog ''Round-trip latency:'']) @
       [ConsoleError ''Error parsing WebSocket message:'']"
  using assms
  by (simp_all add: onmessage_def Let_def measure_latency_def emit_def clear_processing_def
        split: option.splits)

lemma onmessage_success:
  "JSON_parse d = Some data \<Longrightarrow>
   onmessage JSON_parse hc now d s =
     processNextFrame hc now
       ((log_parsed_response data
           (measure_latency now (clear_processing (emit (ConsoleLog ''Received message:'') s))))
        \<lparr>lastResponse := data\<rparr>)"
  by (simp add: onmessage_def Let_def)

lemma processNextFrame_stale:
  "\<not> processingRef s \<Longrightarrow>
   effects (processNextFrame False now s) =
     effects s @ [ConsoleLog ''Not processing frame: Not connected''] @
     (if frameQueueRef s = [] then [ConsoleLog ''Not processing frame: Queue empty''] else []) @
     (if wsRef s \<noteq> Some OPEN then [ConsoleLog ''Not processing frame: WebSocket not ready''] else [])"
  by (simp add: processNextFrame_def Let_def)

lemma onmessage_stale:
  assumes "JSON_parse d = Some data"
  shows "lastResponse (onmessage JSON_parse False now d s) = data"
    "\<not> processingRef (onmessage JSON_parse False now d s)"
    "frameQueueRef (onmessage JSON_parse False now d s) = frameQueueRef s"
    "readers (onmessage JSON_parse False now d s) = readers s"
    "effects (onmessage JSON_parse False now d s) =
       effects (log_parsed_response data
         (measure_latency now (clear_processing (emit (ConsoleLog ''Received message:'') s)))) @
       [ConsoleLog ''Not processing frame: Not connected''] @
       (if frameQueueRef s = [] then [ConsoleLog ''Not processing frame: Queue empty''] else []) @
       (if wsRef s \<noteq> Some OPEN then [ConsoleLog ''Not processing frame: WebSocket not ready'']
        else [])"
proof -
  let ?s = "(log_parsed_response data
           (measure_latency now (clear_processing (emit (ConsoleLog ''Received message:'') s))))
        \<lparr>lastResponse := data\<rparr>"
  have n: "\<not> initiates False ?s" by (simp add: initiates_def)
  have e: "onmessage JSON_parse False now d s = processNextFrame False now ?s"
    using assms by (rule onmessage_success)
  show "lastResponse (onmessage JSON_parse False now d s) = data"
    by (simp add: e processNextFrame_same)
  show "\<not> processingRef (onmessage JSON_parse False now d s)"
    using n by (simp add: e processNextFrame_fields)
  show "frameQueueRef (onmessage JSON_parse False now d s) = frameQueueRef s"
    using n by (simp add: e processNextFrame_fields)
  show "readers (onmessage JSON_parse False now d s) = readers s"
    using n by (simp add: e processNextFrame_fields)
  have "\<not> processingRef ?s" by simp
  from processNextFrame_stale [OF this, of now]
  show "effects (onmessage JSON_parse False now d s) =
       effects (log_parsed_response data
         (measure_latency now (clear_processing (emit (ConsoleLog ''Received message:'') s)))) @
       [ConsoleLog ''Not processing frame: Not connected''] @
       (if frameQueueRef s = [] then [ConsoleLog ''Not processing frame: Queue empty''] else []) @
       (if wsRef s \<noteq> Some OPEN then [ConsoleLog ''Not processing frame: WebSocket not ready'']
        else [])"
    by (simp add: e)
qed

lemma sample_bad: "JSON_parse_sample ''oops'' = None"
  by (simp add: JSON_parse_sample_def)

lemma sample_good: "JSON_parse_sample ''{}'' = Some (JObj [])"
  by (simp add: JSON_parse_sample_def)

lemma measure_latency_effects:
  "effects (measure_latency now s) =
     effects s @ (if lastSentTimeRef s = None then [] else [ConsoleLog ''Round-trip latency:''])"
  by (simp add: measure_latency_def split: option.splits)

lemma log_parsed_response_empty:
  "effects (log_parsed_response (JObj []) s) =
     effects s @ [ConsoleLog ''Parsed response data:'',
                  ConsoleWarn ''Response missing predictions property'']"
  by (simp add: log_parsed_response_def Let_def)

text \<open>
  Claim C3. When the body of a message does not decode, the failure is caught and logged
  with \<open>console.error\<close>, \<open>lastResponse\<close> is left as it is and the flag is cleared. The next
  send is not attempted: the call of \<open>processNextFrame\<close> is inside the \<open>try\<close> block, after
  \<open>JSON.parse\<close>, so the handler ends in its \<open>catch\<close>, the queue is as before and nothing is
  read or sent, even when a frame is waiting and the socket is open. The frame waits for
  the next call of \<open>queueFrame\<close>. After a message that decodes the handler does call
  \<open>processNextFrame\<close>, but the one of the first render, which sees \<open>isConnected = false\<close>: it
  prints why it does nothing and takes no frame either. The comment in the source at that
  call reads \<open>Process next frame immediately after receiving a response\<close>.
\<close>

theorem onmessage_decode_failure:
  "(JSON_parse d = None \<longrightarrow>
      lastResponse (onmessage JSON_parse hc now d s) = lastResponse s \<and>
      \<not> processingRef (onmessage JSON_parse hc now d s) \<and>
      frameQueueRef (onmessage JSON_parse hc now d s) = frameQueueRef s \<and>
      readers (onmessage JSON_parse hc now d s) = readers s \<and>
      effects (onmessage JSON_parse hc now d s) =
        effects s @ [ConsoleLog ''Received message:''] @
        (if lastSentTimeRef s = None then [] else [ConsoleLog ''Round-trip latency:'']) @
        [ConsoleError ''Error parsing WebSocket message:'']) \<and>
   (JSON_parse d = None \<and> isConnected s \<and> wsRef s = Some OPEN \<longrightarrow>
      processingRef (queueFrame now' b (onmessage JSON_parse hc now d s)) \<and>
      readers (queueFrame now' b (onmessage JSON_parse hc now d s)) =
        readers s @ [hd (push_frame (frameQueueRef s) (processedBlob b))] \<and>
      frameQueueRef (queueFrame now' b (onmessage JSON_parse hc now d s)) =
        tl (push_frame (frameQueueRef s) (processedBlob b))) \<and>
   (JSON_parse d = Some data \<longrightarrow>
      lastResponse (onmessage JSON_parse False now d s) = data \<and>
      \<not> processingRef (onmessage JSON_parse False now d s) \<and>
      frameQueueRef (onmessage JSON_parse False now d s) = frameQueueRef s \<and>
      readers (onmessage JSON_parse False now d s) = readers s \<and>
      effects (onmessage JSON_parse False now d s) =
        effects (log_parsed_response data
          (measure_latency now (clear_processing (emit (ConsoleLog ''Received message:'') s)))) @
        [ConsoleLog ''Not processing frame: Not connected''] @
        (if frameQueueRef s = [] then [ConsoleLog ''Not processing frame: Queue empty''] else []) @
        (if wsRef s \<noteq> Some OPEN then [ConsoleLog ''Not processing frame: WebSocket not ready'']
         else []))"
proof (intro conjI impI)
  assume n: "JSON_parse d = None"
  show "lastResponse (onmessage JSON_parse hc now d s) = lastResponse s"
    "\<not> processingRef (onmessage JSON_parse hc now d s)"
    "frameQueueRef (onmessage JSON_parse hc now d s) = frameQueueRef s"
    "readers (onmessage JSON_parse hc now d s) = readers s"
    "effects (onmessage JSON_parse hc now d s) =
        effects s @ [ConsoleLog ''Received message:''] @
        (if lastSentTimeRef s = None then [] else [ConsoleLog ''Round-trip latency:'']) @
        [ConsoleError ''Error parsing WebSocket message:'']"
    by (rule onmessage_failure [of JSON_parse d, OF n])+
next
  assume a: "JSON_parse d = None \<and> isConnected s \<and> wsRef s = Some OPEN"
  then have n: "JSON_parse d = None" by simp
  have "idle_ready (onmessage JSON_parse hc now d s)"
    using a by (simp add: idle_ready_def onmessage_failure [of JSON_parse d, OF n])
  from queueFrame_idle [OF this, of now' b]
  show "processingRef (queueFrame now' b (onmessage JSON_parse hc now d s))"
    "readers (queueFrame now' b (onmessage JSON_parse hc now d s)) =
        readers s @ [hd (push_frame (frameQueueRef s) (processedBlob b))]"
    "frameQueueRef (queueFrame now' b (onmessage JSON_parse hc now d s)) =
        tl (push_frame (frameQueueRef s) (processedBlob b))"
    by (simp_all add: onmessage_failure [of JSON_parse d, OF n])
next
  assume g: "JSON_parse d = Some data"
  show "lastResponse (onmessage JSON_parse False now d s) = data"
    "\<not> processingRef (onmessage JSON_parse False now d s)"
    "frameQueueRef (onmessage JSON_parse False now d s) = frameQueueRef s"
    "readers (onmessage JSON_parse False now d s) = readers s"
    "effects (onmessage JSON_parse False now d s) =
        effects (log_parsed_response data
          (measure_latency now (clear_processing (emit (ConsoleLog ''Received message:'') s)))) @
        [ConsoleLog ''Not processing frame: Not connected''] @
        (if frameQueueRef s = [] then [ConsoleLog ''Not processing frame: Queue empty''] else []) @
        (if wsRef s \<noteq> Some OPEN then [ConsoleLog ''Not processing frame: WebSocket not ready'']
         else [])"
    by (rule onmessage_stale [where JSON_parse = JSON_parse and d = d and data = data, OF g])+
qed

theorem onmessage_decode_failure_witness:
  "processingRef awaiting_response \<and> frameQueueRef awaiting_response = [frame_B] \<and>
   isConnected awaiting_response \<and> wsRef awaiting_response = Some OPEN \<and>
   lastResponse (onmessage JSON_parse_sample False 3 ''oops'' awaiting_response) = JNull \<and>
   \<not> processingRef (onmessage JSON_parse_sample False 3 ''oops'' awaiting_response) \<and>
   frameQueueRef (onmessage JSON_parse_sample False 3 ''oops'' awaiting_response) = [frame_B] \<and>
   readers (onmessage JSON_parse_sample False 3 ''oops'' awaiting_response) = [] \<and>
   effects (onmessage JSON_parse_sample False 3 ''oops'' awaiting_response) =
     effects awaiting_response @
     [ConsoleLog ''Received message:'', ConsoleLog ''Round-trip latency:'',
      ConsoleError ''Error parsing WebSocket message:''] \<and>
   readers (queueFrame 4 frame_A (onmessage JSON_parse_sample False 3 ''oops'' awaiting_response)) =
     [frame_B] \<and>
   frameQueueRef (queueFrame 4 frame_A (onmessage JSON_parse_sample False 3 ''oops'' awaiting_response)) =
     [frame_A] \<and>
   lastResponse (onmessage JSON_parse_sample False 3 ''{}'' awaiting_response) = JObj [] \<and>
   \<not> processingRef (onmessage JSON_parse_sample False 3 ''{}'' awaiting_response) \<and>
   frameQueueRef (onmessage JSON_parse_sample False 3 ''{}'' awaiting_response) = [frame_B] \<and>
   readers (onmessage JSON_parse_sample False 3 ''{}'' awaiting_response) = [] \<and>
   effects (onmessage JSON_parse_sample False 3 ''{}'' awaiting_response) =
     effects awaiting_response @
     [ConsoleLog ''Received message:'', ConsoleLog ''Round-trip latency:'',
      ConsoleLog ''Parsed response data:'', ConsoleWarn ''Response missing predictions property'',
      ConsoleLog ''Not processing frame: Not connected'']"
proof -
  note f = awaiting_response_fields
  have h1: "JSON_parse_sample ''oops'' = None" by (rule sample_bad)
  have h2: "JSON_parse_sample ''oops'' = None \<and> isConnected awaiting_response \<and>
            wsRef awaiting_response = Some OPEN"
    using f by (simp add: sample_bad)
  have h3: "JSON_parse_sample ''{}'' = Some (JObj [])" by (rule sample_good)
  note a = onmessage_decode_failure
    [where JSON_parse = JSON_parse_sample and d = "''oops''" and hc = False and now = 3
       and s = awaiting_response, THEN conjunct1, rule_format, OF h1]
  note b = onmessage_decode_failure
    [where JSON_parse = JSON_parse_sample and d = "''oops''" and hc = False and now = 3
       and s = awaiting_response and now' = 4 and b = frame_A,
     THEN conjunct2, THEN conjunct1, rule_format, OF h2]
  note c = onmessage_decode_failure
    [where JSON_parse = JSON_parse_sample and d = "''{}''" and now = 3
       and s = awaiting_response and data = "JObj []",
     THEN conjunct2, THEN conjunct2, rule_format, OF h3]
  from a b c f show ?thesis
    by (simp add: push_frame_def processedBlob_def frame_A_def frame_B_def
          measure_latency_effects log_parsed_response_empty)
qed

lemma reconnect_delay_mono: "m \<le> n \<Longrightarrow> reconnect_delay m \<le> reconnect_delay n"
proof -
  assume "m \<le> n"
  then have "min m 10 \<le> min n 10" by simp
  then have "(3 / 2 :: real) ^ min m 10 \<le> (3 / 2) ^ min n 10"
    by (intro power_increasing) simp_all
  then have "(2000 :: real) * (3 / 2) ^ min m 10 \<le> 2000 * (3 / 2) ^ min n 10" by simp
  then show ?thesis unfolding reconnect_delay_def by (rule min.mono) simp
qed

lemma reconnect_delay_bound: "reconnect_delay n \<le> 30000"
  by (simp add: reconnect_delay_def)

lemma onclose_effects:
  "effects (onclose s) =
     effects s @ [ConsoleLog ''WebSocket disconnected'', ConsoleLog ''Will attempt to reconnect'',
                  SetTimeout (min (2000 * (3 / 2) ^ min (connectionAttempts s) 10) 30000)]"
  by (simp add: onclose_def Let_def reconnect_delay_def)

lemma onopen_attempts: "connectionAttempts (onopen hc now s) = 0"
  by (simp add: onopen_def processNextFrame_same)

text \<open>
  Claim C4. The timer that \<open>onclose\<close> starts has the delay
  \<open>min (2000 * 1.5 ^ min attempts 10) 30000\<close>, \<open>attempts\<close> being \<open>connectionAttempts.current\<close>.
  The delay does not decrease when \<open>attempts\<close> grows, and is never above 30000. \<open>onopen\<close> sets
  the counter to zero, so that a close which follows it waits 2000 ms.
\<close>

theorem reconnect_delay_backoff:
  "effects (onclose s) =
     effects s @ [ConsoleLog ''WebSocket disconnected'', ConsoleLog ''Will attempt to reconnect'',
                  SetTimeout (min (2000 * (3 / 2) ^ min (connectionAttempts s) 10) 30000)] \<and>
   reconnect_delay attempts = min (2000 * (3 / 2) ^ min attempts 10) 30000 \<and>
   (m \<le> n \<longrightarrow> reconnect_delay m \<le> reconnect_delay n) \<and>
   reconnect_delay attempts \<le> 30000 \<and>
   connectionAttempts (onopen hc now s) = 0 \<and>
   effects (onclose (onopen hc now s)) =
     effects (onopen hc now s) @
     [ConsoleLog ''WebSocket disconnected'', ConsoleLog ''Will attempt to reconnect'', SetTimeout 2000]"
  using reconnect_delay_mono [of m n] reconnect_delay_bound [of attempts] onopen_attempts [of hc now s]
  by (simp add: onclose_effects reconnect_delay_def)

theorem reconnect_delay_backoff_witness:
  "reconnect_delay 1 \<le> reconnect_delay 3 \<and> reconnect_delay 1 = 3000 \<and> reconnect_delay 3 = 6750 \<and>
   reconnect_delay 8 = 30000"
proof -
  have h: "(1::nat) \<le> 3" by simp
  from reconnect_delay_backoff
    [of initial_hook 1 1 3 False 0, THEN conjunct2, THEN conjunct2, THEN conjunct1, rule_format, OF h]
  show ?thesis by (simp add: reconnect_delay_def power_divide)
qed


section \<open>Properties of the exit log\<close>

lemma entry_id_sort_names [simp]: "entry_id (sort_names e) = entry_id e"
  by (simp add: entry_id_def sort_names_def sorted_sort_id)

lemma sort_names_idem: "sorted (names (sort_names e))"
  by (simp add: sort_names_def)

lemma ids_sorted_log: "map entry_id (map sort_names entries) = map entry_id entries"
  by (induction entries) simp_all

lemma ids_sorted_log_comp: "map (entry_id \<circ> sort_names) entries = map entry_id entries"
  by (induction entries) simp_all

lemma push_duplicate:
  "ids \<noteq> [] \<Longrightarrow> e \<in> set prevLog \<Longrightarrow> sort (names e) = sort ids \<Longrightarrow> sortTime e = Some now \<Longrightarrow>
   lastResponse_effect fmt now (Some ids) prevLog = (map sort_names prevLog, Some (sort ids))"
proof -
  assume a: "ids \<noteq> []" "e \<in> set prevLog" "sort (names e) = sort ids" "sortTime e = Some now"
  then have "entry_id e = join_js '','' (sort ids) @ ''-'' @ number_text (Some now)"
    by (simp add: entry_id_def)
  with a(2) have "join_js '','' (sort ids) @ ''-'' @ number_text (Some now) \<in> set (map entry_id prevLog)"
    by (metis image_eqI set_map)
  with a(1) show ?thesis by (simp add: lastResponse_effect_def Let_def)
qed

lemma push_new:
  "ids \<noteq> [] \<Longrightarrow> join_js '','' (sort ids) @ ''-'' @ number_text (Some now) \<notin> set (map entry_id prevLog) \<Longrightarrow>
   lastResponse_effect fmt now (Some ids) prevLog =
     (take 20 (\<lparr>names = sort ids, timestamp = fmt (Some now), sortTime = Some now\<rparr> # map sort_names prevLog),
      Some (sort ids))"
  by (simp add: lastResponse_effect_def Let_def)

lemma push_distinct:
  "distinct (map entry_id prevLog) \<Longrightarrow>
   distinct (map entry_id (fst (lastResponse_effect fmt now exit_ids prevLog)))"
proof (cases exit_ids)
  case None
  assume "distinct (map entry_id prevLog)"
  with None show ?thesis by (simp add: lastResponse_effect_def)
next
  case (Some ids)
  assume d: "distinct (map entry_id prevLog)"
  show ?thesis
  proof (cases "ids = []")
    case True
    with d Some show ?thesis by (simp add: lastResponse_effect_def)
  next
    case False
    let ?k = "join_js '','' (sort ids) @ ''-'' @ number_text (Some now)"
    show ?thesis
    proof (cases "?k \<in> set (map entry_id prevLog)")
      case True
      with d Some False show ?thesis by (simp add: lastResponse_effect_def Let_def ids_sorted_log_comp)
    next
      case False2: False
      have "distinct (map entry_id (\<lparr>names = sort ids, timestamp = fmt (Some now), sortTime = Some now\<rparr> # map sort_names prevLog))"
      proof -
        have "entry_id \<lparr>names = sort ids, timestamp = fmt (Some now), sortTime = Some now\<rparr> = ?k"
          by (simp add: entry_id_def sorted_sort_id)
        with d False2 show ?thesis by (simp add: ids_sorted_log_comp)
      qed
      then have "distinct (map entry_id (take 20 (\<lparr>names = sort ids, timestamp = fmt (Some now), sortTime = Some now\<rparr> # map sort_names prevLog)))"
        unfolding take_map [symmetric] by (rule distinct_take)
      with Some False False2 show ?thesis by (simp add: push_new)
    qed
  qed
qed

lemma exits_callback_cases:
  "exits_callback D fmt (ex, ne) exit =
     (if exit_id D exit \<in> set ex then (ex, ne)
      else (ex @ [exit_id D exit],
            ne @ [\<lparr>names = [fst exit], timestamp = fmt (D (snd exit)), sortTime = D (snd exit)\<rparr>]))"
  by (cases exit) (simp add: exits_callback_def exit_id_def Let_def)

lemma new_entry_id:
  "entry_id \<lparr>names = [nm], timestamp = t, sortTime = st\<rparr> = exit_id D (nm, ts) \<longleftrightarrow>
   number_text st = number_text (D ts)"
  by (simp add: entry_id_def exit_id_def)

lemma entry_id_new [simp]:
  "entry_id \<lparr>names = [fst exit], timestamp = t, sortTime = D (snd exit)\<rparr> = exit_id D exit"
  by (simp add: entry_id_def exit_id_def)

lemma fold_exits_shape:
  "fst (foldl (exits_callback D fmt) (base @ map entry_id ne0, ne0) exits) =
     base @ map entry_id (snd (foldl (exits_callback D fmt) (base @ map entry_id ne0, ne0) exits))"
proof (induction exits arbitrary: ne0)
  case Nil
  then show ?case by simp
next
  case (Cons x xs)
  show ?case
  proof (cases "exit_id D x \<in> set (base @ map entry_id ne0)")
    case True
    then show ?thesis using Cons.IH [of ne0] by (simp add: exits_callback_cases)
  next
    case False
    then show ?thesis
      using Cons.IH [of "ne0 @ [\<lparr>names = [fst x], timestamp = fmt (D (snd x)), sortTime = D (snd x)\<rparr>]"]
      by (simp add: exits_callback_cases)
  qed
qed

lemma fold_exits_distinct:
  "distinct (base @ map entry_id ne0) \<Longrightarrow>
   distinct (base @ map entry_id (snd (foldl (exits_callback D fmt) (base @ map entry_id ne0, ne0) exits)))"
proof (induction exits arbitrary: ne0)
  case Nil
  then show ?case by simp
next
  case (Cons x xs)
  show ?case
  proof (cases "exit_id D x \<in> set (base @ map entry_id ne0)")
    case True
    then show ?thesis using Cons.IH [OF Cons.prems] by (simp add: exits_callback_cases)
  next
    case False
    let ?ne = "ne0 @ [\<lparr>names = [fst x], timestamp = fmt (D (snd x)), sortTime = D (snd x)\<rparr>]"
    from False Cons.prems have "distinct (base @ map entry_id ?ne)" by auto
    from Cons.IH [OF this] False show ?thesis by (simp add: exits_callback_cases)
  qed
qed

lemma fold_exits_keeps:
  "set (fst acc) \<subseteq> set (fst (foldl (exits_callback D fmt) acc exits))"
proof (induction exits arbitrary: acc)
  case Nil
  then show ?case by simp
next
  case (Cons x xs)
  obtain ex ne where acc: "acc = (ex, ne)" by (cases acc)
  have "set (fst acc) \<subseteq> set (fst (exits_callback D fmt acc x))"
    by (auto simp: acc exits_callback_cases)
  with Cons.IH [of "exits_callback D fmt acc x"] show ?case by auto
qed

lemma fold_exits_seen:
  "x \<in> set exits \<Longrightarrow> exit_id D x \<in> set (fst (foldl (exits_callback D fmt) acc exits))"
proof (induction exits arbitrary: acc)
  case Nil
  then show ?case by simp
next
  case (Cons y ys)
  obtain ex ne where acc: "acc = (ex, ne)" by (cases acc)
  show ?case
  proof (cases "x = y")
    case True
    have "exit_id D y \<in> set (fst (exits_callback D fmt acc y))"
      by (simp add: acc exits_callback_cases)
    with fold_exits_keeps [of "exits_callback D fmt acc y" D fmt ys] True show ?thesis by auto
  next
    case False
    with Cons.prems have "x \<in> set ys" by simp
    from Cons.IH [OF this, of "exits_callback D fmt acc y"] show ?thesis by simp
  qed
qed

lemma fold_exits_skip:
  "exit_id D x \<in> set (fst (foldl (exits_callback D fmt) acc exits)) \<Longrightarrow>
   foldl (exits_callback D fmt) acc (exits @ [x]) = foldl (exits_callback D fmt) acc exits"
proof -
  assume a: "exit_id D x \<in> set (fst (foldl (exits_callback D fmt) acc exits))"
  obtain ex ne where r: "foldl (exits_callback D fmt) acc exits = (ex, ne)"
    by (cases "foldl (exits_callback D fmt) acc exits")
  with a show ?thesis by (simp add: exits_callback_cases)
qed

lemma fetch_skip_known:
  assumes "e \<in> set prevLog" "entry_id e = exit_id D x"
  shows "fetchAllExits D fmt (exits @ [x]) prevLog = fetchAllExits D fmt exits prevLog"
proof -
  from assms have "exit_id D x \<in> set (fst (map entry_id prevLog, []::ExitLogEntry list))"
    by (metis fst_conv image_eqI set_map)
  then have "exit_id D x \<in> set (fst (foldl (exits_callback D fmt) (map entry_id prevLog, []) exits))"
    using fold_exits_keeps [of "(map entry_id prevLog, [])" D fmt exits] by blast
  from fold_exits_skip [OF this] show ?thesis by (simp add: fetchAllExits_def)
qed

lemma fetch_skip_repeated:
  assumes "y \<in> set exits" "exit_id D y = exit_id D x"
  shows "fetchAllExits D fmt (exits @ [x]) prevLog = fetchAllExits D fmt exits prevLog"
proof -
  from fold_exits_seen [OF assms(1), of D fmt "(map entry_id prevLog, [])"] assms(2)
  have "exit_id D x \<in> set (fst (foldl (exits_callback D fmt) (map entry_id prevLog, []) exits))"
    by simp
  from fold_exits_skip [OF this] show ?thesis by (simp add: fetchAllExits_def)
qed

lemma fetch_distinct:
  assumes "distinct (map entry_id prevLog)"
  shows "distinct (map entry_id (fetchAllExits D fmt exits prevLog))"
proof -
  let ?ne = "snd (foldl (exits_callback D fmt) (map entry_id prevLog, []) exits)"
  from fold_exits_distinct [of "map entry_id prevLog" "[]" D fmt exits] assms
  have "distinct (map entry_id prevLog @ map entry_id ?ne)" by simp
  then have "distinct (map entry_id (?ne @ map sort_names prevLog))"
    by (auto simp: ids_sorted_log_comp)
  then have "distinct (take 50 (map entry_id (?ne @ map sort_names prevLog)))"
    by (rule distinct_take)
  then show ?thesis by (simp add: fetchAllExits_def Let_def take_map)
qed

lemma fetch_shape:
  "fetchAllExits D fmt exits prevLog =
     take 50 (snd (foldl (exits_callback D fmt) (map entry_id prevLog, []) exits) @
              map sort_names prevLog)"
  by (simp add: fetchAllExits_def Let_def)

lemma log_after_push_value:
  "log_after_push = [\<lparr>names = [''bob''], timestamp = ''00:00:01'', sortTime = Some 1000\<rparr>]"
  by code_simp

lemma log_after_pull_value:
  "log_after_pull =
     [\<lparr>names = [''p1''], timestamp = ''00:00:00'', sortTime = Some 1\<rparr>,
      \<lparr>names = [''p2''], timestamp = ''00:00:00'', sortTime = Some 2\<rparr>,
      \<lparr>names = [''p3''], timestamp = ''00:00:00'', sortTime = Some 3\<rparr>,
      \<lparr>names = [''p4''], timestamp = ''00:00:00'', sortTime = Some 4\<rparr>,
      \<lparr>names = [''p5''], timestamp = ''00:00:00'', sortTime = Some 5\<rparr>,
      \<lparr>names = [''p6''], timestamp = ''00:00:00'', sortTime = Some 6\<rparr>,
      \<lparr>names = [''p7''], timestamp = ''00:00:00'', sortTime = Some 7\<rparr>,
      \<lparr>names = [''p8''], timestamp = ''00:00:00'', sortTime = Some 8\<rparr>,
      \<lparr>names = [''p9''], timestamp = ''00:00:00'', sortTime = Some 9\<rparr>,
      \<lparr>names = [''p10''], timestamp = ''00:00:00'', sortTime = Some 10\<rparr>,
      \<lparr>names = [''p11''], timestamp = ''00:00:00'', sortTime = Some 11\<rparr>,
      \<lparr>names = [''p12''], timestamp = ''00:00:00'', sortTime = Some 12\<rparr>,
      \<lparr>names = [''p13''], timestamp = ''00:00:00'', sortTime = Some 13\<rparr>,
      \<lparr>names = [''p14''], timestamp = ''00:00:00'', sortTime = Some 14\<rparr>,
      \<lparr>names = [''p15''], timestamp = ''00:00:00'', sortTime = Some 15\<rparr>,
      \<lparr>names = [''p16''], timestamp = ''00:00:00'', sortTime = Some 16\<rparr>,
      \<lparr>names = [''p17''], timestamp = ''00:00:00'', sortTime = Some 17\<rparr>,
      \<lparr>names = [''p18''], timestamp = ''00:00:00'', sortTime = Some 18\<rparr>,
      \<lparr>names = [''p19''], timestamp = ''00:00:00'', sortTime = Some 19\<rparr>,
      \<lparr>names = [''bob''], timestamp = ''00:00:01'', sortTime = Some 1000\<rparr>]"
  by code_simp

lemma log_after_second_push_value:
  "log_after_second_push =
     [\<lparr>names = [''dan'', ''eve''], timestamp = ''00:00:02'', sortTime = Some 2000\<rparr>,
      \<lparr>names = [''p1''], timestamp = ''00:00:00'', sortTime = Some 1\<rparr>,
      \<lparr>names = [''p2''], timestamp = ''00:00:00'', sortTime = Some 2\<rparr>,
      \<lparr>names = [''p3''], timestamp = ''00:00:00'', sortTime = Some 3\<rparr>,
      \<lparr>names = [''p4''], timestamp = ''00:00:00'', sortTime = Some 4\<rparr>,
      \<lparr>names = [''p5''], timestamp = ''00:00:00'', sortTime = Some 5\<rparr>,
      \<lparr>names = [''p6''], timestamp = ''00:00:00'', sortTime = Some 6\<rparr>,
      \<lparr>names = [''p7''], timestamp = ''00:00:00'', sortTime = Some 7\<rparr>,
      \<lparr>names = [''p8''], timestamp = ''00:00:00'', sortTime = Some 8\<rparr>,
      \<lparr>names = [''p9''], timestamp = ''00:00:00'', sortTime = Some 9\<rparr>,
      \<lparr>names = [''p10''], timestamp = ''00:00:00'', sortTime = Some 10\<rparr>,
      \<lparr>names = [''p11''], timestamp = ''00:00:00'', sortTime = Some 11\<rparr>,
      \<lparr>names = [''p12''], timestamp = ''00:00:00'', sortTime = Some 12\<rparr>,
      \<lparr>names = [''p13''], timestamp = ''00:00:00'', sortTime = Some 13\<rparr>,
      \<lparr>names = [''p14''], timestamp = ''00:00:00'', sortTime = Some 14\<rparr>,
      \<lparr>names = [''p15''], timestamp = ''00:00:00'', sortTime = Some 15\<rparr>,
      \<lparr>names = [''p16''], timestamp = ''00:00:00'', sortTime = Some 16\<rparr>,
      \<lparr>names = [''p17''], timestamp = ''00:00:00'', sortTime = Some 17\<rparr>,
      \<lparr>names = [''p18''], timestamp = ''00:00:00'', sortTime = Some 18\<rparr>,
      \<lparr>names = [''p19''], timestamp = ''00:00:00'', sortTime = Some 19\<rparr>]"
  unfolding log_after_second_push_def log_after_pull_value by code_simp

lemma entry_exit_id:
  "sort (names e) = [nm] \<Longrightarrow> sortTime e = D ts \<Longrightarrow> entry_id e = exit_id D (nm, ts)"
  by (simp add: entry_id_def exit_id_def)

lemma handleVideoStop_push:
  "handleVideoStop fmt now exits prevLog =
     fst (lastResponse_effect fmt now (map_option (map item_text) exits) prevLog)"
  by (cases exits) (simp_all add: handleVideoStop_def lastResponse_effect_def Let_def)

lemma push_known:
  "ids \<noteq> [] \<Longrightarrow>
   join_js '','' (sort ids) @ ''-'' @ number_text (Some now) \<in> set (map entry_id prevLog) \<Longrightarrow>
   fst (lastResponse_effect fmt now (Some ids) prevLog) = map sort_names prevLog"
  by (simp add: lastResponse_effect_def Let_def)

lemma fetch_skip_identifier:
  assumes "exit_id D x \<in> set (map entry_id prevLog) \<or> (\<exists>y \<in> set exits. exit_id D y = exit_id D x)"
  shows "fetchAllExits D fmt (exits @ [x]) prevLog = fetchAllExits D fmt exits prevLog"
  using assms
proof
  assume "exit_id D x \<in> set (map entry_id prevLog)"
  then obtain e where "e \<in> set prevLog" "entry_id e = exit_id D x" by auto
  then show ?thesis by (rule fetch_skip_known)
next
  assume "\<exists>y \<in> set exits. exit_id D y = exit_id D x"
  then obtain y where "y \<in> set exits" "exit_id D y = exit_id D x" by blast
  then show ?thesis by (rule fetch_skip_repeated)
qed

lemma log_after_stop_value:
  "log_after_stop =
     [\<lparr>names = [''zed,1970-01-01T00:00:02.500Z''], timestamp = ''00:00:03'', sortTime = Some 3000\<rparr>,
      \<lparr>names = [''p1''], timestamp = ''00:00:00'', sortTime = Some 1\<rparr>,
      \<lparr>names = [''p2''], timestamp = ''00:00:00'', sortTime = Some 2\<rparr>,
      \<lparr>names = [''p3''], timestamp = ''00:00:00'', sortTime = Some 3\<rparr>,
      \<lparr>names = [''p4''], timestamp = ''00:00:00'', sortTime = Some 4\<rparr>,
      \<lparr>names = [''p5''], timestamp = ''00:00:00'', sortTime = Some 5\<rparr>,
      \<lparr>names = [''p6''], timestamp = ''00:00:00'', sortTime = Some 6\<rparr>,
      \<lparr>names = [''p7''], timestamp = ''00:00:00'', sortTime = Some 7\<rparr>,
      \<lparr>names = [''p8''], timestamp = ''00:00:00'', sortTime = Some 8\<rparr>,
      \<lparr>names = [''p9''], timestamp = ''00:00:00'', sortTime = Some 9\<rparr>,
      \<lparr>names = [''p10''], timestamp = ''00:00:00'', sortTime = Some 10\<rparr>,
      \<lparr>names = [''p11''], timestamp = ''00:00:00'', sortTime = Some 11\<rparr>,
      \<lparr>names = [''p12''], timestamp = ''00:00:00'', sortTime = Some 12\<rparr>,
      \<lparr>names = [''p13''], timestamp = ''00:00:00'', sortTime = Some 13\<rparr>,
      \<lparr>names = [''p14''], timestamp = ''00:00:00'', sortTime = Some 14\<rparr>,
      \<lparr>names = [''p15''], timestamp = ''00:00:00'', sortTime = Some 15\<rparr>,
      \<lparr>names = [''p16''], timestamp = ''00:00:00'', sortTime = Some 16\<rparr>,
      \<lparr>names = [''p17''], timestamp = ''00:00:00'', sortTime = Some 17\<rparr>,
      \<lparr>names = [''p18''], timestamp = ''00:00:00'', sortTime = Some 18\<rparr>,
      \<lparr>names = [''p19''], timestamp = ''00:00:00'', sortTime = Some 19\<rparr>]"
  unfolding log_after_stop_def log_after_pull_value by code_simp

lemma log_after_repeated_name_value:
  "log_after_repeated_name =
     [\<lparr>names = [''bob'', ''bob''], timestamp = ''00:00:01'', sortTime = Some 1000\<rparr>,
      \<lparr>names = [''bob''], timestamp = ''00:00:01'', sortTime = Some 1000\<rparr>]"
  unfolding log_after_repeated_name_def log_after_push_value by code_simp

text \<open>
  Claim C7. An entry is discarded when its identifier is already in the log, or occurred
  earlier in the same pull. The identifier is the text of the names, sorted and joined by
  commas, followed by \<open>-\<close> and \<open>sortTime\<close>: two entries with the same sorted list of names and
  the same \<open>sortTime\<close> collapse into one, and the identifiers in the log stay pairwise
  distinct. There are three writers. The push and \<open>handleVideoStop\<close>, which pulls
  \<open>/get_exits\<close> and adds one entry for all the exits it lists, keep the first 20 elements
  of the new entry followed by the previous log; \<open>fetchAllExits\<close>, which pulls
  \<open>/get_all_exits\<close>, keeps the first 50 elements of its new entries followed by the previous
  log. Entries are dropped from the end of the array, by their position and not by their
  \<open>sortTime\<close>.
\<close>

theorem exit_log_dedup_and_cap:
  "(ids \<noteq> [] \<and>
    join_js '','' (sort ids) @ ''-'' @ number_text (Some now) \<in> set (map entry_id prevLog) \<longrightarrow>
      fst (lastResponse_effect fmt now (Some ids) prevLog) = map sort_names prevLog) \<and>
   (ids \<noteq> [] \<and> e \<in> set prevLog \<and> sort (names e) = sort ids \<and> sortTime e = Some now \<longrightarrow>
      fst (lastResponse_effect fmt now (Some ids) prevLog) = map sort_names prevLog) \<and>
   (items \<noteq> [] \<and>
    join_js '','' (sort (map item_text items)) @ ''-'' @ number_text (Some now)
      \<in> set (map entry_id prevLog) \<longrightarrow>
      handleVideoStop fmt now (Some items) prevLog = map sort_names prevLog) \<and>
   (exit_id Date_getTime (nm, ts) \<in> set (map entry_id prevLog) \<or>
    (\<exists>x \<in> set exits. exit_id Date_getTime x = exit_id Date_getTime (nm, ts)) \<longrightarrow>
      fetchAllExits Date_getTime fmt (exits @ [(nm, ts)]) prevLog =
      fetchAllExits Date_getTime fmt exits prevLog) \<and>
   (distinct (map entry_id prevLog) \<longrightarrow>
      distinct (map entry_id (fst (lastResponse_effect fmt now exit_ids prevLog))) \<and>
      distinct (map entry_id (handleVideoStop fmt now stop_exits prevLog)) \<and>
      distinct (map entry_id (fetchAllExits Date_getTime fmt exits prevLog))) \<and>
   (ids \<noteq> [] \<and>
    join_js '','' (sort ids) @ ''-'' @ number_text (Some now) \<notin> set (map entry_id prevLog) \<longrightarrow>
      fst (lastResponse_effect fmt now (Some ids) prevLog) =
        take 20 (\<lparr>names = sort ids, timestamp = fmt (Some now), sortTime = Some now\<rparr> #
                 map sort_names prevLog)) \<and>
   (items \<noteq> [] \<and>
    join_js '','' (sort (map item_text items)) @ ''-'' @ number_text (Some now)
      \<notin> set (map entry_id prevLog) \<longrightarrow>
      handleVideoStop fmt now (Some items) prevLog =
        take 20 (\<lparr>names = sort (map item_text items), timestamp = fmt (Some now),
                   sortTime = Some now\<rparr> # map sort_names prevLog)) \<and>
   fetchAllExits Date_getTime fmt exits prevLog =
     take 50 (snd (foldl (exits_callback Date_getTime fmt) (map entry_id prevLog, []) exits) @
              map sort_names prevLog) \<and>
   length (fetchAllExits Date_getTime fmt exits prevLog) \<le> 50"
proof (intro conjI impI)
  assume "ids \<noteq> [] \<and>
    join_js '','' (sort ids) @ ''-'' @ number_text (Some now) \<in> set (map entry_id prevLog)"
  then show "fst (lastResponse_effect fmt now (Some ids) prevLog) = map sort_names prevLog"
    using push_known [of ids now prevLog fmt] by blast
next
  assume "ids \<noteq> [] \<and> e \<in> set prevLog \<and> sort (names e) = sort ids \<and> sortTime e = Some now"
  then show "fst (lastResponse_effect fmt now (Some ids) prevLog) = map sort_names prevLog"
    using push_duplicate [of ids e prevLog now fmt] by simp
next
  assume "items \<noteq> [] \<and>
    join_js '','' (sort (map item_text items)) @ ''-'' @ number_text (Some now)
      \<in> set (map entry_id prevLog)"
  then show "handleVideoStop fmt now (Some items) prevLog = map sort_names prevLog"
    using push_known [of "map item_text items" now prevLog fmt]
    by (simp add: handleVideoStop_push)
next
  assume "exit_id Date_getTime (nm, ts) \<in> set (map entry_id prevLog) \<or>
    (\<exists>x \<in> set exits. exit_id Date_getTime x = exit_id Date_getTime (nm, ts))"
  then show "fetchAllExits Date_getTime fmt (exits @ [(nm, ts)]) prevLog =
      fetchAllExits Date_getTime fmt exits prevLog"
    by (rule fetch_skip_identifier)
next
  assume d: "distinct (map entry_id prevLog)"
  show "distinct (map entry_id (fst (lastResponse_effect fmt now exit_ids prevLog)))"
    by (rule push_distinct [OF d])
  show "distinct (map entry_id (handleVideoStop fmt now stop_exits prevLog))"
    unfolding handleVideoStop_push by (rule push_distinct [OF d])
  show "distinct (map entry_id (fetchAllExits Date_getTime fmt exits prevLog))"
    by (rule fetch_distinct [OF d])
next
  assume "ids \<noteq> [] \<and>
    join_js '','' (sort ids) @ ''-'' @ number_text (Some now) \<notin> set (map entry_id prevLog)"
  then show "fst (lastResponse_effect fmt now (Some ids) prevLog) =
        take 20 (\<lparr>names = sort ids, timestamp = fmt (Some now), sortTime = Some now\<rparr> #
                 map sort_names prevLog)"
    using push_new [of ids now prevLog fmt] by simp
next
  assume "items \<noteq> [] \<and>
    join_js '','' (sort (map item_text items)) @ ''-'' @ number_text (Some now)
      \<notin> set (map entry_id prevLog)"
  then show "handleVideoStop fmt now (Some items) prevLog =
        take 20 (\<lparr>names = sort (map item_text items), timestamp = fmt (Some now),
                   sortTime = Some now\<rparr> # map sort_names prevLog)"
    using push_new [of "map item_text items" now prevLog fmt]
    by (simp add: handleVideoStop_push)
next
  show "fetchAllExits Date_getTime fmt exits prevLog =
     take 50 (snd (foldl (exits_callback Date_getTime fmt) (map entry_id prevLog, []) exits) @
              map sort_names prevLog)"
    by (rule fetch_shape)
  show "length (fetchAllExits Date_getTime fmt exits prevLog) \<le> 50"
    by (simp add: fetch_shape)
qed

theorem exit_log_eviction_counterexample:
  "length log_after_pull = 20 \<and>
   map sortTime log_after_pull = [Some 1, Some 2, Some 3, Some 4, Some 5, Some 6, Some 7, Some 8, Some 9, Some 10, Some 11, Some 12, Some 13, Some 14, Some 15, Some 16, Some 17, Some 18, Some 19, Some 1000] \<and>
   map sortTime log_after_second_push = [Some 2000, Some 1, Some 2, Some 3, Some 4, Some 5, Some 6, Some 7, Some 8, Some 9, Some 10, Some 11, Some 12, Some 13, Some 14, Some 15, Some 16, Some 17, Some 18, Some 19] \<and>
   \<lparr>names = [''bob''], timestamp = ''00:00:01'', sortTime = Some 1000\<rparr> \<in> set log_after_pull \<and>
   \<lparr>names = [''bob''], timestamp = ''00:00:01'', sortTime = Some 1000\<rparr> \<notin> set log_after_second_push \<and>
   \<lparr>names = [''p1''], timestamp = ''00:00:00'', sortTime = Some 1\<rparr> \<in> set log_after_second_push \<and>
   length log_after_stop = 20 \<and>
   map sortTime log_after_stop = [Some 3000, Some 1, Some 2, Some 3, Some 4, Some 5, Some 6, Some 7, Some 8, Some 9, Some 10, Some 11, Some 12, Some 13, Some 14, Some 15, Some 16, Some 17, Some 18, Some 19] \<and>
   \<lparr>names = [''bob''], timestamp = ''00:00:01'', sortTime = Some 1000\<rparr> \<notin> set log_after_stop \<and>
   log_after_repeated_name =
     [\<lparr>names = [''bob'', ''bob''], timestamp = ''00:00:01'', sortTime = Some 1000\<rparr>,
      \<lparr>names = [''bob''], timestamp = ''00:00:01'', sortTime = Some 1000\<rparr>] \<and>
   set [''bob'', ''bob''] = set [''bob'']"
  by (simp add: log_after_pull_value log_after_second_push_value log_after_stop_value
        log_after_repeated_name_value)

theorem exit_log_dedup_and_cap_witness:
  "fst (lastResponse_effect toLocaleTimeString_UTC 5 (Some [''b'', ''a''])
          [\<lparr>names = [''a,b''], timestamp = ''00:00:00'', sortTime = Some 5\<rparr>]) =
     [\<lparr>names = [''a,b''], timestamp = ''00:00:00'', sortTime = Some 5\<rparr>] \<and>
   fst (lastResponse_effect toLocaleTimeString_UTC 1000 (Some [''bob'']) log_after_push) =
     map sort_names log_after_push \<and>
   handleVideoStop toLocaleTimeString_UTC 3000
     (Some [ExitPair ''zed'' ''1970-01-01T00:00:02.500Z'']) log_after_stop =
     map sort_names log_after_stop \<and>
   fetchAllExits Date_getTime_sample toLocaleTimeString_UTC
     ([] @ [(''p1'', ''1970-01-01T00:00:00.001Z'')]) log_after_pull =
   fetchAllExits Date_getTime_sample toLocaleTimeString_UTC [] log_after_pull \<and>
   distinct (map entry_id (fetchAllExits Date_getTime_sample toLocaleTimeString_UTC early_exits
                             log_after_push)) \<and>
   fst (lastResponse_effect toLocaleTimeString_UTC 2000 (Some [''eve'', ''dan'']) log_after_pull) =
     take 20 (\<lparr>names = sort [''eve'', ''dan''], timestamp = toLocaleTimeString_UTC (Some 2000),
                sortTime = Some 2000\<rparr> # map sort_names log_after_pull) \<and>
   log_after_stop =
     take 20 (\<lparr>names = [''zed,1970-01-01T00:00:02.500Z''],
                timestamp = toLocaleTimeString_UTC (Some 3000), sortTime = Some 3000\<rparr> #
              map sort_names log_after_pull)"
proof -
  let ?bob = "\<lparr>names = [''bob''], timestamp = ''00:00:01'', sortTime = Some 1000\<rparr>"
  let ?ab = "\<lparr>names = [''a,b''], timestamp = ''00:00:00'', sortTime = Some 5\<rparr>"
  let ?zed = "ExitPair ''zed'' ''1970-01-01T00:00:02.500Z''"
  note t = exit_log_dedup_and_cap
    [where fmt = toLocaleTimeString_UTC and Date_getTime = Date_getTime_sample]
  have h1: "[''b'', ''a''] \<noteq> [] \<and>
            join_js '','' (sort [''b'', ''a'']) @ ''-'' @ number_text (Some 5) \<in> set (map entry_id [?ab])"
    by code_simp
  have c1: "fst (lastResponse_effect toLocaleTimeString_UTC 5 (Some [''b'', ''a'']) [?ab]) = [?ab]"
    using t [where ids = "[''b'', ''a'']" and now = 5 and prevLog = "[?ab]",
             THEN conjunct1, rule_format, OF h1]
    by (simp add: sort_names_def)
  have h2: "[''bob''] \<noteq> [] \<and> ?bob \<in> set log_after_push \<and> sort (names ?bob) = sort [''bob''] \<and>
            sortTime ?bob = Some 1000"
    by (simp add: log_after_push_value)
  note c2 = t [where ids = "[''bob'']" and e = ?bob and prevLog = log_after_push and now = 1000,
               THEN conjunct2, THEN conjunct1, rule_format, OF h2]
  have h3: "[?zed] \<noteq> [] \<and>
            join_js '','' (sort (map item_text [?zed])) @ ''-'' @ number_text (Some 3000)
              \<in> set (map entry_id log_after_stop)"
    unfolding log_after_stop_value by code_simp
  note c3 = t [where items = "[?zed]" and now = 3000 and prevLog = log_after_stop,
               THEN conjunct2, THEN conjunct2, THEN conjunct1, rule_format, OF h3]
  have h4: "exit_id Date_getTime_sample (''p1'', ''1970-01-01T00:00:00.001Z'')
              \<in> set (map entry_id log_after_pull) \<or>
            (\<exists>x \<in> set []. exit_id Date_getTime_sample x =
                           exit_id Date_getTime_sample (''p1'', ''1970-01-01T00:00:00.001Z''))"
    unfolding log_after_pull_value by code_simp
  note c4 = t [where nm = "''p1''" and ts = "''1970-01-01T00:00:00.001Z''" and exits = "[]"
                 and prevLog = log_after_pull,
               THEN conjunct2, THEN conjunct2, THEN conjunct2, THEN conjunct1, rule_format, OF h4]
  have h5: "distinct (map entry_id log_after_push)"
    by (simp add: log_after_push_value)
  note c5 = t [where prevLog = log_after_push and exits = early_exits,
               THEN conjunct2, THEN conjunct2, THEN conjunct2, THEN conjunct2, THEN conjunct1,
               rule_format, OF h5, THEN conjunct2, THEN conjunct2]
  have h6: "[''eve'', ''dan''] \<noteq> [] \<and>
            join_js '','' (sort [''eve'', ''dan'']) @ ''-'' @ number_text (Some 2000)
              \<notin> set (map entry_id log_after_pull)"
    unfolding log_after_pull_value by code_simp
  note c6 = t [where ids = "[''eve'', ''dan'']" and prevLog = log_after_pull and now = 2000,
               THEN conjunct2, THEN conjunct2, THEN conjunct2, THEN conjunct2, THEN conjunct2,
               THEN conjunct1, rule_format, OF h6]
  have h7: "[?zed] \<noteq> [] \<and>
            join_js '','' (sort (map item_text [?zed])) @ ''-'' @ number_text (Some 3000)
              \<notin> set (map entry_id log_after_pull)"
    unfolding log_after_pull_value by code_simp
  have c7: "log_after_stop =
     take 20 (\<lparr>names = [''zed,1970-01-01T00:00:02.500Z''],
                timestamp = toLocaleTimeString_UTC (Some 3000), sortTime = Some 3000\<rparr> #
              map sort_names log_after_pull)"
    using t [where items = "[?zed]" and prevLog = log_after_pull and now = 3000,
             THEN conjunct2, THEN conjunct2, THEN conjunct2, THEN conjunct2, THEN conjunct2,
             THEN conjunct2, THEN conjunct1, rule_format, OF h7]
    by (simp add: log_after_stop_def)
  show ?thesis
    by (intro conjI) (rule c1, rule c2, rule c3, rule c4, rule c5, rule c6, rule c7)
qed

lemma sorted_after_push:
  "ids \<noteq> [] \<Longrightarrow> entry \<in> set (fst (lastResponse_effect fmt now (Some ids) prevLog)) \<Longrightarrow>
   sorted (names entry)"
proof -
  assume a: "ids \<noteq> []" "entry \<in> set (fst (lastResponse_effect fmt now (Some ids) prevLog))"
  let ?new = "\<lparr>names = sort ids, timestamp = fmt (Some now), sortTime = Some now\<rparr>"
  from a have "entry \<in> set (map sort_names prevLog) \<or> entry \<in> set (take 20 (?new # map sort_names prevLog))"
    by (simp add: lastResponse_effect_def Let_def split: if_splits)
  then have "entry \<in> set (?new # map sort_names prevLog)"
    by (auto dest: in_set_takeD)
  then show ?thesis by (auto simp: sort_names_def)
qed

lemma push_result:
  "ids \<noteq> [] \<Longrightarrow>
   snd (lastResponse_effect fmt now (Some ids) prevLog) = Some (sort ids) \<and>
   (fst (lastResponse_effect fmt now (Some ids) prevLog) = map sort_names prevLog \<or>
    fst (lastResponse_effect fmt now (Some ids) prevLog) =
      \<lparr>names = sort ids, timestamp = fmt (Some now), sortTime = Some now\<rparr> #
      take 19 (map sort_names prevLog))"
  by (simp add: lastResponse_effect_def Let_def)

text \<open>
  Claim C10. When a pushed response has a non-empty \<open>exit_ids\<close>, the effect leaves that array
  sorted, and if it adds an entry the \<open>names\<close> of the entry is this sorted array: the names
  are in ascending order of their code units whatever the order in which they arrived.
  Every entry of the log after the effect has sorted names.
\<close>

theorem push_entry_names_sorted:
  "(ids \<noteq> [] \<longrightarrow>
      snd (lastResponse_effect fmt now (Some ids) prevLog) = Some (sort ids) \<and>
      (fst (lastResponse_effect fmt now (Some ids) prevLog) = map sort_names prevLog \<or>
       fst (lastResponse_effect fmt now (Some ids) prevLog) =
         \<lparr>names = sort ids, timestamp = fmt (Some now), sortTime = Some now\<rparr> #
         take 19 (map sort_names prevLog)) \<and>
      (\<forall>entry \<in> set (fst (lastResponse_effect fmt now (Some ids) prevLog)). sorted (names entry))) \<and>
   sorted (sort ids) \<and> set (sort ids) = set ids \<and> length (sort ids) = length ids"
  using push_result [of ids fmt now prevLog] sorted_after_push [of ids _ fmt now prevLog]
  by auto

theorem push_entry_names_sorted_witness:
  "snd (lastResponse_effect toLocaleTimeString_UTC 2000 (Some [''eve'', ''dan'']) log_after_pull) =
     Some [''dan'', ''eve''] \<and>
   names (hd log_after_second_push) = [''dan'', ''eve''] \<and>
   sorted [''dan'', ''eve'']"
proof -
  have h: "[''eve'', ''dan''] \<noteq> []" by simp
  have s: "sort [''eve'', ''dan''] = [''dan'', ''eve'']" by code_simp
  note t = push_entry_names_sorted
    [where ids = "[''eve'', ''dan'']" and fmt = toLocaleTimeString_UTC and now = 2000
       and prevLog = log_after_pull]
  from t [THEN conjunct1, rule_format, OF h] t [THEN conjunct2]
  show ?thesis by (simp add: s log_after_second_push_value)
qed


section \<open>Properties of the overlay\<close>

lemma quotient_finite:
  assumes "rounding fl" "fl w = Fin w" "0 < n"
  shows "\<exists>q. fl (w / real n) = Fin q"
proof -
  from assms(3) have "1 \<le> real n" by simp
  then have "\<bar>w\<bar> / real n \<le> \<bar>w\<bar>"
    by (simp add: divide_le_eq mult_le_cancel_left1)
  then have "\<bar>w / real n\<bar> \<le> \<bar>w\<bar>" by simp
  with assms(1,2) show ?thesis unfolding rounding_def by blast
qed

lemma updateCanvasDimensions_finite:
  assumes "rounding fl" "doubles fl [(video, container)]"
    and "\<exists>a b. scaleFactor s = \<lparr>sf_x = Fin a, sf_y = Fin b\<rparr>"
  shows "\<exists>a b. scaleFactor (updateCanvasDimensions fl video container s) =
           \<lparr>sf_x = Fin a, sf_y = Fin b\<rparr>"
proof (cases video)
  case None
  with assms(3) show ?thesis by (simp add: updateCanvasDimensions_def)
next
  case (Some v)
  obtain vw vh rect where v: "v = (vw, vh, rect)" by (cases v)
  show ?thesis
  proof (cases "0 < vw \<and> 0 < vh \<and> container \<noteq> None")
    case True
    then obtain c where c: "container = Some c" by auto
    from assms(2) Some v have d: "fl (rect_width rect) = Fin (rect_width rect)"
        "fl (rect_height rect) = Fin (rect_height rect)"
      by (simp_all add: doubles_def)
    from True quotient_finite [OF assms(1) d(1), of vw] quotient_finite [OF assms(1) d(2), of vh]
    obtain a b where "fl (rect_width rect / real vw) = Fin a" "fl (rect_height rect / real vh) = Fin b"
      by auto
    with True Some v c show ?thesis by (simp add: updateCanvasDimensions_def)
  next
    case False
    with assms(3) Some v show ?thesis
      by (auto simp: updateCanvasDimensions_def split: option.splits)
  qed
qed

lemma doubles_Cons: "doubles fl (u # us) = (doubles fl [u] \<and> doubles fl us)"
  by (simp add: doubles_def)

lemma foldl_update_finite:
  "rounding fl \<Longrightarrow> doubles fl updates \<Longrightarrow>
   \<exists>a b. scaleFactor s = \<lparr>sf_x = Fin a, sf_y = Fin b\<rparr> \<Longrightarrow>
   \<exists>a b. scaleFactor (foldl (\<lambda>s (video, container). updateCanvasDimensions fl video container s)
                        s updates) =
         \<lparr>sf_x = Fin a, sf_y = Fin b\<rparr>"
proof (induction updates arbitrary: s)
  case Nil
  then show ?case by simp
next
  case (Cons u us)
  obtain video container where u: "u = (video, container)" by (cases u)
  from Cons.prems(2) have d: "doubles fl [(video, container)]" "doubles fl us"
    using doubles_Cons [of fl u us] by (simp_all add: u)
  have "\<exists>a b. scaleFactor (updateCanvasDimensions fl video container s) =
          \<lparr>sf_x = Fin a, sf_y = Fin b\<rparr>"
    by (rule updateCanvasDimensions_finite [OF Cons.prems(1) d(1) Cons.prems(3)])
  from Cons.IH [OF Cons.prems(1) d(2) this] show ?case by (simp add: u)
qed

lemma overlay_after_finite:
  "rounding fl \<Longrightarrow> doubles fl updates \<Longrightarrow>
   \<exists>a b. scaleFactor (overlay_after fl updates) = \<lparr>sf_x = Fin a, sf_y = Fin b\<rparr>"
  unfolding overlay_after_def
  by (rule foldl_update_finite) (simp_all add: initial_overlay_def)

lemma scaled_not_NaN: "\<forall>r. fl r \<noteq> NaN \<Longrightarrow> v \<noteq> NaN \<Longrightarrow> 0 < a \<Longrightarrow> js_mul fl v (Fin a) \<noteq> NaN"
  by (cases v) auto

lemma clamp_range:
  "v \<noteq> NaN \<Longrightarrow> \<exists>r. clamped n v = Fin r \<and> 0 \<le> r \<and> r \<le> real n"
  by (cases v) (auto simp: clamped_def Math_max_def Math_min_def)

lemma clamped_scaled:
  "\<forall>r. fl r \<noteq> NaN \<Longrightarrow> v \<noteq> NaN \<Longrightarrow> 0 < a \<Longrightarrow>
   \<exists>c. clamped n (js_mul fl v (Fin a)) = Fin c \<and> 0 \<le> c \<and> c \<le> real n"
  by (rule clamp_range) (rule scaled_not_NaN)

lemma floor_5: "v \<noteq> NaN \<Longrightarrow> js_le (Fin 5) (Math_max (Fin 5) v)"
  by (cases v) (auto simp: Math_max_def)

lemma draw_box_clamped:
  "draw_box fl s p =
     StrokeRect
       (clamped (canvas_width s) (js_mul fl (x1 p) (sf_x (scaleFactor s))))
       (clamped (canvas_height s) (js_mul fl (y1 p) (sf_y (scaleFactor s))))
       (Math_max (Fin 5)
          (js_sub fl (clamped (canvas_width s) (js_mul fl (x2 p) (sf_x (scaleFactor s))))
                     (clamped (canvas_width s) (js_mul fl (x1 p) (sf_x (scaleFactor s))))))
       (Math_max (Fin 5)
          (js_sub fl (clamped (canvas_height s) (js_mul fl (y2 p) (sf_y (scaleFactor s))))
                     (clamped (canvas_height s) (js_mul fl (y1 p) (sf_y (scaleFactor s))))))"
  by (simp add: draw_box_def scaledCoords_def clamped_def Let_def)

lemma draw_boxes:
  assumes "videoRect s \<noteq> None" "predictions \<noteq> []" "canvas_width s \<noteq> 0" "canvas_height s \<noteq> 0"
    "\<not> js_le (sf_x (scaleFactor s)) (Fin 0)" "\<not> js_le (sf_y (scaleFactor s)) (Fin 0)"
  shows "draw fl s predictions =
     ClearRect (Fin 0) (Fin 0) (Fin (real (canvas_width s))) (Fin (real (canvas_height s))) #
     map (\<lambda>p. StrokeRect
       (clamped (canvas_width s) (js_mul fl (x1 p) (sf_x (scaleFactor s))))
       (clamped (canvas_height s) (js_mul fl (y1 p) (sf_y (scaleFactor s))))
       (Math_max (Fin 5)
          (js_sub fl (clamped (canvas_width s) (js_mul fl (x2 p) (sf_x (scaleFactor s))))
                     (clamped (canvas_width s) (js_mul fl (x1 p) (sf_x (scaleFactor s))))))
       (Math_max (Fin 5)
          (js_sub fl (clamped (canvas_height s) (js_mul fl (y2 p) (sf_y (scaleFactor s))))
                     (clamped (canvas_height s) (js_mul fl (y1 p) (sf_y (scaleFactor s)))))))
       predictions"
  using assms by (simp add: draw_def draw_box_clamped)

lemma draw_member:
  assumes "c \<in> set (draw fl s predictions)" "\<forall>bx by' w h. c \<noteq> ClearRect bx by' w h"
  shows "\<not> js_le (sf_x (scaleFactor s)) (Fin 0) \<and> \<not> js_le (sf_y (scaleFactor s)) (Fin 0) \<and>
         (\<exists>p \<in> set predictions. c = draw_box fl s p)"
  using assms by (auto simp: draw_def split: if_splits)

lemma stroked_box:
  assumes nn: "\<forall>r. fl r \<noteq> NaN"
    and sf: "scaleFactor s = \<lparr>sf_x = Fin a, sf_y = Fin b\<rparr>"
    and cs: "\<forall>p \<in> set predictions. x1 p \<noteq> NaN \<and> y1 p \<noteq> NaN \<and> x2 p \<noteq> NaN \<and> y2 p \<noteq> NaN"
    and m: "StrokeRect bx by' w h \<in> set (draw fl s predictions)"
  shows "(\<exists>p \<in> set predictions. \<exists>cx1 cy1 cx2 cy2.
            clamped (canvas_width s) (js_mul fl (x1 p) (Fin a)) = Fin cx1 \<and>
            clamped (canvas_height s) (js_mul fl (y1 p) (Fin b)) = Fin cy1 \<and>
            clamped (canvas_width s) (js_mul fl (x2 p) (Fin a)) = Fin cx2 \<and>
            clamped (canvas_height s) (js_mul fl (y2 p) (Fin b)) = Fin cy2 \<and>
            0 \<le> cx1 \<and> cx1 \<le> real (canvas_width s) \<and> 0 \<le> cx2 \<and> cx2 \<le> real (canvas_width s) \<and>
            0 \<le> cy1 \<and> cy1 \<le> real (canvas_height s) \<and> 0 \<le> cy2 \<and> cy2 \<le> real (canvas_height s) \<and>
            bx = Fin cx1 \<and> by' = Fin cy1 \<and>
            w = Math_max (Fin 5) (fl (cx2 - cx1)) \<and> h = Math_max (Fin 5) (fl (cy2 - cy1))) \<and>
         js_le (Fin 5) w \<and> js_le (Fin 5) h"
proof -
  from draw_member [OF m] sf obtain p where
    p: "p \<in> set predictions" "draw_box fl s p = StrokeRect bx by' w h" and pos: "0 < a" "0 < b"
    by auto
  from cs p(1) have c: "x1 p \<noteq> NaN" "y1 p \<noteq> NaN" "x2 p \<noteq> NaN" "y2 p \<noteq> NaN" by auto
  obtain cx1 where r1: "clamped (canvas_width s) (js_mul fl (x1 p) (Fin a)) = Fin cx1"
      "0 \<le> cx1" "cx1 \<le> real (canvas_width s)"
    using clamped_scaled [OF nn c(1) pos(1), of "canvas_width s"] by auto
  obtain cy1 where r2: "clamped (canvas_height s) (js_mul fl (y1 p) (Fin b)) = Fin cy1"
      "0 \<le> cy1" "cy1 \<le> real (canvas_height s)"
    using clamped_scaled [OF nn c(2) pos(2), of "canvas_height s"] by auto
  obtain cx2 where r3: "clamped (canvas_width s) (js_mul fl (x2 p) (Fin a)) = Fin cx2"
      "0 \<le> cx2" "cx2 \<le> real (canvas_width s)"
    using clamped_scaled [OF nn c(3) pos(1), of "canvas_width s"] by auto
  obtain cy2 where r4: "clamped (canvas_height s) (js_mul fl (y2 p) (Fin b)) = Fin cy2"
      "0 \<le> cy2" "cy2 \<le> real (canvas_height s)"
    using clamped_scaled [OF nn c(4) pos(2), of "canvas_height s"] by auto
  from p(2) have e: "bx = Fin cx1" "by' = Fin cy1"
    "w = Math_max (Fin 5) (fl (cx2 - cx1))" "h = Math_max (Fin 5) (fl (cy2 - cy1))"
    by (simp_all add: draw_box_clamped sf r1(1) r2(1) r3(1) r4(1))
  from e nn have "js_le (Fin 5) w" "js_le (Fin 5) h" by (simp_all add: floor_5)
  with p(1) r1 r2 r3 r4 e show ?thesis by blast
qed

lemma example_scale:
  "fl (1 / 2) = Fin (1 / 2) \<Longrightarrow>
   scaleFactor (updateCanvasDimensions fl (Some (1280, 720, displayed_640_360))
      (Some displayed_640_360) initial_overlay) = \<lparr>sf_x = Fin (1 / 2), sf_y = Fin (1 / 2)\<rparr>"
  by (simp add: updateCanvasDimensions_def displayed_640_360_def)

lemma example_scaled:
  "fl 50 = Fin 50 \<Longrightarrow> fl 100 = Fin 100 \<Longrightarrow>
   scaledCoords fl \<lparr>sf_x = Fin (1 / 2), sf_y = Fin (1 / 2)\<rparr> box_100_200 =
     (Fin 50, Fin 50, Fin 100, Fin 100)"
  by (simp add: scaledCoords_def box_100_200_def)

lemma rounding_round_1024: "rounding round_1024"
  unfolding rounding_def round_1024_def by blast

lemma round_1024_integer: "round_1024 (real_of_int k) = Fin (real_of_int k)"
proof -
  have "\<lfloor>real_of_int k * 1024 + 1 / 2\<rfloor> = k * 1024"
    by (simp add: floor_unique)
  then show ?thesis by (simp add: round_1024_def)
qed

lemma round_1024_half: "round_1024 (1 / 2) = Fin (1 / 2)"
proof -
  have "\<lfloor>(1 / 2 :: real) * 1024 + 1 / 2\<rfloor> = 512"
    by (simp add: floor_unique)
  then show ?thesis by (simp add: round_1024_def)
qed

lemma round_1024_numeral [simp]: "round_1024 (numeral k) = Fin (numeral k)"
  using round_1024_integer [of "numeral k"] by simp

lemma round_1024_zero [simp]: "round_1024 0 = Fin 0"
  using round_1024_integer [of 0] by simp


text \<open>
  Claim C8. The scale factors are the displayed width and height divided by the intrinsic
  ones, and they are finite; \<open>scaledCoords\<close> is each coordinate of the prediction times the
  factor of its axis. When the effect draws, it strokes one rectangle for each prediction,
  in their order: each of the four scaled coordinates is clamped, \<open>x1\<close> and \<open>x2\<close> into
  \<open>[0, canvas.width]\<close>, \<open>y1\<close> and \<open>y2\<close> into \<open>[0, canvas.height]\<close>; the corner of the rectangle is
  the clamped \<open>(x1, y1)\<close>, its width is the larger of 5 and the clamped \<open>x2\<close> minus the clamped
  \<open>x1\<close>, and its height likewise. For predictions whose coordinates are numbers, as all
  records of \<open>processWebSocketResponse\<close> are, the clamped coordinates lie in these intervals
  and the width and the height are at least 5. With a video of 1280 by 720 displayed at
  640 by 360 both factors are 1/2 and the box (100, 100, 200, 200) is scaled to
  (50, 50, 100, 100); these operations are exact.
\<close>

theorem overlay_boxes_scaled_and_clamped:
  "(rounding fl \<and> doubles fl updates \<longrightarrow>
      (\<exists>a b. scaleFactor (overlay_after fl updates) = \<lparr>sf_x = Fin a, sf_y = Fin b\<rparr>)) \<and>
   (0 < videoWidth \<and> 0 < videoHeight \<longrightarrow>
      scaleFactor (updateCanvasDimensions fl (Some (videoWidth, videoHeight, rect))
                     (Some containerRect) s) =
        \<lparr> sf_x = fl (rect_width rect / real videoWidth),
           sf_y = fl (rect_height rect / real videoHeight) \<rparr>) \<and>
   scaledCoords fl sf pred =
     (js_mul fl (x1 pred) (sf_x sf), js_mul fl (y1 pred) (sf_y sf),
      js_mul fl (x2 pred) (sf_x sf), js_mul fl (y2 pred) (sf_y sf)) \<and>
   (videoRect s \<noteq> None \<and> predictions \<noteq> [] \<and> canvas_width s \<noteq> 0 \<and> canvas_height s \<noteq> 0 \<and>
    \<not> js_le (sf_x (scaleFactor s)) (Fin 0) \<and> \<not> js_le (sf_y (scaleFactor s)) (Fin 0) \<longrightarrow>
      draw fl s predictions =
        ClearRect (Fin 0) (Fin 0) (Fin (real (canvas_width s))) (Fin (real (canvas_height s))) #
        map (\<lambda>p. StrokeRect
          (clamped (canvas_width s) (js_mul fl (x1 p) (sf_x (scaleFactor s))))
          (clamped (canvas_height s) (js_mul fl (y1 p) (sf_y (scaleFactor s))))
          (Math_max (Fin 5)
             (js_sub fl (clamped (canvas_width s) (js_mul fl (x2 p) (sf_x (scaleFactor s))))
                        (clamped (canvas_width s) (js_mul fl (x1 p) (sf_x (scaleFactor s))))))
          (Math_max (Fin 5)
             (js_sub fl (clamped (canvas_height s) (js_mul fl (y2 p) (sf_y (scaleFactor s))))
                        (clamped (canvas_height s) (js_mul fl (y1 p) (sf_y (scaleFactor s)))))))
          predictions) \<and>
   ((\<forall>r. fl r \<noteq> NaN) \<and> v \<noteq> NaN \<and> 0 < a \<longrightarrow>
      (\<exists>c. clamped n (js_mul fl v (Fin a)) = Fin c \<and> 0 \<le> c \<and> c \<le> real n)) \<and>
   ((\<forall>r. fl r \<noteq> NaN) \<and> scaleFactor s = \<lparr>sf_x = Fin a, sf_y = Fin b\<rparr> \<and>
    (\<forall>p \<in> set predictions. x1 p \<noteq> NaN \<and> y1 p \<noteq> NaN \<and> x2 p \<noteq> NaN \<and> y2 p \<noteq> NaN) \<and>
    StrokeRect bx by' w h \<in> set (draw fl s predictions) \<longrightarrow>
      (\<exists>p \<in> set predictions. \<exists>cx1 cy1 cx2 cy2.
          clamped (canvas_width s) (js_mul fl (x1 p) (Fin a)) = Fin cx1 \<and>
          clamped (canvas_height s) (js_mul fl (y1 p) (Fin b)) = Fin cy1 \<and>
          clamped (canvas_width s) (js_mul fl (x2 p) (Fin a)) = Fin cx2 \<and>
          clamped (canvas_height s) (js_mul fl (y2 p) (Fin b)) = Fin cy2 \<and>
          0 \<le> cx1 \<and> cx1 \<le> real (canvas_width s) \<and> 0 \<le> cx2 \<and> cx2 \<le> real (canvas_width s) \<and>
          0 \<le> cy1 \<and> cy1 \<le> real (canvas_height s) \<and> 0 \<le> cy2 \<and> cy2 \<le> real (canvas_height s) \<and>
          bx = Fin cx1 \<and> by' = Fin cy1 \<and>
          w = Math_max (Fin 5) (fl (cx2 - cx1)) \<and> h = Math_max (Fin 5) (fl (cy2 - cy1))) \<and>
      js_le (Fin 5) w \<and> js_le (Fin 5) h) \<and>
   (rounding fl \<and> doubles fl updates \<and>
    StrokeRect bx by' w h
      \<in> set (draw fl (overlay_after fl updates)
               (processWebSocketResponse throws strToNum numToStr response)) \<longrightarrow>
      js_le (Fin 0) bx \<and> js_le bx (Fin (real (canvas_width (overlay_after fl updates)))) \<and>
      js_le (Fin 0) by' \<and> js_le by' (Fin (real (canvas_height (overlay_after fl updates)))) \<and>
      js_le (Fin 5) w \<and> js_le (Fin 5) h) \<and>
   (fl (1 / 2) = Fin (1 / 2) \<longrightarrow>
      scaleFactor (updateCanvasDimensions fl (Some (1280, 720, displayed_640_360))
         (Some displayed_640_360) initial_overlay) = \<lparr>sf_x = Fin (1 / 2), sf_y = Fin (1 / 2)\<rparr>) \<and>
   (fl 50 = Fin 50 \<and> fl 100 = Fin 100 \<longrightarrow>
      scaledCoords fl \<lparr>sf_x = Fin (1 / 2), sf_y = Fin (1 / 2)\<rparr> box_100_200 =
        (Fin 50, Fin 50, Fin 100, Fin 100))"
proof (intro conjI impI)
  assume "rounding fl \<and> doubles fl updates"
  then show "\<exists>a b. scaleFactor (overlay_after fl updates) = \<lparr>sf_x = Fin a, sf_y = Fin b\<rparr>"
    using overlay_after_finite by blast
next
  assume "0 < videoWidth \<and> 0 < videoHeight"
  then show "scaleFactor (updateCanvasDimensions fl (Some (videoWidth, videoHeight, rect))
                     (Some containerRect) s) =
        \<lparr> sf_x = fl (rect_width rect / real videoWidth),
           sf_y = fl (rect_height rect / real videoHeight) \<rparr>"
    by (simp add: updateCanvasDimensions_def)
next
  show "scaledCoords fl sf pred =
     (js_mul fl (x1 pred) (sf_x sf), js_mul fl (y1 pred) (sf_y sf),
      js_mul fl (x2 pred) (sf_x sf), js_mul fl (y2 pred) (sf_y sf))"
    by (simp add: scaledCoords_def)
next
  assume "videoRect s \<noteq> None \<and> predictions \<noteq> [] \<and> canvas_width s \<noteq> 0 \<and> canvas_height s \<noteq> 0 \<and>
    \<not> js_le (sf_x (scaleFactor s)) (Fin 0) \<and> \<not> js_le (sf_y (scaleFactor s)) (Fin 0)"
  then show "draw fl s predictions =
        ClearRect (Fin 0) (Fin 0) (Fin (real (canvas_width s))) (Fin (real (canvas_height s))) #
        map (\<lambda>p. StrokeRect
          (clamped (canvas_width s) (js_mul fl (x1 p) (sf_x (scaleFactor s))))
          (clamped (canvas_height s) (js_mul fl (y1 p) (sf_y (scaleFactor s))))
          (Math_max (Fin 5)
             (js_sub fl (clamped (canvas_width s) (js_mul fl (x2 p) (sf_x (scaleFactor s))))
                        (clamped (canvas_width s) (js_mul fl (x1 p) (sf_x (scaleFactor s))))))
          (Math_max (Fin 5)
             (js_sub fl (clamped (canvas_height s) (js_mul fl (y2 p) (sf_y (scaleFactor s))))
                        (clamped (canvas_height s) (js_mul fl (y1 p) (sf_y (scaleFactor s)))))))
          predictions"
    using draw_boxes [of s predictions fl] by blast
next
  assume "(\<forall>r. fl r \<noteq> NaN) \<and> v \<noteq> NaN \<and> 0 < a"
  then show "\<exists>c. clamped n (js_mul fl v (Fin a)) = Fin c \<and> 0 \<le> c \<and> c \<le> real n"
    using clamped_scaled [of fl v a n] by blast
next
  assume a: "(\<forall>r. fl r \<noteq> NaN) \<and> scaleFactor s = \<lparr>sf_x = Fin a, sf_y = Fin b\<rparr> \<and>
    (\<forall>p \<in> set predictions. x1 p \<noteq> NaN \<and> y1 p \<noteq> NaN \<and> x2 p \<noteq> NaN \<and> y2 p \<noteq> NaN) \<and>
    StrokeRect bx by' w h \<in> set (draw fl s predictions)"
  note b = stroked_box [of fl s a b predictions bx by' w h]
  from a b show "\<exists>p \<in> set predictions. \<exists>cx1 cy1 cx2 cy2.
          clamped (canvas_width s) (js_mul fl (x1 p) (Fin a)) = Fin cx1 \<and>
          clamped (canvas_height s) (js_mul fl (y1 p) (Fin b)) = Fin cy1 \<and>
          clamped (canvas_width s) (js_mul fl (x2 p) (Fin a)) = Fin cx2 \<and>
          clamped (canvas_height s) (js_mul fl (y2 p) (Fin b)) = Fin cy2 \<and>
          0 \<le> cx1 \<and> cx1 \<le> real (canvas_width s) \<and> 0 \<le> cx2 \<and> cx2 \<le> real (canvas_width s) \<and>
          0 \<le> cy1 \<and> cy1 \<le> real (canvas_height s) \<and> 0 \<le> cy2 \<and> cy2 \<le> real (canvas_height s) \<and>
          bx = Fin cx1 \<and> by' = Fin cy1 \<and>
          w = Math_max (Fin 5) (fl (cx2 - cx1)) \<and> h = Math_max (Fin 5) (fl (cy2 - cy1))"
    by blast
  from a b show "js_le (Fin 5) w" "js_le (Fin 5) h" by blast+
next
  assume a: "rounding fl \<and> doubles fl updates \<and>
    StrokeRect bx by' w h
      \<in> set (draw fl (overlay_after fl updates)
               (processWebSocketResponse throws strToNum numToStr response))"
  then obtain a' b' where sf: "scaleFactor (overlay_after fl updates) = \<lparr>sf_x = Fin a', sf_y = Fin b'\<rparr>"
    using overlay_after_finite [of fl updates] by blast
  from a have nn: "\<forall>r. fl r \<noteq> NaN" by (simp add: rounding_def)
  have cs: "\<forall>p \<in> set (processWebSocketResponse throws strToNum numToStr response).
              x1 p \<noteq> NaN \<and> y1 p \<noteq> NaN \<and> x2 p \<noteq> NaN \<and> y2 p \<noteq> NaN"
    using response_coordinates_not_NaN by blast
  from a have m: "StrokeRect bx by' w h
      \<in> set (draw fl (overlay_after fl updates)
               (processWebSocketResponse throws strToNum numToStr response))" by simp
  note b = stroked_box [OF nn sf cs m]
  from b show "js_le (Fin 0) bx" "js_le bx (Fin (real (canvas_width (overlay_after fl updates))))"
    "js_le (Fin 0) by'" "js_le by' (Fin (real (canvas_height (overlay_after fl updates))))"
    by auto
  from b show "js_le (Fin 5) w" "js_le (Fin 5) h" by blast+
next
  assume "fl (1 / 2) = Fin (1 / 2)"
  then show "scaleFactor (updateCanvasDimensions fl (Some (1280, 720, displayed_640_360))
         (Some displayed_640_360) initial_overlay) = \<lparr>sf_x = Fin (1 / 2), sf_y = Fin (1 / 2)\<rparr>"
    by (rule example_scale)
next
  assume "fl 50 = Fin 50 \<and> fl 100 = Fin 100"
  then show "scaledCoords fl \<lparr>sf_x = Fin (1 / 2), sf_y = Fin (1 / 2)\<rparr> box_100_200 =
        (Fin 50, Fin 50, Fin 100, Fin 100)"
    using example_scaled [of fl] by blast
qed

theorem overlay_boxes_scaled_and_clamped_witness:
  "draw round_1024
     (overlay_after round_1024 [(Some (1280, 720, displayed_640_360), Some displayed_640_360)])
     [box_100_200, box_100_3000] =
     [ClearRect (Fin 0) (Fin 0) (Fin 640) (Fin 360),
      StrokeRect (Fin 50) (Fin 50) (Fin 50) (Fin 50),
      StrokeRect (Fin 50) (Fin 50) (Fin 590) (Fin 310)] \<and>
   js_le (Fin 5) (Fin 590) \<and> js_le (Fin 5) (Fin 310) \<and>
   (\<exists>c. clamped 640 (js_mul round_1024 (Fin 3000) (Fin (1 / 2))) = Fin c \<and> 0 \<le> c \<and> c \<le> real 640) \<and>
   (\<exists>a b. scaleFactor
       (overlay_after round_1024 [(Some (1280, 720, displayed_640_360), Some displayed_640_360)]) =
       \<lparr>sf_x = Fin a, sf_y = Fin b\<rparr>) \<and>
   scaleFactor (updateCanvasDimensions round_1024 (Some (1280, 720, displayed_640_360))
      (Some displayed_640_360) initial_overlay) = \<lparr>sf_x = Fin (1 / 2), sf_y = Fin (1 / 2)\<rparr> \<and>
   scaledCoords round_1024 \<lparr>sf_x = Fin (1 / 2), sf_y = Fin (1 / 2)\<rparr> box_100_200 =
     (Fin 50, Fin 50, Fin 100, Fin 100)"
proof -
  let ?u = "[(Some (1280, 720, displayed_640_360), Some displayed_640_360)]"
  let ?s = "overlay_after round_1024 ?u"
  note t = overlay_boxes_scaled_and_clamped [where fl = round_1024]
  have s: "?s = \<lparr> canvas_width = 640, canvas_height = 360, canvas_left = Fin 0, canvas_top = Fin 0,
                   scaleFactor = \<lparr>sf_x = Fin (1 / 2), sf_y = Fin (1 / 2)\<rparr>,
                   videoRect = Some displayed_640_360 \<rparr>"
    by (simp add: overlay_after_def updateCanvasDimensions_def initial_overlay_def
          displayed_640_360_def round_1024_half)
  have h1: "rounding round_1024 \<and> doubles round_1024 ?u"
    by (simp add: rounding_round_1024 doubles_def displayed_640_360_def)
  have h4: "videoRect ?s \<noteq> None \<and> [box_100_200, box_100_3000] \<noteq> [] \<and> canvas_width ?s \<noteq> 0 \<and>
      canvas_height ?s \<noteq> 0 \<and> \<not> js_le (sf_x (scaleFactor ?s)) (Fin 0) \<and>
      \<not> js_le (sf_y (scaleFactor ?s)) (Fin 0)"
    by (simp add: s)
  have c4: "draw round_1024 ?s [box_100_200, box_100_3000] =
     [ClearRect (Fin 0) (Fin 0) (Fin 640) (Fin 360),
      StrokeRect (Fin 50) (Fin 50) (Fin 50) (Fin 50),
      StrokeRect (Fin 50) (Fin 50) (Fin 590) (Fin 310)]"
    using t [where s = ?s and predictions = "[box_100_200, box_100_3000]",
             THEN conjunct2, THEN conjunct2, THEN conjunct2, THEN conjunct1, rule_format, OF h4]
    by (simp add: s box_100_200_def box_100_3000_def clamped_def Math_max_def Math_min_def)
  have h5: "(\<forall>r. round_1024 r \<noteq> NaN) \<and> Fin 3000 \<noteq> NaN \<and> (0::real) < 1 / 2"
    by (simp add: round_1024_def)
  note c5 = t [where v = "Fin 3000" and a = "1 / 2" and n = 640,
               THEN conjunct2, THEN conjunct2, THEN conjunct2, THEN conjunct2, THEN conjunct1,
               rule_format, OF h5]
  have h6: "(\<forall>r. round_1024 r \<noteq> NaN) \<and>
      scaleFactor ?s = \<lparr>sf_x = Fin (1 / 2), sf_y = Fin (1 / 2)\<rparr> \<and>
      (\<forall>p \<in> set [box_100_200, box_100_3000].
         x1 p \<noteq> NaN \<and> y1 p \<noteq> NaN \<and> x2 p \<noteq> NaN \<and> y2 p \<noteq> NaN) \<and>
      StrokeRect (Fin 50) (Fin 50) (Fin 590) (Fin 310)
        \<in> set (draw round_1024 ?s [box_100_200, box_100_3000])"
    unfolding c4 by (simp add: s round_1024_def box_100_200_def box_100_3000_def)
  note c6 = t [where s = ?s and a = "1 / 2" and b = "1 / 2"
                 and predictions = "[box_100_200, box_100_3000]"
                 and bx = "Fin 50" and by' = "Fin 50" and w = "Fin 590" and h = "Fin 310",
               THEN conjunct2, THEN conjunct2, THEN conjunct2, THEN conjunct2, THEN conjunct2,
               THEN conjunct1, rule_format, OF h6]
  from c6 have c6a: "js_le (Fin 5) (Fin 590)" and c6b: "js_le (Fin 5) (Fin 310)" by blast+
  note c1 = t [where updates = ?u, THEN conjunct1, rule_format, OF h1]
  note c8 = t [THEN conjunct2, THEN conjunct2, THEN conjunct2, THEN conjunct2, THEN conjunct2,
               THEN conjunct2, THEN conjunct2, THEN conjunct1, rule_format, OF round_1024_half]
  have h9: "round_1024 50 = Fin 50 \<and> round_1024 100 = Fin 100" by simp
  note c9 = t [THEN conjunct2, THEN conjunct2, THEN conjunct2, THEN conjunct2, THEN conjunct2,
               THEN conjunct2, THEN conjunct2, THEN conjunct2, rule_format, OF h9]
  show ?thesis
    by (intro conjI) (rule c4, rule c6a, rule c6b, rule c5, rule c1, rule c8, rule c9)
qed

end
